(* ===== verification/JsBase.thy ===== *)
theory JsBase
  imports Main
begin

text \<open>
  Prelude of the development: the parts of the JavaScript standard library the
  user interface (\<^verbatim>\<open>ui/src\<close>) relies on, as executable HOL functions, with the
  simplification lemmas the component theories share.

  A JavaScript string is modelled by the bytes of its UTF-8 encoding (a HOL
  \<open>string\<close>).  Every operation of the source that cuts a string does so at an
  ASCII delimiter, which never occurs inside a multi-byte character, and
  \<open>encodeURIComponent\<close> is defined on the UTF-8 bytes, so the byte view is the
  one on which the source's operations are simple list functions.  Case folding
  is ASCII only.

  An object used as a dictionary is a list of key/value pairs in the order
  \<open>Object.entries\<close> reports: canonical array indices first, ascending, then the
  other keys in insertion order.

  An asynchronous operation is a state transformer over an arbitrary world
  \<open>'w\<close> (the network, the clock, browser storage) that returns an error (the
  rejection) or a value.
\<close>

named_theorems js_simps \<open>unfolding rules for the standard library functions\<close>
named_theorems eff_simps \<open>evaluation rules for the effect combinators\<close>

section \<open>Strings\<close>

fun starts_with :: "string \<Rightarrow> string \<Rightarrow> bool" where
  "starts_with [] s = True"
| "starts_with (p # ps) [] = False"
| "starts_with (p # ps) (c # s) = (p = c \<and> starts_with ps s)"

fun str_includes :: "string \<Rightarrow> string \<Rightarrow> bool" where
  "str_includes p [] = (p = [])"
| "str_includes p (c # s) = (starts_with p (c # s) \<or> str_includes p s)"

fun split_on :: "char \<Rightarrow> string \<Rightarrow> string list" where
  "split_on d [] = [[]]"
| "split_on d (c # s) =
     (if c = d then [] # split_on d s
      else (case split_on d s of [] \<Rightarrow> [[c]] | l # ls \<Rightarrow> (c # l) # ls))"

fun join :: "string \<Rightarrow> string list \<Rightarrow> string" where
  "join sep [] = []"
| "join sep [x] = x"
| "join sep (x # y # ys) = x @ sep @ join sep (y # ys)"

definition to_lower_char :: "char \<Rightarrow> char" where
  "to_lower_char c =
     (let n = (of_char c :: nat) in if 65 \<le> n \<and> n \<le> 90 then char_of (n + 32) else c)"

definition to_lower :: "string \<Rightarrow> string" where
  "to_lower s = map to_lower_char s"

fun replace_all :: "string \<Rightarrow> string \<Rightarrow> string \<Rightarrow> string" where
  "replace_all pat rep [] = []"
| "replace_all pat rep (c # s) =
     (if pat \<noteq> [] \<and> starts_with pat (c # s)
      then rep @ replace_all pat rep (drop (length pat - 1) s)
      else c # replace_all pat rep s)"

definition is_digit :: "char \<Rightarrow> bool" where
  "is_digit c = (let n = (of_char c :: nat) in 48 \<le> n \<and> n \<le> 57)"

definition is_alpha :: "char \<Rightarrow> bool" where
  "is_alpha c = (let n = (of_char c :: nat) in (65 \<le> n \<and> n \<le> 90) \<or> (97 \<le> n \<and> n \<le> 122))"

definition digit_val :: "char \<Rightarrow> nat" where
  "digit_val c = (of_char c :: nat) - 48"

definition digit_char :: "nat \<Rightarrow> char" where
  "digit_char n = char_of (n + 48)"

text \<open>\<open>String(n)\<close> for an integral number: the decimal digits, with a sign.\<close>

fun nat_str :: "nat \<Rightarrow> string" where
  "nat_str n = (if n < 10 then [digit_char n] else nat_str (n div 10) @ [digit_char (n mod 10)])"

declare nat_str.simps [simp del]

definition int_str :: "int \<Rightarrow> string" where
  "int_str i = (if i < 0 then CHR ''-'' # nat_str (nat (- i)) else nat_str (nat i))"

definition digits_val :: "nat \<Rightarrow> string \<Rightarrow> nat" where
  "digits_val acc s = foldl (\<lambda>n c. 10 * n + digit_val c) acc s"

text \<open>The ASCII white space \<open>trim\<close> removes.\<close>

definition is_js_space :: "char \<Rightarrow> bool" where
  "is_js_space c \<longleftrightarrow> c \<in> {CHR '' '', CHR 0x09, CHR 0x0A, CHR 0x0B, CHR 0x0C, CHR 0x0D}"

definition js_trim :: "string \<Rightarrow> string" where
  "js_trim s = rev (dropWhile is_js_space (rev (dropWhile is_js_space s)))"

text \<open>
  \<open>length\<close> counts UTF-16 code units: one for every byte that starts a character, and a
  second one for the characters of four bytes.
\<close>

definition js_length :: "string \<Rightarrow> nat" where
  "js_length s =
     length (filter (\<lambda>c. of_char c < (128 :: nat) \<or> of_char c \<ge> (192 :: nat)) s) +
     length (filter (\<lambda>c. of_char c \<ge> (240 :: nat)) s)"

text \<open>\<open>indexOf\<close> and \<open>lastIndexOf\<close> of a character, and \<open>lastIndexOf\<close> of a string.\<close>

fun index_of_char :: "char \<Rightarrow> string \<Rightarrow> nat option" where
  "index_of_char c [] = None"
| "index_of_char c (d # s) = (if d = c then Some 0 else map_option Suc (index_of_char c s))"

definition last_index_of_char :: "char \<Rightarrow> string \<Rightarrow> nat option" where
  "last_index_of_char c s = map_option (\<lambda>i. length s - Suc i) (index_of_char c (rev s))"

fun last_index_of :: "string \<Rightarrow> string \<Rightarrow> nat option" where
  "last_index_of p [] = (if p = [] then Some 0 else None)"
| "last_index_of p (c # s) =
     (case last_index_of p s of
        Some i \<Rightarrow> Some (Suc i)
      | None \<Rightarrow> if starts_with p (c # s) then Some 0 else None)"

text \<open>\<open>sort\<close> with a comparison is stable; \<open>le a b\<close> is \<open>compare(a, b) <= 0\<close>.\<close>

fun insert_by :: "('a \<Rightarrow> 'a \<Rightarrow> bool) \<Rightarrow> 'a \<Rightarrow> 'a list \<Rightarrow> 'a list" where
  "insert_by le x [] = [x]"
| "insert_by le x (y # ys) = (if le x y then x # y # ys else y # insert_by le x ys)"

definition sort_by :: "('a \<Rightarrow> 'a \<Rightarrow> bool) \<Rightarrow> 'a list \<Rightarrow> 'a list" where
  "sort_by le xs = foldr (insert_by le) xs []"

section \<open>Objects used as dictionaries\<close>

type_synonym 'v obj = "(string \<times> 'v) list"

definition is_index_key :: "string \<Rightarrow> bool" where
  "is_index_key k \<longleftrightarrow>
     k \<noteq> [] \<and> list_all is_digit k \<and> (k = ''0'' \<or> hd k \<noteq> CHR ''0'') \<and>
     digits_val 0 k < 4294967295"

definition key_before :: "string \<Rightarrow> string \<Rightarrow> bool" where
  "key_before k l \<longleftrightarrow>
     is_index_key k \<and> (\<not> is_index_key l \<or> digits_val 0 k < digits_val 0 l)"

fun obj_set :: "'v obj \<Rightarrow> string \<Rightarrow> 'v \<Rightarrow> 'v obj" where
  "obj_set [] k v = [(k, v)]"
| "obj_set ((l, u) # ob) k v =
     (if l = k then (k, v) # ob
      else if key_before k l then (k, v) # (l, u) # ob
      else (l, u) # obj_set ob k v)"

definition obj_get :: "'v obj \<Rightarrow> string \<Rightarrow> 'v option" where
  "obj_get ob k = map_of ob k"

definition obj_keys :: "'v obj \<Rightarrow> string list" where
  "obj_keys ob = map fst ob"

text \<open>\<open>{ ...a, ...b }\<close>: the entries of \<open>b\<close> are stored into a copy of \<open>a\<close>, in order.\<close>

definition obj_spread :: "'v obj \<Rightarrow> 'v obj \<Rightarrow> 'v obj" where
  "obj_spread a b = foldl (\<lambda>ob kv. obj_set ob (fst kv) (snd kv)) a b"

text \<open>The representation invariant of a dictionary: distinct keys in enumeration order.\<close>

fun obj_ok :: "'v obj \<Rightarrow> bool" where
  "obj_ok [] = True"
| "obj_ok ((k, v) # ob) =
     (k \<notin> set (map fst ob) \<and> list_all (\<lambda>l. \<not> key_before l k) (map fst ob) \<and> obj_ok ob)"

section \<open>Effects\<close>

type_synonym ('w, 'e, 'a) eff = "'w \<Rightarrow> ('e + 'a) \<times> 'w"

definition eff_return :: "'a \<Rightarrow> ('w, 'e, 'a) eff" where
  "eff_return x = (\<lambda>w. (Inr x, w))"

definition eff_throw :: "'e \<Rightarrow> ('w, 'e, 'a) eff" where
  "eff_throw e = (\<lambda>w. (Inl e, w))"

definition eff_bind :: "('w, 'e, 'a) eff \<Rightarrow> ('a \<Rightarrow> ('w, 'e, 'b) eff) \<Rightarrow> ('w, 'e, 'b) eff" where
  "eff_bind m f = (\<lambda>w. case m w of (Inl e, w') \<Rightarrow> (Inl e, w') | (Inr x, w') \<Rightarrow> f x w')"

definition eff_catch :: "('w, 'e, 'a) eff \<Rightarrow> ('e \<Rightarrow> ('w, 'e, 'a) eff) \<Rightarrow> ('w, 'e, 'a) eff" where
  "eff_catch m h = (\<lambda>w. case m w of (Inl e, w') \<Rightarrow> h e w' | (Inr x, w') \<Rightarrow> (Inr x, w'))"

definition eff_lift :: "('e + 'a) \<Rightarrow> ('w, 'e, 'a) eff" where
  "eff_lift r = (\<lambda>w. (r, w))"

section \<open>Lemmas on strings\<close>

lemma starts_with_append [simp]: "starts_with p (p @ s)"
  by (induction p) auto

lemma starts_with_iff: "starts_with p s \<longleftrightarrow> (\<exists>t. s = p @ t)"
  by (induction p s rule: starts_with.induct) auto

lemma starts_with_drop: "starts_with p s \<Longrightarrow> s = p @ drop (length p) s"
  by (auto simp: starts_with_iff)

lemma includes_iff: "str_includes p s \<longleftrightarrow> (\<exists>a b. s = a @ p @ b)"
proof (induction s)
  case Nil
  then show ?case by auto
next
  case (Cons c s)
  show ?case
  proof
    assume "str_includes p (c # s)"
    then consider "starts_with p (c # s)" | "str_includes p s" by auto
    then show "\<exists>a b. c # s = a @ p @ b"
    proof cases
      case 1
      then obtain t where "c # s = p @ t" by (auto simp: starts_with_iff)
      then have "c # s = [] @ p @ t" by simp
      then show ?thesis by blast
    next
      case 2
      with Cons obtain a b where "s = a @ p @ b" by blast
      then have "c # s = (c # a) @ p @ b" by simp
      then show ?thesis by blast
    qed
  next
    assume "\<exists>a b. c # s = a @ p @ b"
    then obtain a b where ab: "c # s = a @ p @ b" by blast
    show "str_includes p (c # s)"
    proof (cases a)
      case Nil
      with ab have "starts_with p (c # s)" unfolding starts_with_iff by auto
      then show ?thesis by simp
    next
      case a: (Cons x xs)
      with ab have "s = xs @ p @ b" by simp
      with Cons.IH have "str_includes p s" by blast
      then show ?thesis by simp
    qed
  qed
qed

lemma split_on_nonempty [simp]: "split_on d s \<noteq> []"
  by (induction s) (auto split: list.splits)

lemma split_on_no_delim: "l \<in> set (split_on d s) \<Longrightarrow> d \<notin> set l"
  by (induction s arbitrary: l) (auto split: list.splits if_splits)

lemma split_on_join: "join [d] (split_on d s) = s"
proof (induction s)
  case Nil
  then show ?case by simp
next
  case (Cons c s)
  obtain l ls where sp: "split_on d s = l # ls" by (cases "split_on d s") auto
  show ?case
  proof (cases ls)
    case Nil
    with Cons sp show ?thesis by auto
  next
    case (Cons m ms)
    with Cons.IH sp show ?thesis by auto
  qed
qed

lemma split_on_fresh: "d \<notin> set s \<Longrightarrow> split_on d s = [s]"
  by (induction s) auto

lemma split_on_append:
  "split_on d (a @ b) = butlast (split_on d a) @ (last (split_on d a) @ hd (split_on d b)) # tl (split_on d b)"
proof (induction a)
  case Nil
  then show ?case by simp
next
  case (Cons c a)
  obtain l ls where sp: "split_on d a = l # ls" by (cases "split_on d a") auto
  show ?case
  proof (cases "c = d")
    case True
    then show ?thesis using Cons by simp
  next
    case False
    with Cons sp show ?thesis by (cases ls) auto
  qed
qed

lemma split_on_delim: "split_on d (a @ d # b) = split_on d a @ split_on d b"
  by (simp add: split_on_append append_butlast_last_id)

lemma split_on_join_parts:
  "xs \<noteq> [] \<Longrightarrow> list_all (\<lambda>x. d \<notin> set x) xs \<Longrightarrow> split_on d (join [d] xs) = xs"
  by (induction "[d]" xs rule: join.induct) (auto simp: split_on_fresh split_on_delim)

lemma join_Cons: "xs \<noteq> [] \<Longrightarrow> join sep (x # xs) = x @ sep @ join sep xs"
  by (cases xs) auto

lemma length_join_mem: "x \<in> set xs \<Longrightarrow> length x \<le> length (join sep xs)"
  by (induction sep xs rule: join.induct) auto

lemma digit_char_is_digit: "n < 10 \<Longrightarrow> is_digit (digit_char n)"
  by (simp add: is_digit_def digit_char_def Let_def)

lemma digit_val_char: "n < 10 \<Longrightarrow> digit_val (digit_char n) = n"
  by (simp add: digit_val_def digit_char_def)

lemma digit_chars:
  "digit_char 0 = CHR ''0''" "digit_char (Suc 0) = CHR ''1''" "digit_char 1 = CHR ''1''" "digit_char 2 = CHR ''2''"
  "digit_char 3 = CHR ''3''" "digit_char 4 = CHR ''4''" "digit_char 5 = CHR ''5''" "digit_char 6 = CHR ''6''"
  "digit_char 7 = CHR ''7''" "digit_char 8 = CHR ''8''" "digit_char 9 = CHR ''9''"
  by code_simp+

lemma nat_str_digits: "list_all is_digit (nat_str n)"
proof (induction n rule: nat_str.induct)
  case (1 n)
  show ?case
    using 1 by (subst nat_str.simps) (auto simp: digit_char_is_digit)
qed

lemma nat_str_nonempty [simp]: "nat_str n \<noteq> []"
  by (subst nat_str.simps) simp

lemma digits_val_append: "digits_val acc (a @ b) = digits_val (digits_val acc a) b"
  by (simp add: digits_val_def)

lemma digits_val_nat_str: "digits_val 0 (nat_str n) = n"
proof (induction n rule: nat_str.induct)
  case (1 n)
  show ?case
  proof (cases "n < 10")
    case True
    then show ?thesis
      by (subst nat_str.simps) (simp add: digits_val_def digit_val_char)
  next
    case False
    with 1 have "digits_val 0 (nat_str (n div 10)) = n div 10" by simp
    with False show ?thesis
      by (subst nat_str.simps)
        (simp add: digits_val_append, simp add: digits_val_def digit_val_char)
  qed
qed

lemma nat_str_inject [simp]: "nat_str m = nat_str n \<longleftrightarrow> m = n"
  by (metis digits_val_nat_str)

lemma hd_nat_str_zero: "0 < n \<Longrightarrow> hd (nat_str n) \<noteq> CHR ''0''"
proof (induction n rule: nat_str.induct)
  case (1 n)
  show ?case
  proof (cases "n < 10")
    case True
    have "digit_val CHR ''0'' = 0" by (simp add: digit_val_def)
    moreover have "digit_val (digit_char n) = n" using True by (rule digit_val_char)
    ultimately have "digit_char n \<noteq> CHR ''0''" using 1 by auto
    with True show ?thesis
      by (subst nat_str.simps) auto
  next
    case False
    with 1 show ?thesis by (subst nat_str.simps) auto
  qed
qed

lemma cut_unique:
  "c \<notin> set xs \<Longrightarrow> c \<notin> set ys \<Longrightarrow> xs @ c # s = ys @ c # t \<longleftrightarrow> xs = ys \<and> s = t"
proof (induction xs arbitrary: ys)
  case Nil
  then show ?case by (cases ys) auto
next
  case (Cons x xs)
  then show ?case by (cases ys) auto
qed

lemma index_of_char_fresh: "c \<notin> set a \<Longrightarrow> index_of_char c (a @ c # b) = Some (length a)"
  by (induction a) auto

lemma index_of_char_Some:
  "index_of_char c s = Some i \<Longrightarrow> i < length s \<and> s = take i s @ c # drop (Suc i) s \<and> c \<notin> set (take i s)"
proof (induction s arbitrary: i)
  case (Cons d s)
  show ?case
  proof (cases "d = c")
    case False
    then obtain k where k: "i = Suc k" "index_of_char c s = Some k" using Cons.prems by auto
    then show ?thesis using Cons.IH [OF k(2)] False by auto
  qed (use Cons.prems in auto)
qed simp

lemma last_index_of_char_fresh: "c \<notin> set b \<Longrightarrow> last_index_of_char c (a @ c # b) = Some (length a)"
  using index_of_char_fresh [of c "rev b" "rev a"] by (simp add: last_index_of_char_def)

lemma last_index_of_char_Some:
  assumes "last_index_of_char c s = Some i"
  shows "s = take i s @ c # drop (Suc i) s \<and> c \<notin> set (drop (Suc i) s)"
proof -
  obtain k where k: "index_of_char c (rev s) = Some k" "i = length s - Suc k"
    using assms by (auto simp: last_index_of_char_def)
  then have r: "k < length s" "rev s = take k (rev s) @ c # drop (Suc k) (rev s)" "c \<notin> set (take k (rev s))"
    using index_of_char_Some [OF k(1)] by auto
  let ?a = "rev (drop (Suc k) (rev s))" and ?b = "rev (take k (rev s))"
  have "s = ?a @ c # ?b"
    using r(2) by (metis append.assoc append_Cons append_Nil rev.simps(2) rev_append rev_rev_ident)
  moreover have "length ?a = i" using k(2) by simp
  moreover have "c \<notin> set ?b" using r(3) by simp
  ultimately show ?thesis by (metis append_eq_conv_conj drop_Suc_Cons drop_drop drop_0 add.commute plus_1_eq_Suc)
qed

lemma last_index_of_Some: "last_index_of p s = Some i \<Longrightarrow> i \<le> length s \<and> starts_with p (drop i s)"
  by (induction p s arbitrary: i rule: last_index_of.induct) (auto split: option.splits if_splits)

section \<open>Lemmas on sorting\<close>

lemma set_insert_by [simp]: "set (insert_by le x xs) = insert x (set xs)"
  by (induction le x xs rule: insert_by.induct) auto

lemma set_sort_by [simp]: "set (sort_by le xs) = set xs"
  unfolding sort_by_def by (induction xs) auto

section \<open>Lemmas on dictionaries\<close>

lemma map_of_obj_set [simp]: "map_of (obj_set ob k v) = (map_of ob)(k \<mapsto> v)"
  by (induction ob k v rule: obj_set.induct) (auto simp: fun_eq_iff)

lemma keys_obj_set [simp]: "fst ` set (obj_set ob k v) = insert k (fst ` set ob)"
  by (induction ob k v rule: obj_set.induct) auto

lemma key_before_irrefl [simp]: "\<not> key_before k k"
  by (simp add: key_before_def)

lemma key_before_trans: "key_before a b \<Longrightarrow> key_before b c \<Longrightarrow> key_before a c"
  by (auto simp: key_before_def)

lemma key_before_asym: "key_before a b \<Longrightarrow> \<not> key_before b a"
  by (auto simp: key_before_def)

lemma key_before_not_trans: "key_before k l \<Longrightarrow> \<not> key_before m l \<Longrightarrow> \<not> key_before m k"
  by (auto simp: key_before_def)

lemma obj_set_ok: "obj_ok ob \<Longrightarrow> obj_ok (obj_set ob k v)"
proof (induction ob k v rule: obj_set.induct)
  case (1 k v)
  then show ?case by simp
next
  case (2 l u ob k v)
  show ?case
  proof (cases "l = k")
    case True
    with "2.prems" show ?thesis by simp
  next
    case False
    show ?thesis
    proof (cases "key_before k l")
      case True
      have "k \<notin> set (map fst ob)"
        using "2.prems" True by (auto simp: list_all_iff)
      with "2.prems" True False show ?thesis
        by (auto simp: list_all_iff key_before_asym dest: key_before_not_trans)
    next
      case before: False
      have "obj_ok (obj_set ob k v)" using "2.IH" "2.prems" False before by simp
      with "2.prems" False before show ?thesis
        by (auto simp: list_all_iff)
    qed
  qed
qed

lemma obj_spread_ok: "obj_ok a \<Longrightarrow> obj_ok (obj_spread a b)"
  by (induction b arbitrary: a) (auto simp: obj_spread_def obj_set_ok)

lemma obj_spread_Nil [simp]: "obj_spread a [] = a"
  by (simp add: obj_spread_def)

lemma obj_spread_Cons [simp]: "obj_spread a (kv # b) = obj_spread (obj_set a (fst kv) (snd kv)) b"
  by (simp add: obj_spread_def)

lemma map_of_obj_spread: "distinct (map fst b) \<Longrightarrow> map_of (obj_spread a b) = map_of a ++ map_of b"
proof (induction b arbitrary: a)
  case Nil
  then show ?case by simp
next
  case (Cons kv b)
  obtain k v where kv: "kv = (k, v)" by (cases kv)
  have "map_of b k = None" using Cons.prems kv by (simp add: map_of_eq_None_iff)
  with Cons kv show ?case
    by (auto simp: fun_eq_iff map_add_def split: option.splits)
qed

lemma obj_set_append:
  "k \<notin> fst ` set ob \<Longrightarrow> list_all (\<lambda>l. \<not> key_before k l) (map fst ob) \<Longrightarrow> obj_set ob k v = ob @ [(k, v)]"
  by (induction ob k v rule: obj_set.induct) auto

lemma obj_ok_appendD:
  "obj_ok (a @ (k, v) # b) \<Longrightarrow> k \<notin> fst ` set a \<and> list_all (\<lambda>l. \<not> key_before k l) (map fst a)"
  by (induction a) (force simp: list_all_iff)+

lemma obj_spread_append:
  "obj_ok (a @ b) \<Longrightarrow> obj_spread a b = a @ b"
proof (induction b arbitrary: a)
  case Nil
  then show ?case by simp
next
  case (Cons kv b)
  obtain k v where kv: "kv = (k, v)" by (cases kv)
  have fresh: "k \<notin> fst ` set a \<and> list_all (\<lambda>l. \<not> key_before k l) (map fst a)"
    using Cons.prems unfolding kv by (rule obj_ok_appendD)
  then have "obj_set a k v = a @ [(k, v)]" by (simp add: obj_set_append)
  with Cons kv show ?case by simp
qed

lemma obj_spread_id: "obj_ok b \<Longrightarrow> obj_spread [] b = b"
  using obj_spread_append [of "[]" b] by simp

lemma obj_ok_distinct: "obj_ok ob \<Longrightarrow> distinct (map fst ob)"
  by (induction ob rule: obj_ok.induct) auto

section \<open>Lemmas on effects\<close>

lemma eff_bind_return [eff_simps, simp]: "eff_bind (eff_return x) f = f x"
  by (simp add: eff_bind_def eff_return_def)

lemma eff_bind_throw [eff_simps, simp]: "eff_bind (eff_throw e) f = eff_throw e"
  by (simp add: eff_bind_def eff_throw_def)

lemma eff_bind_assoc: "eff_bind (eff_bind m f) g = eff_bind m (\<lambda>x. eff_bind (f x) g)"
  by (auto simp: eff_bind_def fun_eq_iff split: sum.splits prod.splits)

lemma eff_bind_apply [eff_simps]:
  "eff_bind m f w = (case m w of (Inl e, w') \<Rightarrow> (Inl e, w') | (Inr x, w') \<Rightarrow> f x w')"
  by (simp add: eff_bind_def)

lemma eff_return_apply [eff_simps]: "eff_return x w = (Inr x, w)"
  by (simp add: eff_return_def)

lemma eff_throw_apply [eff_simps]: "eff_throw e w = (Inl e, w)"
  by (simp add: eff_throw_def)

lemma eff_catch_apply [eff_simps]:
  "eff_catch m h w = (case m w of (Inl e, w') \<Rightarrow> h e w' | (Inr x, w') \<Rightarrow> (Inr x, w'))"
  by (simp add: eff_catch_def)

lemma eff_lift_apply [eff_simps]: "eff_lift r w = (r, w)"
  by (simp add: eff_lift_def)

lemmas eff_defs = eff_bind_def eff_return_def eff_throw_def eff_catch_def eff_lift_def

end
