(* ===== verification/JsJson.thy ===== *)
theory JsJson
  imports JsBase
begin

text \<open>
  JSON values, \<open>JSON.stringify\<close> and \<open>JSON.parse\<close>, the truth value and the string
  conversion of a value: what the API client, the stream readers, the browser
  storage and the audit view use of the JavaScript standard library.

  A number is an exact decimal: \<open>JNum i\<close> is the integer \<open>i\<close> and \<open>JFrac m e\<close> is
  \<open>m / 10\<^sup>e\<close> with \<open>e > 0\<close> and \<open>m\<close> not divisible by ten.  The rounding of numbers
  outside the 53-bit range to the nearest double is not modelled.

  The parser follows the grammar with a fuel argument that bounds the number of
  calls; \<open>parse_json\<close> gives it enough for every input, and \<open>parse_stringify\<close>
  shows that a printed value is read back.
\<close>

datatype json =
    JUndefined
  | JNull
  | JBool bool
  | JNum int
  | JFrac int nat
  | JStr string
  | JArr "json list"
  | JObj "(string \<times> json) list"

section \<open>Truth value, property access and string conversion\<close>

fun truthy :: "json \<Rightarrow> bool" where
  "truthy JUndefined = False"
| "truthy JNull = False"
| "truthy (JBool b) = b"
| "truthy (JNum i) = (i \<noteq> 0)"
| "truthy (JFrac m e) = True"
| "truthy (JStr s) = (s \<noteq> [])"
| "truthy (JArr xs) = True"
| "truthy (JObj kvs) = True"

text \<open>Optional arguments: \<open>if (x)\<close> on an absent or falsy string or number.\<close>

definition given :: "string option \<Rightarrow> bool" where
  "given x = (case x of None \<Rightarrow> False | Some s \<Rightarrow> s \<noteq> [])"

definition given_num :: "int option \<Rightarrow> bool" where
  "given_num x = (case x of None \<Rightarrow> False | Some n \<Rightarrow> n \<noteq> 0)"

text \<open>\<open>x || ''\<close> on an optional string.\<close>

definition str_or :: "string option \<Rightarrow> string \<Rightarrow> string" where
  "str_or x d = (case x of None \<Rightarrow> d | Some s \<Rightarrow> if s = [] then d else s)"

definition js_nullish :: "json \<Rightarrow> bool" where
  "js_nullish v \<longleftrightarrow> v = JUndefined \<or> v = JNull"

text \<open>Reading a property: a \<open>TypeError\<close> (\<open>None\<close>) on \<open>null\<close> and \<open>undefined\<close>.\<close>

definition js_prop :: "json \<Rightarrow> string \<Rightarrow> json option" where
  "js_prop v k =
     (case v of
        JUndefined \<Rightarrow> None
      | JNull \<Rightarrow> None
      | JObj kvs \<Rightarrow> Some (case map_of kvs k of None \<Rightarrow> JUndefined | Some u \<Rightarrow> u)
      | _ \<Rightarrow> Some JUndefined)"

text \<open>\<open>v?.k\<close>\<close>

definition js_opt_prop :: "json \<Rightarrow> string \<Rightarrow> json" where
  "js_opt_prop v k = (case js_prop v k of None \<Rightarrow> JUndefined | Some u \<Rightarrow> u)"

definition frac_str :: "int \<Rightarrow> nat \<Rightarrow> string" where
  "frac_str m e =
     (let ds = nat_str (nat \<bar>m\<bar>);
          padded = replicate (Suc e - length ds) CHR ''0'' @ ds;
          n = length padded - e
      in (if m < 0 then ''-'' else []) @ take n padded @ ''.'' @ drop n padded)"

lemma json_list_size [termination_simp]: "x \<in> set xs \<Longrightarrow> size x < Suc (size_list size xs)"
  by (induction xs) auto

lemma json_field_size [termination_simp]:
  "(k, x) \<in> set kvs \<Longrightarrow> size x < Suc (size_list (size_prod (\<lambda>_. 0) size) kvs)"
  by (induction kvs) auto

text \<open>\<open>String(v)\<close>, the conversion template literals and \<open>Array.prototype.join\<close> apply.\<close>

fun js_string :: "json \<Rightarrow> string" where
  "js_string JUndefined = ''undefined''"
| "js_string JNull = ''null''"
| "js_string (JBool b) = (if b then ''true'' else ''false'')"
| "js_string (JNum i) = int_str i"
| "js_string (JFrac m e) = frac_str m e"
| "js_string (JStr s) = s"
| "js_string (JArr xs) =
     join '','' (map (\<lambda>x. if x = JUndefined \<or> x = JNull then [] else js_string x) xs)"
| "js_string (JObj kvs) = ''[object Object]''"

section \<open>Printing\<close>

definition hex_digit :: "nat \<Rightarrow> char" where
  "hex_digit n = (if n < 10 then char_of (n + 48) else char_of (n + 87))"

definition escape_char :: "char \<Rightarrow> string" where
  "escape_char c =
     (let n = (of_char c :: nat) in
      if n = 34 then [CHR 0x5C, CHR 0x22]
      else if n = 92 then [CHR 0x5C, CHR 0x5C]
      else if n = 8 then [CHR 0x5C, CHR ''b'']
      else if n = 12 then [CHR 0x5C, CHR ''f'']
      else if n = 10 then [CHR 0x5C, CHR ''n'']
      else if n = 13 then [CHR 0x5C, CHR ''r'']
      else if n = 9 then [CHR 0x5C, CHR ''t'']
      else if n < 32 then [CHR 0x5C, CHR ''u'', CHR ''0'', CHR ''0'', hex_digit (n div 16), hex_digit (n mod 16)]
      else [c])"

definition quote_json :: "string \<Rightarrow> string" where
  "quote_json s = CHR 0x22 # concat (map escape_char s) @ [CHR 0x22]"

fun stringify :: "json \<Rightarrow> string" where
  "stringify JUndefined = ''null''"
| "stringify JNull = ''null''"
| "stringify (JBool b) = (if b then ''true'' else ''false'')"
| "stringify (JNum i) = int_str i"
| "stringify (JFrac m e) = frac_str m e"
| "stringify (JStr s) = quote_json s"
| "stringify (JArr xs) = ''['' @ join '','' (map stringify xs) @ '']''"
| "stringify (JObj kvs) =
     ''{'' @ join '',''
       (map (\<lambda>(k, v). quote_json k @ '':'' @ stringify v) (filter (\<lambda>(k, v). v \<noteq> JUndefined) kvs)) @ ''}''"

text \<open>\<open>JSON.stringify(undefined)\<close> is \<open>undefined\<close>; inside an array it prints as \<open>null\<close>.\<close>

definition json_stringify :: "json \<Rightarrow> string option" where
  "json_stringify v = (if v = JUndefined then None else Some (stringify v))"

section \<open>Parsing\<close>

definition is_ws :: "char \<Rightarrow> bool" where
  "is_ws c = (let n = (of_char c :: nat) in n = 32 \<or> n = 9 \<or> n = 10 \<or> n = 13)"

definition skip_ws :: "string \<Rightarrow> string" where
  "skip_ws s = dropWhile is_ws s"

definition hex_val :: "char \<Rightarrow> nat option" where
  "hex_val c =
     (let n = (of_char c :: nat) in
      if 48 \<le> n \<and> n \<le> 57 then Some (n - 48)
      else if 97 \<le> n \<and> n \<le> 102 then Some (n - 87)
      else if 65 \<le> n \<and> n \<le> 70 then Some (n - 55)
      else None)"

definition hex4 :: "char \<Rightarrow> char \<Rightarrow> char \<Rightarrow> char \<Rightarrow> nat option" where
  "hex4 a b c d =
     (case (hex_val a, hex_val b, hex_val c, hex_val d) of
        (Some w, Some x, Some y, Some z) \<Rightarrow> Some (((w * 16 + x) * 16 + y) * 16 + z)
      | _ \<Rightarrow> None)"

text \<open>A string body is read as bytes and \<open>\\u\<close> code units; surrogate pairs are joined after.\<close>

datatype str_unit = Byte char | CodeUnit nat

definition simple_escape :: "char \<Rightarrow> char option" where
  "simple_escape e =
     (if e = CHR 0x22 \<or> e = CHR 0x5C \<or> e = CHR ''/'' then Some e
      else if e = CHR ''b'' then Some (CHR 0x08)
      else if e = CHR ''f'' then Some (CHR 0x0C)
      else if e = CHR ''n'' then Some (CHR 0x0A)
      else if e = CHR ''r'' then Some (CHR 0x0D)
      else if e = CHR ''t'' then Some (CHR 0x09)
      else None)"

definition parse_escape :: "string \<Rightarrow> (str_unit \<times> string) option" where
  "parse_escape s =
     (case s of
        [] \<Rightarrow> None
      | e # t \<Rightarrow>
          if e = CHR ''u'' then
            (case t of
               a # b # c # d # t' \<Rightarrow> map_option (\<lambda>u. (CodeUnit u, t')) (hex4 a b c d)
             | _ \<Rightarrow> None)
          else map_option (\<lambda>x. (Byte x, t)) (simple_escape e))"

lemma parse_escape_length [termination_simp]: "parse_escape s = Some (u, r) \<Longrightarrow> length r < length s"
  by (auto simp: parse_escape_def split: list.splits if_splits)

fun parse_units :: "string \<Rightarrow> (str_unit list \<times> string) option" where
  "parse_units [] = None"
| "parse_units (c # s) =
     (if c = CHR 0x22 then Some ([], s)
      else if (of_char c :: nat) < 32 then None
      else if c = CHR 0x5C then
        (case parse_escape s of
           None \<Rightarrow> None
         | Some (u, t) \<Rightarrow> map_option (\<lambda>(us, r). (u # us, r)) (parse_units t))
      else map_option (\<lambda>(us, r). (Byte c # us, r)) (parse_units s))"

definition utf8 :: "nat \<Rightarrow> string" where
  "utf8 n =
     (if n < 128 then [char_of n]
      else if n < 2048 then [char_of (192 + n div 64), char_of (128 + n mod 64)]
      else if n < 65536 then
        [char_of (224 + n div 4096), char_of (128 + (n div 64) mod 64), char_of (128 + n mod 64)]
      else
        [char_of (240 + n div 262144), char_of (128 + (n div 4096) mod 64),
         char_of (128 + (n div 64) mod 64), char_of (128 + n mod 64)])"

text \<open>A lone surrogate has no UTF-8 encoding; it is sent as U+FFFD.\<close>

definition utf8_unit :: "nat \<Rightarrow> string" where
  "utf8_unit u = (if 55296 \<le> u \<and> u < 57344 then utf8 65533 else utf8 u)"

fun units_str :: "str_unit list \<Rightarrow> string" where
  "units_str [] = []"
| "units_str (Byte c # us) = c # units_str us"
| "units_str (CodeUnit u # CodeUnit v # us) =
     (if 55296 \<le> u \<and> u < 56320 \<and> 56320 \<le> v \<and> v < 57344
      then utf8 (65536 + (u - 55296) * 1024 + (v - 56320)) @ units_str us
      else utf8_unit u @ units_str (CodeUnit v # us))"
| "units_str (CodeUnit u # us) = utf8_unit u @ units_str us"

definition parse_string :: "string \<Rightarrow> (string \<times> string) option" where
  "parse_string s = map_option (\<lambda>(us, r). (units_str us, r)) (parse_units s)"

definition take_digits :: "string \<Rightarrow> string \<times> string" where
  "take_digits s = (takeWhile is_digit s, dropWhile is_digit s)"

fun norm_frac :: "int \<Rightarrow> nat \<Rightarrow> json" where
  "norm_frac m 0 = JNum m"
| "norm_frac m (Suc e) = (if m mod 10 = 0 then norm_frac (m div 10) e else JFrac m (Suc e))"

definition scale :: "int \<Rightarrow> int \<Rightarrow> json" where
  "scale m x = (if x \<ge> 0 then JNum (m * 10 ^ nat x) else norm_frac m (nat (- x)))"

definition parse_exp :: "string \<Rightarrow> (int \<times> string) option" where
  "parse_exp s =
     (case s of
        c # t \<Rightarrow>
          if c = CHR ''e'' \<or> c = CHR ''E'' then
            (let (neg, t') = (case t of
                                d # u \<Rightarrow> if d = CHR ''-'' then (True, u) else if d = CHR ''+'' then (False, u) else (False, t)
                              | [] \<Rightarrow> (False, t));
                 (ds, r) = take_digits t'
             in if ds = [] then None
                else Some ((if neg then - int (digits_val 0 ds) else int (digits_val 0 ds)), r))
          else Some (0, s)
      | [] \<Rightarrow> Some (0, s))"

definition parse_number :: "string \<Rightarrow> (json \<times> string) option" where
  "parse_number s =
     (let (neg, t) = (case s of c # u \<Rightarrow> if c = CHR ''-'' then (True, u) else (False, s) | [] \<Rightarrow> (False, s));
          (ds, r) = take_digits t
      in if ds = [] \<or> (hd ds = CHR ''0'' \<and> length ds > 1) then None
         else
           (case (case r of
                    c # u \<Rightarrow> if c = CHR ''.'' then
                                (let (fs, r') = take_digits u in if fs = [] then None else Some (fs, r'))
                              else Some ([], r)
                  | [] \<Rightarrow> Some ([], r)) of
              None \<Rightarrow> None
            | Some (fs, r') \<Rightarrow>
                (case parse_exp r' of
                   None \<Rightarrow> None
                 | Some (x, r'') \<Rightarrow>
                     let m = int (digits_val 0 (ds @ fs))
                     in Some (scale (if neg then - m else m) (x - int (length fs)), r''))))"

fun parse_value :: "nat \<Rightarrow> string \<Rightarrow> (json \<times> string) option"
  and parse_elems :: "nat \<Rightarrow> string \<Rightarrow> (json list \<times> string) option"
  and parse_members :: "nat \<Rightarrow> (string \<times> json) list \<Rightarrow> string \<Rightarrow> ((string \<times> json) list \<times> string) option"
where
  "parse_value 0 s = None"
| "parse_value (Suc n) s =
     (let s' = skip_ws s in
      if starts_with ''null'' s' then Some (JNull, drop 4 s')
      else if starts_with ''true'' s' then Some (JBool True, drop 4 s')
      else if starts_with ''false'' s' then Some (JBool False, drop 5 s')
      else (case s' of
          [] \<Rightarrow> None
        | c # t \<Rightarrow>
            if c = CHR 0x22 then map_option (\<lambda>(x, r). (JStr x, r)) (parse_string t)
            else if c = CHR ''['' then
              (let t' = skip_ws t in
               if starts_with '']'' t' then Some (JArr [], drop 1 t')
               else map_option (\<lambda>(xs, r). (JArr xs, r)) (parse_elems n t'))
            else if c = CHR ''{'' then
              (let t' = skip_ws t in
               if starts_with ''}'' t' then Some (JObj [], drop 1 t')
               else map_option (\<lambda>(kvs, r). (JObj kvs, r)) (parse_members n [] t'))
            else parse_number s'))"
| "parse_elems 0 s = None"
| "parse_elems (Suc n) s =
     (case parse_value n s of
        None \<Rightarrow> None
      | Some (x, r) \<Rightarrow>
          (case skip_ws r of
             [] \<Rightarrow> None
           | c # t \<Rightarrow>
               if c = CHR '']'' then Some ([x], t)
               else if c = CHR '','' then map_option (\<lambda>(xs, r'). (x # xs, r')) (parse_elems n t)
               else None))"
| "parse_members 0 acc s = None"
| "parse_members (Suc n) acc s =
     (case skip_ws s of
        [] \<Rightarrow> None
      | q # t \<Rightarrow>
          if q \<noteq> CHR 0x22 then None
          else (case parse_string t of
              None \<Rightarrow> None
            | Some (k, r) \<Rightarrow>
                (case skip_ws r of
                   [] \<Rightarrow> None
                 | c # u \<Rightarrow>
                     if c \<noteq> CHR '':'' then None
                     else (case parse_value n u of
                         None \<Rightarrow> None
                       | Some (v, r') \<Rightarrow>
                           (case skip_ws r' of
                              [] \<Rightarrow> None
                            | d # u' \<Rightarrow>
                                if d = CHR ''}'' then Some (obj_set acc k v, u')
                                else if d = CHR '','' then parse_members n (obj_set acc k v) u'
                                else None)))))"

text \<open>\<open>JSON.parse\<close>: \<open>None\<close> is the \<open>SyntaxError\<close>.\<close>

definition parse_json :: "string \<Rightarrow> json option" where
  "parse_json s =
     (case parse_value (2 * length s + 2) s of
        None \<Rightarrow> None
      | Some (v, r) \<Rightarrow> if skip_ws r = [] then Some v else None)"

section \<open>Well-formed values and the round trip\<close>

text \<open>
  The values \<open>JSON.parse\<close> can return: no \<open>undefined\<close>, objects with distinct keys
  in enumeration order, fractions in lowest decimal form.
\<close>

fun json_ok :: "json \<Rightarrow> bool" where
  "json_ok JUndefined = False"
| "json_ok JNull = True"
| "json_ok (JBool b) = True"
| "json_ok (JNum i) = True"
| "json_ok (JFrac m e) = (e > 0 \<and> m mod 10 \<noteq> 0)"
| "json_ok (JStr s) = True"
| "json_ok (JArr xs) = list_all json_ok xs"
| "json_ok (JObj kvs) = (obj_ok kvs \<and> list_all (\<lambda>(k, v). json_ok v) kvs)"

definition num_end :: "string \<Rightarrow> bool" where
  "num_end r \<longleftrightarrow> (case r of [] \<Rightarrow> True
     | c # _ \<Rightarrow> \<not> is_digit c \<and> c \<noteq> CHR ''.'' \<and> c \<noteq> CHR ''e'' \<and> c \<noteq> CHR ''E'')"

subsection \<open>Reading back what was printed: Strings\<close>

lemma hex_val_digit: "n < 16 \<Longrightarrow> hex_val (hex_digit n) = Some n"
  by (simp add: hex_val_def hex_digit_def Let_def)

lemma hex4_control: "n < 32 \<Longrightarrow> hex4 (CHR ''0'') (CHR ''0'') (hex_digit (n div 16)) (hex_digit (n mod 16)) = Some n"
proof -
  assume "n < 32"
  then have "n div 16 < 16" "n mod 16 < 16" by auto
  moreover have "hex_val (CHR ''0'') = Some 0" by (simp add: hex_val_def)
  ultimately show ?thesis by (simp add: hex4_def hex_val_digit)
qed

lemma utf8_unit_byte: "utf8_unit n = [char_of n]" if "n < 128"
  using that by (simp add: utf8_unit_def utf8_def)

lemma char_eq_of_char: "c = d \<longleftrightarrow> (of_char c :: nat) = of_char d"
  by simp

lemma parse_units_escape:
  assumes s: "parse_units s = Some (us, r)"
  shows "\<exists>u. parse_units (escape_char c @ s) = Some (u # us, r) \<and>
    (u = Byte c \<or> (\<exists>n. u = CodeUnit n \<and> n < 32 \<and> c = char_of n))"
proof -
  define n where "n = (of_char c :: nat)"
  have c: "c = char_of n" by (simp add: n_def)
  have eq: "c = d \<longleftrightarrow> n = of_char d" for d by (simp add: n_def)
  note pe = parse_escape_def simple_escape_def
  consider "c = CHR 0x22" | "c = CHR 0x5C" | "c = CHR 0x08" | "c = CHR 0x0C" | "c = CHR 0x0A"
    | "c = CHR 0x0D" | "c = CHR 0x09"
    | "n < 32" "n \<notin> {8, 9, 10, 12, 13}" | "n \<ge> 32" "n \<noteq> 34" "n \<noteq> 92"
    by (force simp: eq)
  then show ?thesis
  proof cases
    case 8
    then have "escape_char c = [CHR 0x5C, CHR ''u'', CHR ''0'', CHR ''0'', hex_digit (n div 16), hex_digit (n mod 16)]"
      by (simp add: escape_char_def flip: n_def)
    with 8 s c show ?thesis by (simp add: hex4_control pe)
  next
    case 9
    then have "escape_char c = [c]" by (simp add: escape_char_def flip: n_def)
    moreover have "c \<noteq> CHR 0x22" "c \<noteq> CHR 0x5C" using 9 by (auto simp: eq)
    ultimately show ?thesis using 9 s by (simp flip: n_def)
  qed (use s in \<open>simp_all add: escape_char_def pe\<close>)
qed

lemma units_str_Cons: 
  "u = Byte c \<or> (\<exists>n. u = CodeUnit n \<and> n < 32 \<and> c = char_of n) \<Longrightarrow> units_str (u # us) = c # units_str us"
proof -
  assume "u = Byte c \<or> (\<exists>n. u = CodeUnit n \<and> n < 32 \<and> c = char_of n)"
  then consider "u = Byte c" | n where "u = CodeUnit n" "n < 32" "c = char_of n" by blast
  then show ?thesis
  proof cases
    case 1
    then show ?thesis by simp
  next
    case 2
    then show ?thesis
      by (cases "(u # us)" rule: units_str.cases) (auto simp: utf8_unit_byte)
  qed
qed

lemma parse_string_quote:
  "parse_string (concat (map escape_char s) @ CHR 0x22 # r) = Some (s, r)"
proof (induction s)
  case Nil
  then show ?case by (simp add: parse_string_def)
next
  case (Cons c s)
  then obtain us where us: "parse_units (concat (map escape_char s) @ CHR 0x22 # r) = Some (us, r)"
    "units_str us = s" by (auto simp: parse_string_def)
  from parse_units_escape [OF us(1), of c] obtain u where
    u: "parse_units (escape_char c @ concat (map escape_char s) @ CHR 0x22 # r) = Some (u # us, r)"
    "u = Byte c \<or> (\<exists>n. u = CodeUnit n \<and> n < 32 \<and> c = char_of n)" by blast
  from units_str_Cons [OF u(2)] us u(1) show ?case by (simp add: parse_string_def)
qed

subsection \<open>Reading back what was printed: Numbers\<close>

lemma take_digits_append:
  "list_all is_digit ds \<Longrightarrow> (case r of [] \<Rightarrow> True | c # _ \<Rightarrow> \<not> is_digit c) \<Longrightarrow> take_digits (ds @ r) = (ds, r)"
  by (auto simp: take_digits_def list_all_iff split: list.splits)

lemma num_end_digit: "num_end r \<Longrightarrow> (case r of [] \<Rightarrow> True | c # _ \<Rightarrow> \<not> is_digit c)"
  by (auto simp: num_end_def split: list.splits)

lemma parse_exp_end: "num_end r \<Longrightarrow> parse_exp r = Some (0, r)"
  by (auto simp: parse_exp_def num_end_def split: list.splits)

lemma minus_not_digit: "\<not> is_digit (CHR ''-'')"
  by (simp add: is_digit_def)

lemma digits_head: "list_all is_digit ds \<Longrightarrow> ds \<noteq> [] \<Longrightarrow> \<exists>c t. ds = c # t \<and> is_digit c \<and> c \<noteq> CHR ''-''"
  by (cases ds) (auto simp: minus_not_digit)

lemma parse_number_int:
  assumes "num_end r"
  shows "parse_number (int_str i @ r) = Some (JNum i, r)"
proof -
  define ds where "ds = nat_str (nat \<bar>i\<bar>)"
  have ds: "list_all is_digit ds" "ds \<noteq> []" by (simp_all add: ds_def nat_str_digits)
  have lead: "\<not> (hd ds = CHR ''0'' \<and> length ds > 1)"
  proof (cases "i = 0")
    case True
    then show ?thesis by (simp add: ds_def nat_str.simps)
  next
    case False
    then show ?thesis using hd_nat_str_zero [of "nat \<bar>i\<bar>"] by (simp add: ds_def)
  qed
  have td: "take_digits (ds @ r) = (ds, r)"
    using ds assms by (intro take_digits_append) (auto dest: num_end_digit)
  have val: "int (digits_val 0 ds) = \<bar>i\<bar>" by (simp add: ds_def digits_val_nat_str)
  have frac: "(case r of c # u \<Rightarrow> if c = CHR ''.'' then
        (let (fs, r') = take_digits u in if fs = [] then None else Some (fs, r')) else Some ([], r)
      | [] \<Rightarrow> Some ([], r)) = Some ([], r)"
    using assms by (auto simp: num_end_def split: list.splits)
  obtain c t where ct: "ds = c # t" "c \<noteq> CHR ''-''" using digits_head [OF ds] by blast
  show ?thesis
  proof (cases "i < 0")
    case True
    then have "int_str i = CHR ''-'' # ds" by (simp add: int_str_def ds_def)
    with td lead frac ds val True parse_exp_end [OF assms] show ?thesis
      by (simp add: parse_number_def scale_def)
  next
    case False
    then have "int_str i = ds" by (simp add: int_str_def ds_def)
    with td lead frac ds val False parse_exp_end [OF assms] ct show ?thesis
      by (simp add: parse_number_def scale_def)
  qed
qed


lemma nat_str_bounds: "0 < m \<Longrightarrow> hd (nat_str m) \<noteq> CHR ''0''"
  by (rule hd_nat_str_zero)

lemma digits_val_zeros: "digits_val 0 (replicate k CHR ''0'' @ ds) = digits_val 0 ds"
proof (induction k)
  case (Suc k)
  have "digit_val (CHR ''0'') = 0" by (simp add: digit_val_def)
  then have "digits_val 0 (CHR ''0'' # xs) = digits_val 0 xs" for xs by (simp add: digits_val_def)
  with Suc show ?case by simp
qed simp

lemma norm_frac_id: "0 < e \<Longrightarrow> m mod 10 \<noteq> 0 \<Longrightarrow> norm_frac m e = JFrac m e"
  by (cases e) auto

lemma parse_number_frac:
  assumes "num_end r" "0 < e" "m mod 10 \<noteq> 0"
  shows "parse_number (frac_str m e @ r) = Some (JFrac m e, r)"
proof -
  define ds where "ds = nat_str (nat \<bar>m\<bar>)"
  define padded where "padded = replicate (Suc e - length ds) CHR ''0'' @ ds"
  define n where "n = length padded - e"
  define ip where "ip = take n padded"
  define fs where "fs = drop n padded"
  have m0: "m \<noteq> 0" using assms(3) by auto
  have zero: "is_digit (CHR ''0'')" by (simp add: is_digit_def)
  have ds: "list_all is_digit ds" "ds \<noteq> []" by (simp_all add: ds_def nat_str_digits)
  have pd: "list_all is_digit padded" using ds zero by (auto simp: padded_def list_all_iff)
  have len: "length padded = max (Suc e) (length ds)" by (auto simp: padded_def)
  have n1: "n \<ge> 1" "n \<le> length padded" using len by (auto simp: n_def)
  have fl: "length fs = e" using len by (simp add: fs_def n_def)
  have ipd: "list_all is_digit ip" "list_all is_digit fs"
    using pd by (auto simp: ip_def fs_def list_all_iff dest: in_set_takeD in_set_dropD)
  have ipn: "ip \<noteq> []" using n1 by (auto simp: ip_def)
  have lead: "\<not> (hd ip = CHR ''0'' \<and> length ip > 1)"
  proof (cases "Suc e \<le> length ds")
    case True
    then have "padded = ds" by (simp add: padded_def)
    moreover have "hd ds \<noteq> CHR ''0''" using hd_nat_str_zero [of "nat \<bar>m\<bar>"] m0 by (simp add: ds_def)
    ultimately show ?thesis using n1 by (simp add: ip_def)
  next
    case False
    then have "n = 1" using len by (simp add: n_def)
    then show ?thesis by (simp add: ip_def)
  qed
  have "ip @ fs = padded" by (simp add: ip_def fs_def)
  then have val: "int (digits_val 0 (ip @ fs)) = \<bar>m\<bar>"
    by (simp add: padded_def digits_val_zeros) (simp add: ds_def digits_val_nat_str)
  have td: "take_digits (ip @ CHR ''.'' # fs @ r) = (ip, CHR ''.'' # fs @ r)"
    using ipd by (intro take_digits_append) (auto simp: is_digit_def)
  have tf: "take_digits (fs @ r) = (fs, r)"
    using ipd assms(1) by (intro take_digits_append) (auto dest: num_end_digit)
  have sc: "scale m (- int e) = JFrac m e"
    using assms by (auto simp: scale_def norm_frac_id)
  obtain c t where ct: "ip = c # t" "c \<noteq> CHR ''-''" using digits_head [OF ipd(1) ipn] by blast
  have str: "frac_str m e = (if m < 0 then ''-'' else []) @ ip @ CHR ''.'' # fs"
    by (simp add: frac_str_def Let_def ip_def fs_def n_def padded_def ds_def)
  have fs0: "fs \<noteq> []" using fl assms(2) by auto
  show ?thesis
  proof (cases "m < 0")
    case True
    with td tf lead ipn val sc fl fs0 parse_exp_end [OF assms(1)] show ?thesis
      by (simp add: parse_number_def str)
  next
    case False
    with td tf lead ipn val sc fl fs0 parse_exp_end [OF assms(1)] ct show ?thesis
      by (simp add: parse_number_def str)
  qed
qed


subsection \<open>Reading back what was printed: Values\<close>

definition follows :: "string \<Rightarrow> bool" where
  "follows r \<longleftrightarrow> (case r of [] \<Rightarrow> True | c # _ \<Rightarrow> c = CHR '','' \<or> c = CHR '']'' \<or> c = CHR ''}'')"

lemma follows_num_end: "follows r \<Longrightarrow> num_end r"
  by (auto simp: follows_def num_end_def is_digit_def split: list.splits)

lemma follows_simps [simp]: "follows []" "follows (CHR '','' # r)" "follows (CHR '']'' # r)" "follows (CHR ''}'' # r)"
  by (simp_all add: follows_def)

text \<open>The first character of a printed number: neither white space nor the start of another value.\<close>

definition num_start :: "string \<Rightarrow> bool" where
  "num_start s \<longleftrightarrow> (case s of [] \<Rightarrow> False | c # _ \<Rightarrow> is_digit c \<or> c = CHR ''-'')"

lemma num_start_int: "num_start (int_str i @ r)"
  using digits_head [OF nat_str_digits nat_str_nonempty] 
  by (auto simp: int_str_def num_start_def split: list.splits) (metis append_Cons list.inject)+

lemma num_start_append: "num_start s \<Longrightarrow> num_start (s @ r)"
  by (auto simp: num_start_def split: list.splits)

lemma take_nonempty_start: "list_all is_digit ds \<Longrightarrow> ds \<noteq> [] \<Longrightarrow> n \<ge> 1 \<Longrightarrow> num_start (take n ds @ r)"
  by (cases ds; cases n) (auto simp: num_start_def)

lemma num_start_frac: "num_start (frac_str m e @ r)"
proof -
  let ?ds = "nat_str (nat \<bar>m\<bar>)"
  let ?p = "replicate (Suc e - length ?ds) CHR ''0'' @ ?ds"
  have "list_all is_digit ?p"
    using nat_str_digits [of "nat \<bar>m\<bar>"] by (auto simp: list_all_iff is_digit_def)
  moreover have "length ?p - e \<ge> 1" by auto
  ultimately have "num_start (take (length ?p - e) ?p @ x)" for x
    by (intro take_nonempty_start) auto
  then have pos: "num_start ([] @ (take (length ?p - e) ?p @ ''.'' @ drop (length ?p - e) ?p) @ r)"
    by (metis append_Nil append_assoc)
  have eq: "frac_str m e = (if m < 0 then ''-'' else []) @ take (length ?p - e) ?p @ ''.'' @ drop (length ?p - e) ?p"
    by (simp only: frac_str_def Let_def)
  show ?thesis
  proof (cases "m < 0")
    case True
    then show ?thesis by (simp add: eq num_start_def)
  next
    case False
    with pos show ?thesis unfolding eq by (simp only: if_False append_assoc)
  qed
qed

lemma is_digit_range: "is_digit c \<Longrightarrow> (of_char c :: nat) \<in> {48..57}"
  by (auto simp: is_digit_def Let_def)

lemma parse_value_number:
  assumes "num_start s"
  shows "parse_value (Suc n) s = parse_number s"
proof -
  obtain c t where s: "s = c # t" "is_digit c \<or> c = CHR ''-''"
    using assms by (auto simp: num_start_def split: list.splits)
  have r: "c \<noteq> d" if "\<not> is_digit d" "d \<noteq> CHR ''-''" for d
    using s(2) that by auto
  have "\<not> is_ws c" using s(2) is_digit_range [of c] by (auto simp: is_ws_def Let_def)
  then have ws: "skip_ws s = s" using s by (simp add: skip_ws_def)
  have "c \<noteq> CHR ''n''" "c \<noteq> CHR ''t''" "c \<noteq> CHR ''f''" "c \<noteq> CHR 0x22" "c \<noteq> CHR ''[''" "c \<noteq> CHR ''{''"
    by (rule r; simp add: is_digit_def)+
  with ws s(1) show ?thesis by simp
qed

lemma stringify_start: "stringify v \<noteq> [] \<and> \<not> is_ws (hd (stringify v)) \<and> hd (stringify v) \<noteq> CHR '']''"
proof -
  have num: "s \<noteq> [] \<and> \<not> is_ws (hd s) \<and> hd s \<noteq> CHR '']''" if "num_start s" for s
    using that is_digit_range [of "hd s"]
    by (auto simp: num_start_def is_ws_def Let_def is_digit_def split: list.splits)
  show ?thesis
    using num [of "int_str i" for i] num_start_int [of _ "[]"] num [of "frac_str m e" for m e] num_start_frac [of _ _ "[]"]
    by (cases v) (auto simp: quote_json_def is_ws_def)
qed

lemma skip_ws_stringify [simp]: "skip_ws (stringify v @ r) = stringify v @ r"
  using stringify_start [of v] by (cases "stringify v") (auto simp: skip_ws_def)

lemma skip_ws_nonws: "\<not> is_ws c \<Longrightarrow> skip_ws (c # s) = c # s"
  by (simp add: skip_ws_def)

lemma ws_simps [simp]:
  "\<not> is_ws (CHR '','')" "\<not> is_ws (CHR '']'')" "\<not> is_ws (CHR ''}'')" "\<not> is_ws (CHR '':'')"
  "\<not> is_ws (CHR 0x22)" "\<not> is_ws (CHR ''['')" "\<not> is_ws (CHR ''{'')"
  by (simp_all add: is_ws_def)

definition reads :: "json \<Rightarrow> bool" where
  "reads v \<longleftrightarrow> (\<forall>n r. 2 * length (stringify v) \<le> n \<longrightarrow> follows r \<longrightarrow>
     parse_value n (stringify v @ r) = Some (v, r))"

lemma parse_elems_join:
  assumes "\<forall>x \<in> set xs. reads x" "xs \<noteq> []"
    "2 * length (join '','' (map stringify xs)) + 1 \<le> n"
  shows "parse_elems n (join '','' (map stringify xs) @ CHR '']'' # r) = Some (xs, r)"
  using assms
proof (induction xs arbitrary: n)
  case Nil
  then show ?case by simp
next
  case (Cons x xs)
  obtain m where n: "n = Suc m" using Cons.prems by (cases n) auto
  have x: "reads x" using Cons.prems by simp
  show ?case
  proof (cases "xs = []")
    case True
    then have "parse_value m (stringify x @ CHR '']'' # r) = Some (x, CHR '']'' # r)"
      using x Cons.prems n unfolding reads_def by auto
    with True n show ?thesis by (simp add: skip_ws_nonws)
  next
    case False
    let ?j = "join '','' (map stringify xs)"
    have j: "join '','' (map stringify (x # xs)) = stringify x @ CHR '','' # ?j"
      using False by (simp add: join_Cons)
    have len: "2 * length (stringify x) \<le> m" "2 * length ?j + 1 \<le> m"
      using Cons.prems(3) n unfolding j by auto
    have "parse_value m (stringify x @ CHR '','' # ?j @ CHR '']'' # r) = Some (x, CHR '','' # ?j @ CHR '']'' # r)"
      using x len(1) unfolding reads_def by simp
    moreover have "parse_elems m (?j @ CHR '']'' # r) = Some (xs, r)"
      using Cons.IH Cons.prems(1) False len(2) by simp
    ultimately show ?thesis
      unfolding j n by (simp add: skip_ws_nonws)
  qed
qed

definition field_str :: "string \<times> json \<Rightarrow> string" where
  "field_str = (\<lambda>(k, v). quote_json k @ '':'' @ stringify v)"

lemma field_str_pair:
  "field_str (k, v) = CHR 0x22 # concat (map escape_char k) @ CHR 0x22 # CHR '':'' # stringify v"
  by (simp add: field_str_def quote_json_def)

lemma parse_members_join:
  assumes "\<forall>kv \<in> set kvs. reads (snd kv)" "kvs \<noteq> []"
    "2 * length (join '','' (map field_str kvs)) + 1 \<le> n"
  shows "parse_members n acc (join '','' (map field_str kvs) @ CHR ''}'' # r) = Some (obj_spread acc kvs, r)"
  using assms
proof (induction kvs arbitrary: n acc)
  case Nil
  then show ?case by simp
next
  case (Cons kv kvs)
  obtain m where n: "n = Suc m" using Cons.prems by (cases n) auto
  obtain k v where kv: "kv = (k, v)" by (cases kv)
  have v: "reads v" using Cons.prems kv by simp
  let ?q = "concat (map escape_char k)"
  show ?case
  proof (cases "kvs = []")
    case True
    then have "parse_value m (stringify v @ CHR ''}'' # r) = Some (v, CHR ''}'' # r)"
      using v Cons.prems n kv unfolding reads_def by (simp add: field_str_pair)
    with True n kv show ?thesis
      by (simp add: skip_ws_nonws field_str_pair parse_string_quote)
  next
    case False
    let ?j = "join '','' (map field_str kvs)"
    have j: "join '','' (map field_str ((k, v) # kvs)) = field_str (k, v) @ CHR '','' # ?j"
      using False by (simp add: join_Cons)
    have len: "2 * length (stringify v) \<le> m" "2 * length ?j + 1 \<le> m"
      using Cons.prems(3) n unfolding kv j by (auto simp: field_str_pair)
    have "parse_value m (stringify v @ CHR '','' # ?j @ CHR ''}'' # r) = Some (v, CHR '','' # ?j @ CHR ''}'' # r)"
      using v len(1) unfolding reads_def by simp
    moreover have "parse_members m (obj_set acc k v) (?j @ CHR ''}'' # r) = Some (obj_spread (obj_set acc k v) kvs, r)"
      using Cons.IH Cons.prems(1) False len(2) by simp
    ultimately show ?thesis
      unfolding kv j n by (simp add: skip_ws_nonws field_str_pair parse_string_quote)
  qed
qed

lemma json_ok_defined: "json_ok v \<Longrightarrow> v \<noteq> JUndefined"
  by auto

lemma readsI:
  assumes "\<And>m r. follows r \<Longrightarrow> parse_value (Suc m) (stringify v @ r) = Some (v, r)"
  shows "reads v"
  unfolding reads_def
proof (intro allI impI)
  fix n r
  assume n: "2 * length (stringify v) \<le> n" and r: "follows r"
  then obtain m where "n = Suc m" using stringify_start [of v] by (cases n) auto
  then show "parse_value n (stringify v @ r) = Some (v, r)" using assms r by (simp only:)
qed

lemma reads_number:
  assumes "num_start (stringify v)" "\<And>r. num_end r \<Longrightarrow> parse_number (stringify v @ r) = Some (v, r)"
  shows "reads v"
  using assms
  by (intro readsI) (simp add: parse_value_number num_start_append follows_num_end del: parse_value.simps)

lemma json_ok_reads: "json_ok v \<Longrightarrow> reads v"
proof (induction v rule: stringify.induct)
  case (4 i)
  then show ?case
    using num_start_int [of i "[]"] parse_number_int by (intro reads_number) auto
next
  case (5 m e)
  then show ?case
    using num_start_frac [of m e "[]"] parse_number_frac by (intro reads_number) auto
next
  case (7 xs)
  then have xs: "\<forall>x \<in> set xs. reads x" by (auto simp: list_all_iff)
  show ?case
    unfolding reads_def
  proof (intro allI impI)
    fix n r
    assume n: "2 * length (stringify (JArr xs)) \<le> n" "follows r"
    then obtain m where m: "n = Suc m" by (cases n) auto
    show "parse_value n (stringify (JArr xs) @ r) = Some (JArr xs, r)"
    proof (cases "xs = []")
      case True
      with m show ?thesis by (simp add: skip_ws_nonws)
    next
      case False
      then obtain y ys where y: "xs = y # ys" by (cases xs) auto
      let ?j = "join '','' (map stringify xs)"
      obtain t where t: "?j = stringify y @ t" using y by (cases ys) auto
      obtain c u where c: "stringify y = c # u" "\<not> is_ws c" "c \<noteq> CHR '']''"
        using stringify_start [of y] by (cases "stringify y") auto
      have ws: "skip_ws (?j @ x) = ?j @ x" "\<not> starts_with '']'' (?j @ x)" for x
        unfolding t c(1) using c(2,3) by (simp_all add: skip_ws_nonws)
      have "parse_elems m (?j @ CHR '']'' # r) = Some (xs, r)"
        using n(1) m by (intro parse_elems_join xs False) auto
      with m ws show ?thesis by (simp add: skip_ws_nonws)
    qed
  qed
next
  case (8 kvs)
  then have ok: "obj_ok kvs" and all: "\<forall>(k, v) \<in> set kvs. json_ok v"
    by (auto simp: list_all_iff)
  have flt: "filter (\<lambda>(k, v). v \<noteq> JUndefined) kvs = kvs"
    using all by (auto simp: filter_id_conv)
  have xs: "\<forall>kv \<in> set kvs. reads (snd kv)"
    using "8.IH" all unfolding flt by fastforce
  have str: "stringify (JObj kvs) = ''{'' @ join '','' (map field_str kvs) @ ''}''"
    unfolding stringify.simps flt by (simp add: field_str_def)
  show ?case
    unfolding reads_def
  proof (intro allI impI)
    fix n r
    assume n: "2 * length (stringify (JObj kvs)) \<le> n" "follows r"
    then obtain m where m: "n = Suc m" by (cases n) auto
    show "parse_value n (stringify (JObj kvs) @ r) = Some (JObj kvs, r)"
    proof (cases "kvs = []")
      case True
      with m show ?thesis by (simp add: skip_ws_nonws)
    next
      case False
      then obtain k v ys where y: "kvs = (k, v) # ys" by (cases kvs) auto
      let ?j = "join '','' (map field_str kvs)"
      obtain t where t: "?j = CHR 0x22 # t" using y by (cases ys) (auto simp: field_str_pair)
      have ws: "skip_ws (?j @ x) = ?j @ x" "\<not> starts_with ''}'' (?j @ x)" for x
        unfolding t by (auto simp: skip_ws_nonws)
      have "parse_members m [] (?j @ CHR ''}'' # r) = Some (obj_spread [] kvs, r)"
        using n(1) m unfolding str by (intro parse_members_join xs False) auto
      with m ws ok show ?thesis unfolding str by (simp add: skip_ws_nonws obj_spread_id)
    qed
  qed
qed (auto intro!: readsI simp: quote_json_def parse_string_quote skip_ws_nonws is_ws_def)


lemma parse_stringify: "json_ok v \<Longrightarrow> parse_json (stringify v) = Some v"
proof -
  assume "json_ok v"
  then have "reads v" by (rule json_ok_reads)
  then have "parse_value (2 * length (stringify v) + 2) (stringify v @ []) = Some (v, [])"
    unfolding reads_def by (metis follows_simps(1) le_add1)
  then show ?thesis by (simp add: parse_json_def skip_ws_def)
qed

section \<open>The fuel of the parser is enough\<close>

text \<open>
  Every call of the parser that succeeds consumes input, so the fuel
  \<open>parse_json\<close> passes is never exhausted: a failure is a syntax error, and more
  fuel changes no answer.
\<close>

lemma skip_ws_length: "length (skip_ws s) \<le> length s"
  by (simp add: skip_ws_def length_dropWhile_le)

lemma parse_units_length: "parse_units s = Some (us, r) \<Longrightarrow> length r < length s"
  by (induction s arbitrary: us r rule: parse_units.induct)
    (fastforce split: if_splits option.splits prod.splits dest: parse_escape_length)+

lemma parse_string_length: "parse_string s = Some (x, r) \<Longrightarrow> length r < length s"
  by (auto simp: parse_string_def dest: parse_units_length)

lemma take_digits_length: "take_digits s = (ds, r) \<Longrightarrow> length s = length ds + length r"
  unfolding take_digits_def by (metis Pair_inject length_append takeWhile_dropWhile_id)

lemma parse_exp_length: "parse_exp s = Some (x, r) \<Longrightarrow> length r \<le> length s"
  by (auto simp: parse_exp_def split: list.splits if_splits prod.splits dest!: take_digits_length)

lemma parse_number_length: "parse_number s = Some (v, r) \<Longrightarrow> length r < length s"
  by (auto simp: parse_number_def Let_def neq_Nil_conv split: list.splits if_splits prod.splits option.splits
      dest!: take_digits_length parse_exp_length)


lemma starts_with_drop_length: "starts_with p s \<Longrightarrow> p \<noteq> [] \<Longrightarrow> length p = k \<Longrightarrow> length (drop k s) < length s"
  by (auto simp: starts_with_iff)

lemma skip_ws_Cons: "skip_ws s = c # t \<Longrightarrow> length t < length s"
  using skip_ws_length [of s] by simp

lemma parse_shrinks:
  "(\<forall>s v r. parse_value n s = Some (v, r) \<longrightarrow> length r < length s) \<and>
   (\<forall>s xs r. parse_elems n s = Some (xs, r) \<longrightarrow> length r < length s) \<and>
   (\<forall>acc s kvs r. parse_members n acc s = Some (kvs, r) \<longrightarrow> length r < length s)"
proof (induction n)
  case 0
  then show ?case by simp
next
  case (Suc n)
  then have V: "parse_value n s = Some (v, r) \<Longrightarrow> length r < length s"
    and E: "parse_elems n s = Some (xs, r) \<Longrightarrow> length r < length s"
    and M: "parse_members n acc s = Some (kvs, r) \<Longrightarrow> length r < length s" for s v r xs acc kvs
    by blast+
  have "length r < length s" if "parse_value (Suc n) s = Some (v, r)" for s v r
  proof -
    have "length r < length (skip_ws s)"
      using that
      by (auto simp: Let_def starts_with_iff split: if_splits list.splits
          dest!: parse_string_length E M parse_number_length
          dest: order_less_le_trans [OF _ skip_ws_length] skip_ws_Cons)
    then show ?thesis using skip_ws_length [of s] by simp
  qed
  moreover have "length r < length s" if "parse_elems (Suc n) s = Some (xs, r)" for s xs r
    using that
    by (auto split: option.splits prod.splits list.splits if_splits dest!: V E skip_ws_Cons)
  moreover have "length r < length s" if "parse_members (Suc n) acc s = Some (kvs, r)" for acc s kvs r
    using that
    by (auto split: option.splits prod.splits list.splits if_splits dest!: V M skip_ws_Cons parse_string_length)
  ultimately show ?case by blast
qed

lemma parse_value_shrinks: "parse_value n s = Some (v, r) \<Longrightarrow> length r < length s"
  using parse_shrinks by blast

lemma parse_fuel:
  "(\<forall>s. 2 * length s + 2 \<le> n \<longrightarrow> parse_value (Suc n) s = parse_value n s) \<and>
   (\<forall>s. 2 * length s + 3 \<le> n \<longrightarrow> parse_elems (Suc n) s = parse_elems n s) \<and>
   (\<forall>acc s. 2 * length s + 3 \<le> n \<longrightarrow> parse_members (Suc n) acc s = parse_members n acc s)"
proof (induction n)
  case 0
  then show ?case by simp
next
  case (Suc n)
  then have V: "2 * length s + 2 \<le> n \<Longrightarrow> parse_value (Suc n) s = parse_value n s"
    and E: "2 * length s + 3 \<le> n \<Longrightarrow> parse_elems (Suc n) s = parse_elems n s"
    and M: "2 * length s + 3 \<le> n \<Longrightarrow> parse_members (Suc n) acc s = parse_members n acc s" for s acc
    by blast+
  have "parse_value (Suc (Suc n)) s = parse_value (Suc n) s" if "2 * length s + 2 \<le> Suc n" for s
  proof -
    have "2 * length (skip_ws t) + 3 \<le> n" if "skip_ws s = c # t" for c t
      using skip_ws_Cons [OF that] skip_ws_length [of t] \<open>2 * length s + 2 \<le> Suc n\<close> by simp
    then show ?thesis
      by (cases "skip_ws s") (simp_all add: Let_def E M del: parse_elems.simps parse_members.simps)
  qed
  moreover have "parse_elems (Suc (Suc n)) s = parse_elems (Suc n) s" if n: "2 * length s + 3 \<le> Suc n" for s
  proof -
    have v: "parse_value (Suc n) s = parse_value n s" using n by (intro V) simp
    have "2 * length t + 3 \<le> n" if "parse_value n s = Some (x, r)" "skip_ws r = c # t" for x r c t
      using parse_value_shrinks [OF that(1)] skip_ws_Cons [OF that(2)] n by simp
    then show ?thesis
      unfolding parse_elems.simps(2) [of "Suc n" s] parse_elems.simps(2) [of n s] v
      by (auto simp: E split: option.splits list.splits simp del: parse_elems.simps)
  qed
  moreover have "parse_members (Suc (Suc n)) acc s = parse_members (Suc n) acc s"
    if n: "2 * length s + 3 \<le> Suc n" for acc s
  proof -
    have v: "parse_value (Suc n) u = parse_value n u"
      if "skip_ws s = q # t" "parse_string t = Some (k, r)" "skip_ws r = c # u" for q t k r c u
      using skip_ws_Cons [OF that(1)] parse_string_length [OF that(2)] skip_ws_Cons [OF that(3)] n
      by (intro V) simp
    have m: "2 * length u' + 3 \<le> n"
      if "skip_ws s = q # t" "parse_string t = Some (k, r)" "skip_ws r = c # u"
        "parse_value n u = Some (x, r')" "skip_ws r' = d # u'" for q t k r c u x r' d u'
      using skip_ws_Cons [OF that(1)] parse_string_length [OF that(2)] skip_ws_Cons [OF that(3)]
        parse_value_shrinks [OF that(4)] skip_ws_Cons [OF that(5)] n by simp
    show ?thesis
      unfolding parse_members.simps(2) [of "Suc n" acc s] parse_members.simps(2) [of n acc s]
      by (auto simp: v M m split: option.splits list.splits simp del: parse_members.simps parse_value.simps)
  qed
  ultimately show ?case by blast
qed


lemma parse_value_fuel: "2 * length s + 2 \<le> n \<Longrightarrow> parse_value n s = parse_value (2 * length s + 2) s"
proof (induction n rule: nat_induct_at_least [where m = "2 * length s + 2", consumes 1])
  case base
  then show ?case by simp
next
  case (Suc n)
  then show ?case using parse_fuel [of n] by (simp del: parse_value.simps)
qed

end
