(* ===== verification/HttpCore.thy ===== *)
theory HttpCore
  imports JsJson
begin

text \<open>
  \<^verbatim>\<open>ui/src/api/core.js\<close>: the error class \<open>ApiError\<close> and the HTTP core of
  \<open>SystemControllerClient\<close>, with the parts of the Fetch and URL standards they
  use: requests, responses whose body arrives in chunks and may break off, and the
  two percent encodings (\<open>encodeURIComponent\<close> and the form encoding of
  \<open>URLSearchParams\<close>).

  \<open>fetch\<close> itself is a parameter \<open>net\<close> of every definition: a request either is
  rejected with an error or answered with a response, and the world changes in a
  way the code does not see.
\<close>

section \<open>Requests, responses and errors\<close>

datatype form_value = FormText string | FormFile string

datatype body = NoBody | TextBody string | FormBody "(string \<times> form_value) list"

record request =
  rq_method :: string
  rq_url :: string
  rq_headers :: "string obj"
  rq_body :: body

record response =
  rs_status :: int
  rs_chunks :: "string list"
  rs_broken :: bool

record api_error =
  ae_message :: string
  ae_status :: int
  ae_path :: string
  ae_body :: string
  ae_detail :: json
  ae_problem :: json

datatype js_error =
    ApiErr api_error
  | NetworkErr string
  | SyntaxErr
  | TypeErr
  | PlainErr string

type_synonym 'w net = "request \<Rightarrow> ('w, js_error, response) eff"

definition rs_ok :: "response \<Rightarrow> bool" where
  "rs_ok r \<longleftrightarrow> 200 \<le> rs_status r \<and> rs_status r < 300"

text \<open>\<open>resp.text()\<close>, \<open>resp.text().catch(() => '')\<close> and \<open>resp.json()\<close>.\<close>

definition response_text :: "response \<Rightarrow> js_error + string" where
  "response_text r = (if rs_broken r then Inl (NetworkErr ''network error'') else Inr (concat (rs_chunks r)))"

definition response_text_or_empty :: "response \<Rightarrow> string" where
  "response_text_or_empty r = (case response_text r of Inl _ \<Rightarrow> [] | Inr s \<Rightarrow> s)"

definition response_json :: "response \<Rightarrow> js_error + json" where
  "response_json r =
     (case response_text r of
        Inl e \<Rightarrow> Inl e
      | Inr s \<Rightarrow> (case parse_json s of None \<Rightarrow> Inl SyntaxErr | Some v \<Rightarrow> Inr v))"

section \<open>ApiError\<close>

definition parseDetail :: "string \<Rightarrow> json" where
  "parseDetail body =
     (if body = [] then JStr []
      else (case parse_json body of
          None \<Rightarrow> JStr body
        | Some parsed \<Rightarrow>
            (case js_prop parsed ''detail'' of
               None \<Rightarrow> JStr body
             | Some d \<Rightarrow>
                 if truthy d then d
                 else (case js_prop parsed ''message'' of
                     None \<Rightarrow> JStr body
                   | Some m \<Rightarrow> if truthy m then m else JStr body))))"

definition is_number :: "json \<Rightarrow> bool" where
  "is_number v = (case v of JNum _ \<Rightarrow> True | JFrac _ _ \<Rightarrow> True | _ \<Rightarrow> False)"

definition parseProblem :: "string \<Rightarrow> json" where
  "parseProblem body =
     (if body = [] then JNull
      else (case parse_json body of
          None \<Rightarrow> JNull
        | Some parsed \<Rightarrow>
            (case (js_prop parsed ''type'', js_prop parsed ''status'') of
               (Some ty, Some st) \<Rightarrow> if truthy ty \<and> is_number st then parsed else JNull
             | _ \<Rightarrow> JNull)))"

definition makeApiError :: "string \<Rightarrow> string \<Rightarrow> int \<Rightarrow> string \<Rightarrow> api_error" where
  "makeApiError method path status body =
     (let detail = parseDetail body;
          displayDetail = (if truthy detail then js_string detail else ''status '' @ int_str status)
      in \<lparr>ae_message = method @ '' '' @ path @ '': '' @ displayDetail,
          ae_status = status, ae_path = path, ae_body = body,
          ae_detail = detail, ae_problem = parseProblem body\<rparr>)"

section \<open>SystemControllerClient\<close>

record client =
  baseURL :: string
  token :: string

fun strip_trailing_slashes :: "string \<Rightarrow> string" where
  "strip_trailing_slashes [] = []"
| "strip_trailing_slashes (c # s) =
     (let t = strip_trailing_slashes s in if t = [] \<and> c = CHR ''/'' then [] else c # t)"

definition newClient :: "string \<Rightarrow> client" where
  "newClient url = \<lparr>baseURL = strip_trailing_slashes url, token = []\<rparr>"

definition setToken :: "client \<Rightarrow> string \<Rightarrow> client" where
  "setToken cl t = cl\<lparr>token := t\<rparr>"

definition bearer :: "string \<Rightarrow> string" where
  "bearer t = ''Bearer '' @ t"

definition auth_header :: "client \<Rightarrow> string obj \<Rightarrow> string obj" where
  "auth_header cl hs = (if token cl \<noteq> [] then obj_set hs ''Authorization'' (bearer (token cl)) else hs)"

text \<open>The check every method applies to its response: anything but 200 is an \<open>ApiError\<close>.\<close>

definition check_status :: "string \<Rightarrow> string \<Rightarrow> response \<Rightarrow> js_error + response" where
  "check_status method path resp =
     (if rs_status resp \<noteq> 200
      then Inl (ApiErr (makeApiError method path (rs_status resp) (response_text_or_empty resp)))
      else Inr resp)"

definition post_request :: "client \<Rightarrow> string \<Rightarrow> json \<Rightarrow> request" where
  "post_request cl path body =
     \<lparr>rq_method = ''POST'', rq_url = baseURL cl @ path,
      rq_headers = auth_header cl [(''Content-Type'', ''application/json'')],
      rq_body = (case json_stringify body of None \<Rightarrow> NoBody | Some s \<Rightarrow> TextBody s)\<rparr>"

definition post :: "'w net \<Rightarrow> client \<Rightarrow> string \<Rightarrow> json \<Rightarrow> ('w, js_error, response) eff" where
  "post net cl path body =
     eff_bind (net (post_request cl path body)) (\<lambda>resp. eff_lift (check_status ''POST'' path resp))"

definition get_request :: "client \<Rightarrow> string \<Rightarrow> string obj \<Rightarrow> request" where
  "get_request cl path extraHeaders =
     \<lparr>rq_method = ''GET'', rq_url = baseURL cl @ path,
      rq_headers = auth_header cl (obj_spread [] extraHeaders), rq_body = NoBody\<rparr>"

definition get :: "'w net \<Rightarrow> client \<Rightarrow> string \<Rightarrow> string obj \<Rightarrow> ('w, js_error, response) eff" where
  "get net cl path extraHeaders =
     eff_bind (net (get_request cl path extraHeaders)) (\<lambda>resp. eff_lift (check_status ''GET'' path resp))"

definition postJSON :: "'w net \<Rightarrow> client \<Rightarrow> string \<Rightarrow> json \<Rightarrow> ('w, js_error, json) eff" where
  "postJSON net cl path body =
     eff_bind (post net cl path body) (\<lambda>resp. eff_lift (response_json resp))"

definition getJSON :: "'w net \<Rightarrow> client \<Rightarrow> string \<Rightarrow> string obj \<Rightarrow> ('w, js_error, json) eff" where
  "getJSON net cl path extraHeaders =
     eff_bind (get net cl path extraHeaders) (\<lambda>resp. eff_lift (response_json resp))"

text \<open>\<open>await this.post(...)\<close> in a method that returns nothing.\<close>

definition ignore_result :: "('w, js_error, 'a) eff \<Rightarrow> ('w, js_error, unit) eff" where
  "ignore_result m = eff_bind m (\<lambda>_. eff_return ())"

section \<open>Percent encoding\<close>

definition upper_hex :: "nat \<Rightarrow> char" where
  "upper_hex n = (if n < 10 then char_of (n + 48) else char_of (n + 55))"

definition percent :: "char \<Rightarrow> string" where
  "percent c = (let n = (of_char c :: nat) in [CHR ''%'', upper_hex (n div 16), upper_hex (n mod 16)])"

definition uri_unreserved :: "char \<Rightarrow> bool" where
  "uri_unreserved c \<longleftrightarrow>
     is_alpha c \<or> is_digit c \<or>
     c \<in> {CHR ''-'', CHR ''_'', CHR ''.'', CHR ''!'', CHR ''~'', CHR ''*'', CHR 0x27, CHR ''('', CHR '')''}"

definition encodeURIComponent :: "string \<Rightarrow> string" where
  "encodeURIComponent s = concat (map (\<lambda>c. if uri_unreserved c then [c] else percent c) s)"

definition form_unreserved :: "char \<Rightarrow> bool" where
  "form_unreserved c \<longleftrightarrow>
     is_alpha c \<or> is_digit c \<or> c \<in> {CHR ''*'', CHR ''-'', CHR ''.'', CHR ''_''}"

definition form_encode :: "string \<Rightarrow> string" where
  "form_encode s =
     concat (map (\<lambda>c. if form_unreserved c then [c] else if c = CHR '' '' then ''+'' else percent c) s)"

section \<open>URLSearchParams\<close>

type_synonym search_params = "(string \<times> string) list"

text \<open>\<open>params.set(k, v)\<close>: the first entry of the key is replaced, further ones are dropped.\<close>

fun params_set :: "search_params \<Rightarrow> string \<Rightarrow> string \<Rightarrow> search_params" where
  "params_set [] k v = [(k, v)]"
| "params_set ((l, u) # ps) k v =
     (if l = k then (k, v) # filter (\<lambda>(m, _). m \<noteq> k) ps else (l, u) # params_set ps k v)"

definition params_string :: "search_params \<Rightarrow> string" where
  "params_string ps = join ''&'' (map (\<lambda>(k, v). form_encode k @ ''='' @ form_encode v) ps)"

text \<open>\<open>if (x) params.set(k, x)\<close> for an optional string, number or flag.\<close>

definition set_if_str :: "string \<Rightarrow> string option \<Rightarrow> search_params \<Rightarrow> search_params" where
  "set_if_str k x ps = (if given x then params_set ps k (the x) else ps)"

definition set_if_num :: "string \<Rightarrow> int option \<Rightarrow> search_params \<Rightarrow> search_params" where
  "set_if_num k x ps = (if given_num x then params_set ps k (int_str (the x)) else ps)"

definition set_if_flag :: "string \<Rightarrow> bool \<Rightarrow> search_params \<Rightarrow> search_params" where
  "set_if_flag k b ps = (if b then params_set ps k ''true'' else ps)"

text \<open>The suffix \<open>qs ? `?${qs}` : ''\<close>.\<close>

definition query_suffix :: "search_params \<Rightarrow> string" where
  "query_suffix ps = (let qs = params_string ps in if qs \<noteq> [] then CHR ''?'' # qs else [])"

end
