(* ===== verification/ClientAccount.thy ===== *)
theory ClientAccount
  imports HttpCore
begin

text \<open>
  The client methods about the caller, the accounts and the box as a whole:
  \<^verbatim>\<open>client-ping.js\<close>, \<^verbatim>\<open>client-auth.js\<close>, \<^verbatim>\<open>client-account.js\<close>, \<^verbatim>\<open>client-audit.js\<close>,
  \<^verbatim>\<open>client-settings.js\<close>, \<^verbatim>\<open>client-upgrade.js\<close>, \<^verbatim>\<open>client-locale.js\<close>,
  \<^verbatim>\<open>client-monitoring.js\<close> and \<^verbatim>\<open>client-system-service.js\<close> under \<^verbatim>\<open>ui/src/api\<close>.

  An optional argument is an \<open>option\<close>, with \<open>None\<close> for \<open>undefined\<close>; an argument
  the source passes through unexamined (an object of options or fields) is a JSON
  value.
\<close>

section \<open>Shared shapes\<close>

text \<open>An optional argument placed in a request body: \<open>undefined\<close> is dropped by \<open>JSON.stringify\<close>.\<close>

definition opt_str :: "string option \<Rightarrow> json" where
  "opt_str x = (case x of None \<Rightarrow> JUndefined | Some s \<Rightarrow> JStr s)"

definition str_list :: "string list \<Rightarrow> json" where
  "str_list xs = JArr (map JStr xs)"

text \<open>\<open>if (x) body.k = x\<close> on a body under construction.\<close>

definition field_if_str :: "string \<Rightarrow> string option \<Rightarrow> json obj \<Rightarrow> json obj" where
  "field_if_str k x ob = (if given x then obj_set ob k (JStr (the x)) else ob)"

definition field_if_num :: "string \<Rightarrow> int option \<Rightarrow> json obj \<Rightarrow> json obj" where
  "field_if_num k x ob = (if given_num x then obj_set ob k (JNum (the x)) else ob)"

text \<open>The five optional parameters every paginated listing puts into its query.\<close>

definition paging_params ::
  "string option \<Rightarrow> string option \<Rightarrow> int option \<Rightarrow> int option \<Rightarrow> string option \<Rightarrow> search_params"
where
  "paging_params sortBy sortOrder limit offset search =
     set_if_str ''search'' search
       (set_if_num ''offset'' offset
         (set_if_num ''limit'' limit
           (set_if_str ''sort_order'' sortOrder
             (set_if_str ''sort_by'' sortBy []))))"

section \<open>Ping and authentication\<close>

definition ping :: "'w net \<Rightarrow> client \<Rightarrow> ('w, js_error, json) eff" where
  "ping net cl = getJSON net cl ''/status/ping'' []"

definition authenticate :: "'w net \<Rightarrow> client \<Rightarrow> string \<Rightarrow> string \<Rightarrow> ('w, js_error, json) eff" where
  "authenticate net cl username password =
     postJSON net cl ''/account/authenticate''
       (JObj [(''username'', JStr username), (''password'', JStr password)])"

definition listSessions :: "'w net \<Rightarrow> client \<Rightarrow> string \<Rightarrow> ('w, js_error, json) eff" where
  "listSessions net cl tok =
     getJSON net cl ''/account/sessions'' [(''Authorization'', bearer tok)]"

definition sessionUsername :: "'w net \<Rightarrow> client \<Rightarrow> string \<Rightarrow> ('w, js_error, json) eff" where
  "sessionUsername net cl tok =
     eff_bind (getJSON net cl ''/account/me'' [(''Authorization'', bearer tok)])
       (\<lambda>result. case js_prop result ''username'' of
          None \<Rightarrow> eff_throw TypeErr | Some v \<Rightarrow> eff_return v)"

definition revokeSession :: "'w net \<Rightarrow> client \<Rightarrow> string \<Rightarrow> ('w, js_error, unit) eff" where
  "revokeSession net cl sessionID =
     ignore_result (post net cl ''/account/session/revoke'' (JObj [(''session_id'', JStr sessionID)]))"

section \<open>Accounts\<close>

definition createAccount ::
  "'w net \<Rightarrow> client \<Rightarrow> string \<Rightarrow> string \<Rightarrow> string \<Rightarrow> string \<Rightarrow> string \<Rightarrow> bool \<Rightarrow>
   string list \<Rightarrow> string list \<Rightarrow> ('w, js_error, json) eff"
where
  "createAccount net cl username password email phone realName admin grants networks =
     postJSON net cl ''/account/create''
       (JObj [(''username'', JStr username), (''password'', JStr password),
              (''email'', JStr email), (''phone'', JStr phone), (''real_name'', JStr realName),
              (''admin'', JBool admin), (''grants'', str_list grants),
              (''networks'', str_list networks)])"

definition getAccount_api :: "'w net \<Rightarrow> client \<Rightarrow> string \<Rightarrow> ('w, js_error, json) eff" where
  "getAccount_api net cl username = postJSON net cl ''/account'' (JObj [(''username'', JStr username)])"

definition updateAccount :: "'w net \<Rightarrow> client \<Rightarrow> string \<Rightarrow> json \<Rightarrow> ('w, js_error, json) eff" where
  "updateAccount net cl username changes =
     postJSON net cl ''/account/update'' (JObj [(''username'', JStr username), (''fields'', changes)])"

definition listAccounts ::
  "'w net \<Rightarrow> client \<Rightarrow> string option \<Rightarrow> string option \<Rightarrow> int option \<Rightarrow> int option \<Rightarrow>
   string option \<Rightarrow> ('w, js_error, json) eff"
where
  "listAccounts net cl sortBy sortOrder limit offset search =
     getJSON net cl (''/account'' @ query_suffix (paging_params sortBy sortOrder limit offset search)) []"

definition disableAccount :: "'w net \<Rightarrow> client \<Rightarrow> string \<Rightarrow> ('w, js_error, unit) eff" where
  "disableAccount net cl username =
     ignore_result (post net cl ''/account/disable'' (JObj [(''username'', JStr username)]))"

definition enableAccount :: "'w net \<Rightarrow> client \<Rightarrow> string \<Rightarrow> ('w, js_error, unit) eff" where
  "enableAccount net cl username =
     ignore_result (post net cl ''/account/enable'' (JObj [(''username'', JStr username)]))"

section \<open>Audit log, settings, upgrades, locales, monitoring and system services\<close>

definition listAuditLog :: "'w net \<Rightarrow> client \<Rightarrow> json \<Rightarrow> ('w, js_error, json) eff" where
  "listAuditLog net cl opts = postJSON net cl ''/audit/log'' opts"

definition getSettings :: "'w net \<Rightarrow> client \<Rightarrow> ('w, js_error, json) eff" where
  "getSettings net cl = getJSON net cl ''/settings'' []"

definition getSetting :: "'w net \<Rightarrow> client \<Rightarrow> string \<Rightarrow> ('w, js_error, json) eff" where
  "getSetting net cl key =
     eff_bind (postJSON net cl ''/settings/get'' (JObj [(''key'', JStr key)]))
       (\<lambda>result. case js_prop result ''value'' of
          None \<Rightarrow> eff_throw TypeErr | Some v \<Rightarrow> eff_return v)"

definition setSetting :: "'w net \<Rightarrow> client \<Rightarrow> string \<Rightarrow> string \<Rightarrow> ('w, js_error, unit) eff" where
  "setSetting net cl key value =
     ignore_result (post net cl ''/settings/set'' (JObj [(''key'', JStr key), (''value'', JStr value)]))"

definition listUpgrades :: "'w net \<Rightarrow> client \<Rightarrow> ('w, js_error, json) eff" where
  "listUpgrades net cl = getJSON net cl ''/packages/upgrades'' []"

definition dismissUpgrades :: "'w net \<Rightarrow> client \<Rightarrow> ('w, js_error, unit) eff" where
  "dismissUpgrades net cl = ignore_result (post net cl ''/packages/upgrades/dismiss'' (JObj []))"

definition getLocales :: "'w net \<Rightarrow> client \<Rightarrow> ('w, js_error, json) eff" where
  "getLocales net cl = getJSON net cl ''/locales'' []"

definition monitoringStatus :: "'w net \<Rightarrow> client \<Rightarrow> ('w, js_error, json) eff" where
  "monitoringStatus net cl = getJSON net cl ''/monitoring/status'' []"

definition listSystemServices :: "'w net \<Rightarrow> client \<Rightarrow> ('w, js_error, json) eff" where
  "listSystemServices net cl = getJSON net cl ''/system-services'' []"

definition setSystemServiceStatus :: "'w net \<Rightarrow> client \<Rightarrow> string \<Rightarrow> string \<Rightarrow> ('w, js_error, unit) eff" where
  "setSystemServiceStatus net cl key action =
     ignore_result (postJSON net cl ''/system-services/status''
       (JObj [(''key'', JStr key), (''action'', JStr action)]))"

definition refreshSystemServices :: "'w net \<Rightarrow> client \<Rightarrow> ('w, js_error, unit) eff" where
  "refreshSystemServices net cl = ignore_result (postJSON net cl ''/system-services/refresh'' (JObj []))"

end
