(* ===== verification/ClientStorage.thy ===== *)
theory ClientStorage
  imports ClientAccount
begin

text \<open>
  The client methods about filesystems, archives and package repositories:
  \<^verbatim>\<open>client-storage.js\<close>, \<^verbatim>\<open>client-archive.js\<close> and \<^verbatim>\<open>client-repository.js\<close>.
  A \<open>File\<close> is opaque to the code and is named by its content handle.
\<close>

section \<open>Filesystems and volumes\<close>

definition createFilesystem :: "'w net \<Rightarrow> client \<Rightarrow> json \<Rightarrow> ('w, js_error, unit) eff" where
  "createFilesystem net cl fs = ignore_result (post net cl ''/storage/create'' fs)"

definition modifyFilesystem :: "'w net \<Rightarrow> client \<Rightarrow> string \<Rightarrow> json \<Rightarrow> ('w, js_error, unit) eff" where
  "modifyFilesystem net cl name fs =
     ignore_result (post net cl ''/storage/modify'' (JObj [(''name'', JStr name), (''filesystem'', fs)]))"

definition removeFilesystem :: "'w net \<Rightarrow> client \<Rightarrow> string \<Rightarrow> ('w, js_error, unit) eff" where
  "removeFilesystem net cl name =
     ignore_result (post net cl ''/storage/remove'' (JObj [(''name'', JStr name)]))"

definition listFilesystems ::
  "'w net \<Rightarrow> client \<Rightarrow> string \<Rightarrow> string option \<Rightarrow> string option \<Rightarrow> string option \<Rightarrow>
   int option \<Rightarrow> int option \<Rightarrow> string option \<Rightarrow> ('w, js_error, json) eff"
where
  "listFilesystems net cl pre sortBy sortOrder state limit offset search =
     postJSON net cl ''/storage''
       (JObj (field_if_str ''search'' search
         (field_if_num ''offset'' offset
           (field_if_num ''limit'' limit
             (field_if_str ''state'' state
               (field_if_str ''sort_order'' sortOrder
                 (field_if_str ''sort_by'' sortBy [(''name'', JStr pre)])))))))"

definition listPackageVolumes :: "'w net \<Rightarrow> client \<Rightarrow> bool \<Rightarrow> ('w, js_error, json) eff" where
  "listPackageVolumes net cl includeUninstalled =
     postJSON net cl ''/storage/package-volumes''
       (JObj [(''include_uninstalled'', JBool includeUninstalled)])"

definition listExportedVolumes :: "'w net \<Rightarrow> client \<Rightarrow> ('w, js_error, json) eff" where
  "listExportedVolumes net cl =
     eff_bind (postJSON net cl ''/storage/exported-volumes'' (JObj []))
       (\<lambda>body. let v = js_opt_prop body ''volumes'' in
          eff_return (if truthy v then v else JArr []))"

definition removePackageVolume :: "'w net \<Rightarrow> client \<Rightarrow> string \<Rightarrow> ('w, js_error, unit) eff" where
  "removePackageVolume net cl internalName =
     ignore_result (post net cl ''/storage/remove-package-volume''
       (JObj [(''internal_name'', JStr internalName)]))"

definition removePackageVolumeGroup ::
  "'w net \<Rightarrow> client \<Rightarrow> string \<Rightarrow> string \<Rightarrow> string option \<Rightarrow> bool \<Rightarrow> ('w, js_error, unit) eff"
where
  "removePackageVolumeGroup net cl repo name version includeUninstalled =
     ignore_result (post net cl ''/storage/remove-package-volume-group''
       (JObj [(''repo'', JStr repo), (''name'', JStr name), (''version'', JStr (str_or version [])),
              (''include_uninstalled'', JBool includeUninstalled)]))"

section \<open>Archives\<close>

text \<open>
  The two archive methods call \<open>fetch\<close> directly.  The upload sends a multipart
  form and so must not set a content type; the download returns the response
  itself, to be streamed.
\<close>

definition upload_form :: "string \<Rightarrow> string \<Rightarrow> string option \<Rightarrow> string option \<Rightarrow> (string \<times> form_value) list" where
  "upload_form subvolume file subpath stopService =
     [(''subvolume'', FormText subvolume)] @
     (if given subpath then [(''subpath'', FormText (the subpath))] else []) @
     (if given stopService then [(''stop_service'', FormText (the stopService))] else []) @
     [(''archive'', FormFile file)]"

definition uploadArchive ::
  "'w net \<Rightarrow> client \<Rightarrow> string \<Rightarrow> string \<Rightarrow> string option \<Rightarrow> string option \<Rightarrow> ('w, js_error, json) eff"
where
  "uploadArchive net cl subvolume file subpath stopService =
     eff_bind
       (net \<lparr>rq_method = ''POST'', rq_url = baseURL cl @ ''/storage/upload-archive'',
             rq_headers = auth_header cl [],
             rq_body = FormBody (upload_form subvolume file subpath stopService)\<rparr>)
       (\<lambda>resp. eff_bind (eff_lift (check_status ''POST'' ''/storage/upload-archive'' resp))
         (\<lambda>resp. eff_lift (response_json resp)))"

definition download_body ::
  "string \<Rightarrow> string list option \<Rightarrow> string option \<Rightarrow> string option \<Rightarrow> string option \<Rightarrow> json"
where
  "download_body subvolume paths stopService format filename =
     JObj (field_if_str ''filename'' filename
       (field_if_str ''format'' format
         (field_if_str ''stop_service'' stopService
           (let body = [(''subvolume'', JStr subvolume)] in
            case paths of
              None \<Rightarrow> body
            | Some ps \<Rightarrow> if ps = [] then body else obj_set body ''paths'' (str_list ps)))))"

definition downloadArchive ::
  "'w net \<Rightarrow> client \<Rightarrow> string \<Rightarrow> string list option \<Rightarrow> string option \<Rightarrow> string option \<Rightarrow>
   string option \<Rightarrow> ('w, js_error, response) eff"
where
  "downloadArchive net cl subvolume paths stopService format filename =
     eff_bind
       (net \<lparr>rq_method = ''POST'', rq_url = baseURL cl @ ''/storage/download-archive'',
             rq_headers = auth_header cl [(''Content-Type'', ''application/json'')],
             rq_body = TextBody (stringify (download_body subvolume paths stopService format filename))\<rparr>)
       (\<lambda>resp. eff_lift (check_status ''POST'' ''/storage/download-archive'' resp))"

section \<open>Repositories\<close>

definition addRepository ::
  "'w net \<Rightarrow> client \<Rightarrow> string \<Rightarrow> string \<Rightarrow> string option \<Rightarrow> string option \<Rightarrow> ('w, js_error, unit) eff"
where
  "addRepository net cl name url username password =
     ignore_result (post net cl ''/repository/add''
       (JObj [(''name'', JStr name), (''url'', JStr url),
              (''username'', JStr (case username of None \<Rightarrow> [] | Some u \<Rightarrow> u)),
              (''password'', JStr (case password of None \<Rightarrow> [] | Some p \<Rightarrow> p))]))"

definition removeRepository :: "'w net \<Rightarrow> client \<Rightarrow> string \<Rightarrow> ('w, js_error, unit) eff" where
  "removeRepository net cl name =
     ignore_result (post net cl ''/repository/remove'' (JObj [(''name'', JStr name)]))"

definition moveRepository :: "'w net \<Rightarrow> client \<Rightarrow> string \<Rightarrow> int \<Rightarrow> ('w, js_error, unit) eff" where
  "moveRepository net cl name position =
     ignore_result (post net cl ''/repository/move''
       (JObj [(''name'', JStr name), (''position'', JNum position)]))"

text \<open>\<open>await resp.text().catch(() => {})\<close>: the progress stream is drained and discarded.\<close>

definition refreshRepositories :: "'w net \<Rightarrow> client \<Rightarrow> ('w, js_error, unit) eff" where
  "refreshRepositories net cl = ignore_result (post net cl ''/repository/refresh'' (JObj []))"

definition refreshRepositoriesStream :: "'w net \<Rightarrow> client \<Rightarrow> ('w, js_error, response) eff" where
  "refreshRepositoriesStream net cl = post net cl ''/repository/refresh'' (JObj [])"

definition listRepositories ::
  "'w net \<Rightarrow> client \<Rightarrow> string option \<Rightarrow> string option \<Rightarrow> int option \<Rightarrow> int option \<Rightarrow>
   string option \<Rightarrow> ('w, js_error, json) eff"
where
  "listRepositories net cl sortBy sortOrder limit offset search =
     getJSON net cl (''/repository'' @ query_suffix (paging_params sortBy sortOrder limit offset search)) []"

end
