(* ===== verification/ClientPackage.thy ===== *)
theory ClientPackage
  imports ClientAccount
begin

text \<open>
  \<^verbatim>\<open>client-package.js\<close>: listing, inspecting, installing and removing packages,
  the cached VM images, and the OAuth device flow.
\<close>

section \<open>Listings\<close>

definition listPackages ::
  "'w net \<Rightarrow> client \<Rightarrow> string option \<Rightarrow> string option \<Rightarrow> int option \<Rightarrow> int option \<Rightarrow>
   string option \<Rightarrow> bool \<Rightarrow> bool \<Rightarrow> ('w, js_error, json) eff"
where
  "listPackages net cl sortBy sortOrder limit offset search installedOnly featuredOnly =
     getJSON net cl (''/packages'' @ query_suffix
       (set_if_flag ''featured_only'' featuredOnly
         (set_if_flag ''installed_only'' installedOnly
           (paging_params sortBy sortOrder limit offset search)))) []"

definition listPackagesByRepo ::
  "'w net \<Rightarrow> client \<Rightarrow> string option \<Rightarrow> bool \<Rightarrow> ('w, js_error, json) eff"
where
  "listPackagesByRepo net cl search featuredOnly =
     getJSON net cl (''/packages/by-repo'' @ query_suffix
       (set_if_flag ''featured_only'' featuredOnly (set_if_str ''search'' search []))) []"

definition listInstalled ::
  "'w net \<Rightarrow> client \<Rightarrow> string option \<Rightarrow> string option \<Rightarrow> int option \<Rightarrow> int option \<Rightarrow>
   string option \<Rightarrow> ('w, js_error, json) eff"
where
  "listInstalled net cl sortBy sortOrder limit offset search =
     getJSON net cl (''/packages/installed'' @
       query_suffix (paging_params sortBy sortOrder limit offset search)) []"

section \<open>Package identity\<close>

definition repo_name :: "string \<Rightarrow> string \<Rightarrow> json" where
  "repo_name repo name = JObj [(''repo'', JStr repo), (''name'', JStr name)]"

definition repo_name_version :: "string \<Rightarrow> string \<Rightarrow> string \<Rightarrow> json" where
  "repo_name_version repo name version =
     JObj [(''repo'', JStr repo), (''name'', JStr name), (''version'', JStr version)]"

definition getResponses :: "'w net \<Rightarrow> client \<Rightarrow> string \<Rightarrow> string \<Rightarrow> string \<Rightarrow> ('w, js_error, json) eff" where
  "getResponses net cl repo name version =
     postJSON net cl ''/packages/responses'' (repo_name_version repo name version)"

definition getInstalledInfo :: "'w net \<Rightarrow> client \<Rightarrow> string \<Rightarrow> string \<Rightarrow> string \<Rightarrow> ('w, js_error, json) eff" where
  "getInstalledInfo net cl repo name version =
     postJSON net cl ''/packages/installed/info'' (repo_name_version repo name version)"

definition getPackageManifest ::
  "'w net \<Rightarrow> client \<Rightarrow> string \<Rightarrow> string \<Rightarrow> string \<Rightarrow> ('w, js_error, string) eff"
where
  "getPackageManifest net cl repo name version =
     eff_bind (post net cl ''/packages/manifest'' (repo_name_version repo name version))
       (\<lambda>resp. eff_lift (response_text resp))"

definition getLastResponses :: "'w net \<Rightarrow> client \<Rightarrow> string \<Rightarrow> string \<Rightarrow> ('w, js_error, json) eff" where
  "getLastResponses net cl repo name = postJSON net cl ''/packages/last-responses'' (repo_name repo name)"

definition clearLastResponses :: "'w net \<Rightarrow> client \<Rightarrow> string \<Rightarrow> string \<Rightarrow> ('w, js_error, unit) eff" where
  "clearLastResponses net cl repo name =
     ignore_result (post net cl ''/packages/clear-last-responses'' (repo_name repo name))"

definition getPackageQuestions :: "'w net \<Rightarrow> client \<Rightarrow> string \<Rightarrow> ('w, js_error, json) eff" where
  "getPackageQuestions net cl name = postJSON net cl ''/packages/questions'' (JObj [(''name'', JStr name)])"

definition getPackageQuestionsByIdentity ::
  "'w net \<Rightarrow> client \<Rightarrow> string \<Rightarrow> string \<Rightarrow> string \<Rightarrow> ('w, js_error, json) eff"
where
  "getPackageQuestionsByIdentity net cl repo name version =
     postJSON net cl ''/packages/questions/identity'' (repo_name_version repo name version)"

definition listPackageVersions :: "'w net \<Rightarrow> client \<Rightarrow> string \<Rightarrow> ('w, js_error, json) eff" where
  "listPackageVersions net cl name = postJSON net cl ''/packages/versions'' (JObj [(''name'', JStr name)])"

definition listUninstalledVolumes :: "'w net \<Rightarrow> client \<Rightarrow> string \<Rightarrow> string \<Rightarrow> ('w, js_error, json) eff" where
  "listUninstalledVolumes net cl repo name =
     postJSON net cl ''/packages/uninstalled-volumes'' (repo_name repo name)"

definition purgeUninstalledVolumes :: "'w net \<Rightarrow> client \<Rightarrow> string \<Rightarrow> string \<Rightarrow> ('w, js_error, unit) eff" where
  "purgeUninstalledVolumes net cl repo name =
     ignore_result (post net cl ''/packages/purge-uninstalled-volumes'' (repo_name repo name))"

definition installPreview :: "'w net \<Rightarrow> client \<Rightarrow> string \<Rightarrow> string \<Rightarrow> string \<Rightarrow> ('w, js_error, json) eff" where
  "installPreview net cl repo name version =
     postJSON net cl ''/packages/install-preview'' (repo_name_version repo name version)"

section \<open>Installing and removing\<close>

definition install_body ::
  "string \<Rightarrow> string \<Rightarrow> string \<Rightarrow> json \<Rightarrow> bool \<Rightarrow> string option \<Rightarrow> string option \<Rightarrow> json"
where
  "install_body repo name version responses reuseVolumes importFromVersion network =
     JObj (field_if_str ''network'' network
       (field_if_str ''import_from_version'' importFromVersion
         (let body = [(''repo'', JStr repo), (''name'', JStr name), (''version'', JStr version),
                      (''responses'', responses)]
          in if reuseVolumes then obj_set body ''reuse_volumes'' (JBool True) else body)))"

definition installPackage ::
  "'w net \<Rightarrow> client \<Rightarrow> string \<Rightarrow> string \<Rightarrow> string \<Rightarrow> json \<Rightarrow> bool \<Rightarrow> string option \<Rightarrow>
   string option \<Rightarrow> ('w, js_error, unit) eff"
where
  "installPackage net cl repo name version responses reuseVolumes importFromVersion network =
     ignore_result (post net cl ''/packages/install''
       (install_body repo name version responses reuseVolumes importFromVersion network))"

definition installPackageStream ::
  "'w net \<Rightarrow> client \<Rightarrow> string \<Rightarrow> string \<Rightarrow> string \<Rightarrow> json \<Rightarrow> bool \<Rightarrow> string option \<Rightarrow>
   string option \<Rightarrow> ('w, js_error, response) eff"
where
  "installPackageStream net cl repo name version responses reuseVolumes importFromVersion network =
     post net cl ''/packages/install''
       (install_body repo name version responses reuseVolumes importFromVersion network)"

definition uninstall_body :: "string \<Rightarrow> string \<Rightarrow> string \<Rightarrow> bool \<Rightarrow> json" where
  "uninstall_body repo name version purgeVolumes =
     JObj [(''repo'', JStr repo), (''name'', JStr name), (''version'', JStr version),
           (''purge_volumes'', JBool purgeVolumes)]"

definition uninstallPackage ::
  "'w net \<Rightarrow> client \<Rightarrow> string \<Rightarrow> string \<Rightarrow> string \<Rightarrow> bool \<Rightarrow> ('w, js_error, unit) eff"
where
  "uninstallPackage net cl repo name version purgeVolumes =
     ignore_result (post net cl ''/packages/uninstall'' (uninstall_body repo name version purgeVolumes))"

definition uninstallPackageStream ::
  "'w net \<Rightarrow> client \<Rightarrow> string \<Rightarrow> string \<Rightarrow> string \<Rightarrow> bool \<Rightarrow> ('w, js_error, response) eff"
where
  "uninstallPackageStream net cl repo name version purgeVolumes =
     post net cl ''/packages/uninstall'' (uninstall_body repo name version purgeVolumes)"

definition purgeVolumes :: "'w net \<Rightarrow> client \<Rightarrow> string \<Rightarrow> string \<Rightarrow> ('w, js_error, unit) eff" where
  "purgeVolumes net cl repo name =
     ignore_result (post net cl ''/packages/purge-volumes'' (repo_name repo name))"

definition disablePackage :: "'w net \<Rightarrow> client \<Rightarrow> string \<Rightarrow> string \<Rightarrow> ('w, js_error, unit) eff" where
  "disablePackage net cl repo name =
     ignore_result (post net cl ''/packages/disable'' (repo_name repo name))"

definition enablePackage :: "'w net \<Rightarrow> client \<Rightarrow> string \<Rightarrow> string \<Rightarrow> ('w, js_error, unit) eff" where
  "enablePackage net cl repo name =
     ignore_result (post net cl ''/packages/enable'' (repo_name repo name))"

section \<open>VM images and the OAuth device flow\<close>

definition listVMImages :: "'w net \<Rightarrow> client \<Rightarrow> ('w, js_error, json) eff" where
  "listVMImages net cl = getJSON net cl ''/vm-images'' []"

definition uploadVMImage :: "'w net \<Rightarrow> client \<Rightarrow> string \<Rightarrow> string option \<Rightarrow> ('w, js_error, json) eff" where
  "uploadVMImage net cl url name =
     postJSON net cl ''/vm-images/upload'' (JObj (field_if_str ''name'' name [(''url'', JStr url)]))"

definition deleteVMImage :: "'w net \<Rightarrow> client \<Rightarrow> string \<Rightarrow> ('w, js_error, unit) eff" where
  "deleteVMImage net cl name = ignore_result (post net cl ''/vm-images/delete'' (JObj [(''name'', JStr name)]))"

definition startOAuth ::
  "'w net \<Rightarrow> client \<Rightarrow> string \<Rightarrow> string \<Rightarrow> string \<Rightarrow> string \<Rightarrow> ('w, js_error, json) eff"
where
  "startOAuth net cl repo name version question =
     postJSON net cl ''/packages/oauth/start''
       (JObj [(''repo'', JStr repo), (''name'', JStr name), (''version'', JStr version),
              (''question'', JStr question)])"

text \<open>The flow id is a property of the start reply, passed on as it came.\<close>

definition pollOAuth :: "'w net \<Rightarrow> client \<Rightarrow> json \<Rightarrow> ('w, js_error, json) eff" where
  "pollOAuth net cl flowId = postJSON net cl ''/packages/oauth/poll'' (JObj [(''flow_id'', flowId)])"

end
