(* ===== verification/ClientNetwork.thy ===== *)
theory ClientNetwork
  imports ClientAccount
begin

text \<open>
  The client methods about names, networks, object storage and pages:
  \<^verbatim>\<open>client-dns.js\<close>, \<^verbatim>\<open>client-networks.js\<close>, \<^verbatim>\<open>client-gfeh.js\<close> and \<^verbatim>\<open>client-pages.js\<close>.
\<close>

section \<open>DNS\<close>

definition dnsStatus :: "'w net \<Rightarrow> client \<Rightarrow> ('w, js_error, json) eff" where
  "dnsStatus net cl = getJSON net cl ''/dns/status'' []"

definition listDNSRecords :: "'w net \<Rightarrow> client \<Rightarrow> string option \<Rightarrow> ('w, js_error, json) eff" where
  "listDNSRecords net cl tld =
     getJSON net cl (''/dns/records'' @
       (if given tld then ''?tld='' @ encodeURIComponent (the tld) else [])) []"

definition addDNSRecord ::
  "'w net \<Rightarrow> client \<Rightarrow> string \<Rightarrow> int option \<Rightarrow> string \<Rightarrow> int \<Rightarrow> ('w, js_error, unit) eff"
where
  "addDNSRecord net cl name recordType value ttl =
     ignore_result (postJSON net cl ''/dns/records/add''
       (JObj [(''name'', JStr name),
              (''record_type'', case recordType of None \<Rightarrow> JUndefined | Some n \<Rightarrow> JNum n), (''value'', JStr value),
              (''ttl'', JNum ttl)]))"

definition removeDNSRecord :: "'w net \<Rightarrow> client \<Rightarrow> string \<Rightarrow> int \<Rightarrow> ('w, js_error, unit) eff" where
  "removeDNSRecord net cl name recordType =
     ignore_result (postJSON net cl ''/dns/records/remove''
       (JObj [(''name'', JStr name), (''record_type'', JNum recordType)]))"

definition getDNSTLD :: "'w net \<Rightarrow> client \<Rightarrow> ('w, js_error, json) eff" where
  "getDNSTLD net cl = getJSON net cl ''/dns/tld'' []"

definition setDNSTLD :: "'w net \<Rightarrow> client \<Rightarrow> string \<Rightarrow> ('w, js_error, unit) eff" where
  "setDNSTLD net cl tld = ignore_result (postJSON net cl ''/dns/tld'' (JObj [(''tld'', JStr tld)]))"

definition setupDNS :: "'w net \<Rightarrow> client \<Rightarrow> ('w, js_error, unit) eff" where
  "setupDNS net cl = ignore_result (postJSON net cl ''/dns/setup'' (JObj []))"

definition getDNSBLConfig :: "'w net \<Rightarrow> client \<Rightarrow> ('w, js_error, json) eff" where
  "getDNSBLConfig net cl = getJSON net cl ''/dns/dnsbl'' []"

text \<open>The default parameter \<open>refusalCooldownSecs = 0\<close> applies when the argument is \<open>undefined\<close>.\<close>

definition setDNSBLConfig :: "'w net \<Rightarrow> client \<Rightarrow> bool \<Rightarrow> json \<Rightarrow> int option \<Rightarrow> ('w, js_error, unit) eff" where
  "setDNSBLConfig net cl enabled providers refusalCooldownSecs =
     ignore_result (postJSON net cl ''/dns/dnsbl''
       (JObj [(''enabled'', JBool enabled), (''providers'', providers),
              (''refusal_cooldown_secs'',
               JNum (case refusalCooldownSecs of None \<Rightarrow> 0 | Some n \<Rightarrow> n))]))"

definition listLocalRBL :: "'w net \<Rightarrow> client \<Rightarrow> ('w, js_error, json) eff" where
  "listLocalRBL net cl = getJSON net cl ''/dns/rbl/local'' []"

definition addLocalRBL :: "'w net \<Rightarrow> client \<Rightarrow> string \<Rightarrow> string \<Rightarrow> ('w, js_error, unit) eff" where
  "addLocalRBL net cl name reason =
     ignore_result (postJSON net cl ''/dns/rbl/local/add''
       (JObj [(''name'', JStr name), (''reason'', JStr reason)]))"

definition removeLocalRBL :: "'w net \<Rightarrow> client \<Rightarrow> string \<Rightarrow> ('w, js_error, unit) eff" where
  "removeLocalRBL net cl name =
     ignore_result (postJSON net cl ''/dns/rbl/local/remove'' (JObj [(''name'', JStr name)]))"

definition listDNSBLAllowlist :: "'w net \<Rightarrow> client \<Rightarrow> ('w, js_error, json) eff" where
  "listDNSBLAllowlist net cl = getJSON net cl ''/dns/dnsbl/allowlist'' []"

definition addDNSBLAllowlist :: "'w net \<Rightarrow> client \<Rightarrow> string \<Rightarrow> string \<Rightarrow> ('w, js_error, unit) eff" where
  "addDNSBLAllowlist net cl name reason =
     ignore_result (postJSON net cl ''/dns/dnsbl/allowlist/add''
       (JObj [(''name'', JStr name), (''reason'', JStr reason)]))"

definition removeDNSBLAllowlist :: "'w net \<Rightarrow> client \<Rightarrow> string \<Rightarrow> ('w, js_error, unit) eff" where
  "removeDNSBLAllowlist net cl name =
     ignore_result (postJSON net cl ''/dns/dnsbl/allowlist/remove'' (JObj [(''name'', JStr name)]))"

definition listDNSServices :: "'w net \<Rightarrow> client \<Rightarrow> ('w, js_error, json) eff" where
  "listDNSServices net cl = getJSON net cl ''/dns/services'' []"

definition setDNSService :: "'w net \<Rightarrow> client \<Rightarrow> string \<Rightarrow> string \<Rightarrow> bool \<Rightarrow> ('w, js_error, unit) eff" where
  "setDNSService net cl repo name published =
     ignore_result (postJSON net cl ''/dns/services/set''
       (JObj [(''repo'', JStr repo), (''name'', JStr name), (''published'', JBool published)]))"

section \<open>Networks\<close>

definition network_query :: "string \<Rightarrow> string" where
  "network_query network = ''network='' @ encodeURIComponent network"

definition listNetworks :: "'w net \<Rightarrow> client \<Rightarrow> ('w, js_error, json) eff" where
  "listNetworks net cl = getJSON net cl ''/networks'' []"

definition createNetwork :: "'w net \<Rightarrow> client \<Rightarrow> string \<Rightarrow> string option \<Rightarrow> ('w, js_error, json) eff" where
  "createNetwork net cl name tld =
     postJSON net cl ''/networks/create'' (JObj [(''name'', JStr name), (''tld'', opt_str tld)])"

definition removeNetwork :: "'w net \<Rightarrow> client \<Rightarrow> string \<Rightarrow> ('w, js_error, unit) eff" where
  "removeNetwork net cl name =
     ignore_result (postJSON net cl ''/networks/remove'' (JObj [(''name'', JStr name)]))"

definition enableNetwork :: "'w net \<Rightarrow> client \<Rightarrow> string \<Rightarrow> ('w, js_error, unit) eff" where
  "enableNetwork net cl name =
     ignore_result (postJSON net cl ''/networks/enable'' (JObj [(''name'', JStr name)]))"

definition disableNetwork :: "'w net \<Rightarrow> client \<Rightarrow> string \<Rightarrow> ('w, js_error, unit) eff" where
  "disableNetwork net cl name =
     ignore_result (postJSON net cl ''/networks/disable'' (JObj [(''name'', JStr name)]))"

definition listNetworkPeers :: "'w net \<Rightarrow> client \<Rightarrow> string \<Rightarrow> ('w, js_error, json) eff" where
  "listNetworkPeers net cl network = getJSON net cl (''/networks/peers?'' @ network_query network) []"

definition listConnectedPeers :: "'w net \<Rightarrow> client \<Rightarrow> ('w, js_error, json) eff" where
  "listConnectedPeers net cl = getJSON net cl ''/networks/peers/connected'' []"

definition addNetworkPeer ::
  "'w net \<Rightarrow> client \<Rightarrow> string \<Rightarrow> string \<Rightarrow> string option \<Rightarrow> string option \<Rightarrow> bool \<Rightarrow>
   ('w, js_error, json) eff"
where
  "addNetworkPeer net cl network name publicKey endpoint rolodex =
     postJSON net cl ''/networks/peers/add''
       (JObj [(''network'', JStr network), (''name'', JStr name), (''public_key'', opt_str publicKey),
              (''endpoint'', opt_str endpoint), (''rolodex'', JBool rolodex)])"

definition removeNetworkPeer :: "'w net \<Rightarrow> client \<Rightarrow> string \<Rightarrow> string \<Rightarrow> ('w, js_error, unit) eff" where
  "removeNetworkPeer net cl network publicKey =
     ignore_result (postJSON net cl ''/networks/peers/remove''
       (JObj [(''network'', JStr network), (''public_key'', JStr publicKey)]))"

section \<open>Object storage\<close>

definition listGfehPartitions :: "'w net \<Rightarrow> client \<Rightarrow> ('w, js_error, json) eff" where
  "listGfehPartitions net cl = getJSON net cl ''/gfeh'' []"

definition listGfehPrincipals :: "'w net \<Rightarrow> client \<Rightarrow> string \<Rightarrow> ('w, js_error, json) eff" where
  "listGfehPrincipals net cl network = getJSON net cl (''/gfeh/principals?'' @ network_query network) []"

definition addGfehPrincipal :: "'w net \<Rightarrow> client \<Rightarrow> string \<Rightarrow> string \<Rightarrow> ('w, js_error, json) eff" where
  "addGfehPrincipal net cl network princ =
     postJSON net cl ''/gfeh/principals/add''
       (JObj [(''network'', JStr network), (''principal'', JStr princ)])"

definition removeGfehPrincipal :: "'w net \<Rightarrow> client \<Rightarrow> string \<Rightarrow> string \<Rightarrow> ('w, js_error, unit) eff" where
  "removeGfehPrincipal net cl network princ =
     ignore_result (postJSON net cl ''/gfeh/principals/remove''
       (JObj [(''network'', JStr network), (''principal'', JStr princ)]))"

definition listGfehGrants :: "'w net \<Rightarrow> client \<Rightarrow> string \<Rightarrow> string \<Rightarrow> ('w, js_error, json) eff" where
  "listGfehGrants net cl network princ =
     (let q = network_query network @ ''&principal='' @ encodeURIComponent princ
      in getJSON net cl (''/gfeh/grants?'' @ q) [])"

definition addGfehGrant ::
  "'w net \<Rightarrow> client \<Rightarrow> string \<Rightarrow> string \<Rightarrow> string \<Rightarrow> string list \<Rightarrow> bool \<Rightarrow> ('w, js_error, json) eff"
where
  "addGfehGrant net cl network princ path perm inheritable =
     postJSON net cl ''/gfeh/grants/add''
       (JObj [(''network'', JStr network), (''principal'', JStr princ), (''path'', JStr path),
              (''perm'', str_list perm), (''inheritable'', JBool inheritable)])"

definition revokeGfehGrant :: "'w net \<Rightarrow> client \<Rightarrow> string \<Rightarrow> int \<Rightarrow> ('w, js_error, unit) eff" where
  "revokeGfehGrant net cl network grant_id =
     ignore_result (postJSON net cl ''/gfeh/grants/revoke''
       (JObj [(''network'', JStr network), (''id'', JNum grant_id)]))"

definition listGfehExposures :: "'w net \<Rightarrow> client \<Rightarrow> string \<Rightarrow> ('w, js_error, json) eff" where
  "listGfehExposures net cl network = getJSON net cl (''/gfeh/exposures?'' @ network_query network) []"

definition withdrawGfehExposure :: "'w net \<Rightarrow> client \<Rightarrow> string \<Rightarrow> string \<Rightarrow> ('w, js_error, unit) eff" where
  "withdrawGfehExposure net cl network tok =
     ignore_result (postJSON net cl ''/gfeh/exposures/withdraw''
       (JObj [(''network'', JStr network), (''token'', JStr tok)]))"

section \<open>Pages\<close>

definition create_page_body ::
  "string \<Rightarrow> string option \<Rightarrow> string option \<Rightarrow> string option \<Rightarrow> string option \<Rightarrow>
   string option \<Rightarrow> string option \<Rightarrow> string option \<Rightarrow> json"
where
  "create_page_body name repoURL branch domain sourceType img imageDirectory network =
     JObj (field_if_str ''network'' network
       [(''name'', JStr name), (''repo_url'', JStr (str_or repoURL [])),
        (''branch'', JStr (str_or branch [])), (''domain'', JStr (str_or domain [])),
        (''source_type'', JStr (str_or sourceType ''archive'')),
        (''image'', JStr (str_or img [])), (''image_directory'', JStr (str_or imageDirectory []))])"

definition createPage ::
  "'w net \<Rightarrow> client \<Rightarrow> string \<Rightarrow> string option \<Rightarrow> string option \<Rightarrow> string option \<Rightarrow>
   string option \<Rightarrow> string option \<Rightarrow> string option \<Rightarrow> string option \<Rightarrow> ('w, js_error, json) eff"
where
  "createPage net cl name repoURL branch domain sourceType img imageDirectory network =
     postJSON net cl ''/pages/create''
       (create_page_body name repoURL branch domain sourceType img imageDirectory network)"

definition updatePage :: "'w net \<Rightarrow> client \<Rightarrow> string \<Rightarrow> json \<Rightarrow> ('w, js_error, json) eff" where
  "updatePage net cl name changes =
     postJSON net cl ''/pages/update'' (JObj [(''name'', JStr name), (''fields'', changes)])"

definition removePage :: "'w net \<Rightarrow> client \<Rightarrow> string \<Rightarrow> ('w, js_error, unit) eff" where
  "removePage net cl name = ignore_result (post net cl ''/pages/remove'' (JObj [(''name'', JStr name)]))"

definition listPages ::
  "'w net \<Rightarrow> client \<Rightarrow> string option \<Rightarrow> string option \<Rightarrow> int option \<Rightarrow> int option \<Rightarrow>
   string option \<Rightarrow> ('w, js_error, json) eff"
where
  "listPages net cl sortBy sortOrder limit offset search =
     getJSON net cl (''/pages'' @ query_suffix (paging_params sortBy sortOrder limit offset search)) []"

definition rebuildPage :: "'w net \<Rightarrow> client \<Rightarrow> string \<Rightarrow> ('w, js_error, json) eff" where
  "rebuildPage net cl name = postJSON net cl ''/pages/rebuild'' (JObj [(''name'', JStr name)])"

text \<open>
  The page upload sends its \<open>Authorization\<close> header unconditionally, accepts any
  2xx status, and on a failure awaits the response text without a fallback, so a
  body that breaks off replaces the \<open>ApiError\<close> by the read error.
\<close>

definition uploadPageArchive :: "'w net \<Rightarrow> client \<Rightarrow> string \<Rightarrow> string \<Rightarrow> ('w, js_error, json) eff" where
  "uploadPageArchive net cl name file =
     eff_bind
       (net \<lparr>rq_method = ''POST'', rq_url = baseURL cl @ ''/pages/upload'',
             rq_headers = [(''Authorization'', bearer (token cl))],
             rq_body = FormBody [(''name'', FormText name), (''archive'', FormFile file)]\<rparr>)
       (\<lambda>resp. if \<not> rs_ok resp
          then (case response_text resp of
                  Inl e \<Rightarrow> eff_throw e
                | Inr text \<Rightarrow> eff_throw (ApiErr (makeApiError ''POST'' ''/pages/upload'' (rs_status resp) text)))
          else eff_lift (response_json resp))"

end
