(* ===== verification/QueryString.thy ===== *)
theory QueryString
  imports HttpCore
begin

text \<open>
  What a server reads from the query strings the client builds.  The interface
  \<open>query_codec\<close> states what a percent encoding has to promise (it decodes to the
  value it was made from, and it never emits a delimiter); the round trip of a
  whole query string is proved once from it and holds for both encodings the
  client uses, \<open>URLSearchParams\<close> and \<open>encodeURIComponent\<close>.
\<close>

section \<open>Decoding\<close>

text \<open>\<open>application/x-www-form-urlencoded\<close> decoding of one component.\<close>

fun form_decode :: "string \<Rightarrow> string option" where
  "form_decode [] = Some []"
| "form_decode (c # s) =
     (if c = CHR ''%'' then
        (case s of
           a # b # t \<Rightarrow>
             (case (hex_val a, hex_val b) of
                (Some x, Some y) \<Rightarrow> map_option (\<lambda>r. char_of (16 * x + y) # r) (form_decode t)
              | _ \<Rightarrow> None)
         | _ \<Rightarrow> None)
      else map_option (\<lambda>r. (if c = CHR ''+'' then CHR '' '' else c) # r) (form_decode s))"

definition cut_at :: "char \<Rightarrow> string \<Rightarrow> string \<times> string" where
  "cut_at d s = (takeWhile (\<lambda>c. c \<noteq> d) s, drop 1 (dropWhile (\<lambda>c. c \<noteq> d) s))"

definition decode_pair :: "string \<Rightarrow> (string \<times> string) option" where
  "decode_pair s =
     (let (k, v) = cut_at (CHR ''='') s in
      case (form_decode k, form_decode v) of (Some k', Some v') \<Rightarrow> Some (k', v') | _ \<Rightarrow> None)"

fun decode_all :: "string list \<Rightarrow> search_params option" where
  "decode_all [] = Some []"
| "decode_all (s # ss) =
     (case (decode_pair s, decode_all ss) of (Some p, Some ps) \<Rightarrow> Some (p # ps) | _ \<Rightarrow> None)"

definition parse_query :: "string \<Rightarrow> search_params option" where
  "parse_query s = (if s = [] then Some [] else decode_all (split_on (CHR ''&'') s))"

section \<open>The interface of a component encoding\<close>

locale query_codec =
  fixes enc :: "string \<Rightarrow> string"
  assumes dec_enc: "form_decode (enc s) = Some s"
    and no_amp: "CHR ''&'' \<notin> set (enc s)"
    and no_eq: "CHR ''='' \<notin> set (enc s)"
begin

lemma decode_pair_enc: "decode_pair (enc k @ CHR ''='' # enc v) = Some (k, v)"
proof -
  have "takeWhile (\<lambda>c. c \<noteq> CHR ''='') (enc k @ CHR ''='' # enc v) = enc k"
    using no_eq [of k] by (subst takeWhile_append2) auto
  moreover have "dropWhile (\<lambda>c. c \<noteq> CHR ''='') (enc k @ CHR ''='' # enc v) = CHR ''='' # enc v"
    using no_eq [of k] by (subst dropWhile_append2) auto
  ultimately show ?thesis
    by (simp add: decode_pair_def cut_at_def dec_enc)
qed

lemma parse_pairs:
  "ps \<noteq> [] \<Longrightarrow> parse_query (join ''&'' (map (\<lambda>(k, v). enc k @ ''='' @ enc v) ps)) = Some ps"
proof -
  assume ne: "ps \<noteq> []"
  let ?f = "\<lambda>(k, v). enc k @ ''='' @ enc v"
  have fresh: "CHR ''&'' \<notin> set (?f p)" for p
    using no_amp by (cases p) auto
  have "split_on (CHR ''&'') (join ''&'' (map ?f ps)) = map ?f ps \<and> decode_all (map ?f ps) = Some ps"
    using ne
  proof (induction ps)
    case Nil
    then show ?case by simp
  next
    case (Cons p ps)
    have d: "decode_pair (?f p) = Some p"
      by (cases p) (simp add: decode_pair_enc)
    show ?case
    proof (cases "ps = []")
      case True
      then show ?thesis using d fresh [of p] by (simp add: split_on_fresh)
    next
      case False
      then have "join ''&'' (map ?f (p # ps)) = ?f p @ CHR ''&'' # join ''&'' (map ?f ps)"
        by (simp add: join_Cons)
      then show ?thesis
        using Cons False d fresh [of p] by (simp add: split_on_delim split_on_fresh)
    qed
  qed
  moreover have "join ''&'' (map ?f ps) \<noteq> []"
  proof (cases ps)
    case (Cons p qs)
    then show ?thesis by (cases qs) (auto split: prod.splits)
  qed (use ne in simp)
  ultimately show ?thesis by (simp add: parse_query_def)
qed

end

section \<open>Both encodings provide it\<close>

lemma hex_val_upper: "n < 16 \<Longrightarrow> hex_val (upper_hex n) = Some n"
  by (simp add: hex_val_def upper_hex_def Let_def)

lemma nibbles: "n < 256 \<Longrightarrow> n div 16 < 16 \<and> n mod 16 < (16 :: nat)"
  by auto

lemma form_decode_percent: "form_decode (percent c @ s) = map_option (\<lambda>r. c # r) (form_decode s)"
proof -
  define n where "n = (of_char c :: nat)"
  have "n < 256" by (simp add: n_def)
  then have "n div 16 < 16" "n mod 16 < 16" by auto
  then show ?thesis
    by (simp add: percent_def Let_def hex_val_upper flip: n_def) (simp add: n_def)
qed

lemma upper_hex_plain: "n < 16 \<Longrightarrow> is_digit (upper_hex n) \<or> is_alpha (upper_hex n)"
  by (auto simp: upper_hex_def is_digit_def is_alpha_def)

lemma percent_chars:
  assumes "d \<in> set (percent c)"
  shows "d = CHR ''%'' \<or> is_digit d \<or> is_alpha d"
proof -
  have "(of_char c :: nat) < 256" by simp
  from nibbles [OF this] show ?thesis
    using assms upper_hex_plain [of "of_char c div 16"] upper_hex_plain [of "of_char c mod 16"]
    by (auto simp: percent_def Let_def)
qed

lemma plain_char_neq:
  "is_digit c \<or> is_alpha c \<Longrightarrow>
   c \<notin> {CHR ''%'', CHR ''+'', CHR ''&'', CHR ''='', CHR '' '', CHR ''#'', CHR ''?'', CHR ''/''}"
  by (auto simp: is_digit_def is_alpha_def)

lemma form_decode_plain: "c \<noteq> CHR ''%'' \<Longrightarrow> c \<noteq> CHR ''+'' \<Longrightarrow> form_decode (c # s) = map_option (\<lambda>r. c # r) (form_decode s)"
  by simp

text \<open>An encoding that percent-encodes everything outside a plain set decodes back.\<close>

lemma form_decode_form_encode: "form_decode (form_encode s) = Some s"
proof (induction s)
  case Nil
  then show ?case by (simp add: form_encode_def)
next
  case (Cons c s)
  have "form_unreserved c \<Longrightarrow> c \<noteq> CHR ''%'' \<and> c \<noteq> CHR ''+''"
    using plain_char_neq [of c] by (auto simp: form_unreserved_def)
  with Cons show ?case
    by (auto simp: form_encode_def form_decode_percent simp del: form_decode.simps(2)) (simp_all add: form_decode_plain)
qed

lemma form_decode_encodeURIComponent: "form_decode (encodeURIComponent s) = Some s"
proof (induction s)
  case Nil
  then show ?case by (simp add: encodeURIComponent_def)
next
  case (Cons c s)
  have "uri_unreserved c \<Longrightarrow> c \<noteq> CHR ''%'' \<and> c \<noteq> CHR ''+''"
    using plain_char_neq [of c] by (auto simp: uri_unreserved_def)
  with Cons show ?case
    by (auto simp: encodeURIComponent_def form_decode_percent form_decode_plain simp del: form_decode.simps(2))
qed

lemma encodeURIComponent_chars: "d \<in> set (encodeURIComponent s) \<Longrightarrow> uri_unreserved d \<or> d = CHR ''%''"
  by (auto simp: encodeURIComponent_def uri_unreserved_def split: if_splits dest: percent_chars)

lemma encodeURIComponent_safe:
  "d \<in> set (encodeURIComponent s) \<Longrightarrow>
   d \<notin> {CHR ''&'', CHR ''='', CHR ''+'', CHR ''#'', CHR ''?'', CHR ''/'', CHR '' ''}"
  using encodeURIComponent_chars [of d s] plain_char_neq [of d]
  by (auto simp: uri_unreserved_def)

lemma form_encode_chars: "d \<in> set (form_encode s) \<Longrightarrow> form_unreserved d \<or> d = CHR ''%'' \<or> d = CHR ''+''"
  by (auto simp: form_encode_def form_unreserved_def split: if_splits dest: percent_chars)

lemma form_encode_safe:
  "d \<in> set (form_encode s) \<Longrightarrow>
   d \<notin> {CHR ''&'', CHR ''='', CHR ''#'', CHR ''?'', CHR ''/'', CHR '' ''}"
  using form_encode_chars [of d s] plain_char_neq [of d]
  by (auto simp: form_unreserved_def)

interpretation form: query_codec form_encode
  by unfold_locales (auto simp: form_decode_form_encode dest: form_encode_safe)

interpretation uri: query_codec encodeURIComponent
  by unfold_locales (auto simp: form_decode_encodeURIComponent dest: encodeURIComponent_safe)

section \<open>The query strings of the client\<close>

lemma parse_params_string: "parse_query (params_string ps) = Some ps"
proof (cases "ps = []")
  case True
  then show ?thesis by (simp add: params_string_def parse_query_def)
next
  case False
  then show ?thesis using form.parse_pairs by (simp add: params_string_def)
qed

lemma params_string_empty: "params_string ps = [] \<longleftrightarrow> ps = []"
proof
  assume "params_string ps = []"
  then have "parse_query [] = Some ps" using parse_params_string [of ps] by simp
  then show "ps = []" by (simp add: parse_query_def)
qed (simp add: params_string_def)

text \<open>A parameter that was not given leaves the query alone; one that was given is stored under its key.\<close>

lemma keys_params_set: "fst ` set (params_set ps k v) = insert k (fst ` set ps)"
  by (induction ps k v rule: params_set.induct) force+

lemma params_set_fresh: "k \<notin> fst ` set ps \<Longrightarrow> params_set ps k v = ps @ [(k, v)]"
  by (induction ps k v rule: params_set.induct) auto

lemma params_set_distinct: "distinct (map fst ps) \<Longrightarrow> distinct (map fst (params_set ps k v))"
proof (induction ps k v rule: params_set.induct)
  case (2 l u ps k v)
  then show ?case
    using keys_params_set [of ps k v] by (auto simp: distinct_map_filter)
qed simp

lemma map_of_filter_neq: "m \<noteq> k \<Longrightarrow> map_of (filter (\<lambda>(m, _). m \<noteq> k) ps) m = map_of ps m"
  by (induction ps) auto

lemma map_of_params_set: "map_of (params_set ps k v) = (map_of ps)(k \<mapsto> v)"
  by (induction ps k v rule: params_set.induct) (auto simp: fun_eq_iff map_of_filter_neq)

end
