(* ===== verification/SseStream.thy ===== *)
theory SseStream
  imports QueryString
begin

text \<open>
  The event streams of the API.  Four places of the client read a response body
  chunk by chunk, cut it into lines and look at the lines that begin with
  \<^verbatim>\<open>data: \<close>: \<^verbatim>\<open>readProgressStream\<close> of \<^verbatim>\<open>ui/src/api/progress.js\<close>, the two log
  replays of \<^verbatim>\<open>client-unit.js\<close> and \<^verbatim>\<open>observeBootStatus\<close> of \<^verbatim>\<open>client-boot.js\<close>.
  The loop is written once, over the handler of one line; the handlers differ.

  The lemmas show that a reader sees the stream, not its chunks: how the network
  cuts the body has no influence on the result.
\<close>

definition newline :: char where
  "newline = CHR 0x0A"

section \<open>The read loop\<close>

text \<open>
  \<open>buffer += chunk; lines = buffer.split('\n'); buffer = lines.pop()\<close>
\<close>

definition feed :: "string \<Rightarrow> string \<Rightarrow> string list \<times> string" where
  "feed buffer chunk = (let lines = split_on newline (buffer @ chunk) in (butlast lines, last lines))"

text \<open>
  The inner loop over the lines: the handler returns the next state, or a result
  that ends the reader.
\<close>

fun run_lines :: "('s \<Rightarrow> string \<Rightarrow> 's + 'r) \<Rightarrow> 's \<Rightarrow> string list \<Rightarrow> 's + 'r" where
  "run_lines handler s [] = Inl s"
| "run_lines handler s (l # ls) =
     (case handler s l of Inr r \<Rightarrow> Inr r | Inl s' \<Rightarrow> run_lines handler s' ls)"

text \<open>The outer loop over the chunks: the state and the unfinished line when the body ends.\<close>

fun run_chunks :: "('s \<Rightarrow> string \<Rightarrow> 's + 'r) \<Rightarrow> 's \<Rightarrow> string \<Rightarrow> string list \<Rightarrow> ('s \<times> string) + 'r" where
  "run_chunks handler s buffer [] = Inl (s, buffer)"
| "run_chunks handler s buffer (c # cs) =
     (let (lines, buffer') = feed buffer c in
      case run_lines handler s lines of
        Inr r \<Rightarrow> Inr r
      | Inl s' \<Rightarrow> run_chunks handler s' buffer' cs)"

definition data_prefix :: string where
  "data_prefix = ''data: ''"

section \<open>Progress streams\<close>

text \<open>
  The state is the list of steps reported so far; the result pairs it with how the
  reader ended: \<open>Inr ()\<close> is a normal return, \<open>Inl e\<close> a thrown error.
\<close>

definition progress_handler :: "json list \<Rightarrow> string \<Rightarrow> json list + (json list \<times> (js_error + unit))" where
  "progress_handler steps line =
     (if \<not> starts_with data_prefix line then Inl steps
      else (case parse_json (drop 6 line) of
          None \<Rightarrow> Inl steps
        | Some msg \<Rightarrow>
            (case (js_prop msg ''error'', js_prop msg ''step'', js_prop msg ''done'') of
               (Some e, Some st, Some d) \<Rightarrow>
                 if truthy e then Inr (steps, Inl (PlainErr (js_string e)))
                 else (let steps' = (if truthy st then steps @ [st] else steps)
                       in if truthy d then Inr (steps', Inr ()) else Inl steps')
             | _ \<Rightarrow> Inr (steps, Inl TypeErr))))"

definition readProgressStream :: "response \<Rightarrow> json list \<times> (js_error + unit)" where
  "readProgressStream resp =
     (case run_chunks progress_handler [] [] (rs_chunks resp) of
        Inr r \<Rightarrow> r
      | Inl (steps, _) \<Rightarrow>
          (steps, if rs_broken resp then Inl (NetworkErr ''network error'') else Inr ()))"

section \<open>Log replay\<close>

text \<open>
  The generator of \<open>logReplay\<close> and \<open>logReplayTree\<close>: every data line is yielded, a
  line that is not JSON throws, and an unterminated last line is read as well.
\<close>

definition replay_handler :: "json list \<Rightarrow> string \<Rightarrow> json list + (json list \<times> (js_error + unit))" where
  "replay_handler entries line =
     (if \<not> starts_with data_prefix line then Inl entries
      else (case parse_json (drop 6 line) of
          None \<Rightarrow> Inr (entries, Inl SyntaxErr)
        | Some v \<Rightarrow> Inl (entries @ [v])))"

definition replay_stream :: "response \<Rightarrow> json list \<times> (js_error + unit)" where
  "replay_stream resp =
     (case run_chunks replay_handler [] [] (rs_chunks resp) of
        Inr r \<Rightarrow> r
      | Inl (entries, buffer) \<Rightarrow>
          if rs_broken resp then (entries, Inl (NetworkErr ''network error''))
          else (case replay_handler entries buffer of
                  Inr r \<Rightarrow> r
                | Inl entries' \<Rightarrow> (entries', Inr ())))"

section \<open>A reader sees the stream, not its chunks\<close>

lemma run_lines_append:
  "run_lines h s (xs @ ys) = (case run_lines h s xs of Inr r \<Rightarrow> Inr r | Inl s' \<Rightarrow> run_lines h s' ys)"
  by (induction h s xs rule: run_lines.induct) (auto split: sum.splits)

lemma split_on_buffer:
  "split_on d (a @ b) = butlast (split_on d a) @ split_on d (last (split_on d a) @ b)"
proof -
  have fresh: "d \<notin> set (last (split_on d a))"
    using last_in_set [OF split_on_nonempty] split_on_no_delim by metis
  show ?thesis
    using split_on_append [of d a b] split_on_append [of d "last (split_on d a)" b] split_on_fresh [OF fresh]
    by simp
qed

lemma run_chunks_concat:
  assumes "newline \<notin> set buffer"
  shows "run_chunks h s buffer cs =
    (let lines = split_on newline (buffer @ concat cs) in
     case run_lines h s (butlast lines) of Inr r \<Rightarrow> Inr r | Inl s' \<Rightarrow> Inl (s', last lines))"
  using assms
proof (induction h s buffer cs rule: run_chunks.induct)
  case (1 h s buffer)
  then show ?case by (simp add: split_on_fresh)
next
  case (2 h s buffer c cs)
  let ?f = "split_on newline (buffer @ c)"
  let ?rest = "split_on newline (last ?f @ concat cs)"
  have fresh: "newline \<notin> set (last ?f)"
    using last_in_set [OF split_on_nonempty] split_on_no_delim by metis
  have split: "split_on newline (buffer @ concat (c # cs)) = butlast ?f @ ?rest"
    using split_on_buffer [of newline "buffer @ c" "concat cs"] by simp
  have parts: "butlast (butlast ?f @ ?rest) = butlast ?f @ butlast ?rest" "last (butlast ?f @ ?rest) = last ?rest"
    by (simp_all add: butlast_append)
  show ?case
  proof (cases "run_lines h s (butlast ?f)")
    case (Inr r)
    then show ?thesis
      unfolding split Let_def parts by (simp add: feed_def Let_def run_lines_append)
  next
    case (Inl s')
    have "run_chunks h s' (last ?f) cs =
      (case run_lines h s' (butlast ?rest) of Inr r \<Rightarrow> Inr r | Inl s'' \<Rightarrow> Inl (s'', last ?rest))"
      using "2.IH" [OF _ _ Inl fresh] by (simp add: feed_def Let_def)
    with Inl show ?thesis
      unfolding split Let_def parts by (simp add: feed_def Let_def run_lines_append split: sum.splits)
  qed
qed

lemma run_chunks_start:
  "run_chunks h s [] cs =
    (let lines = split_on newline (concat cs) in
     case run_lines h s (butlast lines) of Inr r \<Rightarrow> Inr r | Inl s' \<Rightarrow> Inl (s', last lines))"
  using run_chunks_concat [of "[]"] by simp

lemma run_chunks_cong: "concat cs = concat ds \<Longrightarrow> run_chunks h s [] cs = run_chunks h s [] ds"
  by (simp add: run_chunks_start)

section \<open>Frames\<close>

text \<open>One event as the server writes it: \<^verbatim>\<open>data: <json>\<close>, a newline and a blank line.\<close>

definition sse_frame :: "json \<Rightarrow> string" where
  "sse_frame v = data_prefix @ stringify v @ [newline, newline]"

lemma nat_str_no_newline: "newline \<notin> set (nat_str n)"
  using nat_str_digits [of n] by (auto simp: list_all_iff newline_def is_digit_def)

lemma int_str_no_newline: "newline \<notin> set (int_str i)"
  by (simp add: int_str_def nat_str_no_newline) (simp add: newline_def)

lemma frac_str_no_newline: "newline \<notin> set (frac_str m e)"
proof -
  let ?p = "replicate (Suc e - length (nat_str (nat \<bar>m\<bar>))) CHR ''0'' @ nat_str (nat \<bar>m\<bar>)"
  have p: "newline \<notin> set ?p"
    using nat_str_no_newline by (auto simp: newline_def)
  have "frac_str m e = (if m < 0 then ''-'' else []) @ take (length ?p - e) ?p @ ''.'' @ drop (length ?p - e) ?p"
    by (simp only: frac_str_def Let_def)
  moreover have "newline \<notin> set (take (length ?p - e) ?p)" "newline \<notin> set (drop (length ?p - e) ?p)"
    using p in_set_takeD in_set_dropD by metis+
  ultimately show ?thesis by (auto simp: newline_def split: if_splits)
qed

lemma hex_digit_no_newline: "k < 16 \<Longrightarrow> hex_digit k \<noteq> newline"
proof
  assume "k < 16" "hex_digit k = newline"
  moreover have "(of_char (hex_digit k) :: nat) \<ge> 48" if "k < 16"
    using that by (simp add: hex_digit_def)
  ultimately show False by (simp add: newline_def)
qed

lemma escape_no_newline: "newline \<notin> set (escape_char c)"
proof -
  define n where "n = (of_char c :: nat)"
  have c: "newline \<noteq> c" if "n \<noteq> 10"
  proof
    assume "newline = c"
    then have "n = of_char newline" by (simp add: n_def)
    with that show False by (simp add: newline_def)
  qed
  have h: "newline \<noteq> hex_digit (n div 16)" "newline \<noteq> hex_digit (n mod 16)"
    using hex_digit_no_newline [of "n mod 16"] hex_digit_no_newline [of "n div 16"] nibbles [of n]
    by (auto simp: n_def)
  have lits: "newline \<notin> set [CHR 0x5C, CHR 0x22, CHR ''b'', CHR ''f'', CHR ''n'', CHR ''r'', CHR ''t'', CHR ''u'', CHR ''0'']"
    by (simp add: newline_def)
  show ?thesis
    unfolding escape_char_def Let_def n_def [symmetric] using lits h c by simp
qed

lemma quote_no_newline: "newline \<notin> set (quote_json s)"
  using escape_no_newline by (auto simp: quote_json_def newline_def)

lemma join_no_char: "d \<notin> set sep \<Longrightarrow> \<forall>x \<in> set xs. d \<notin> set x \<Longrightarrow> d \<notin> set (join sep xs)"
  by (induction sep xs rule: join.induct) auto

lemma stringify_no_newline: "newline \<notin> set (stringify v)"
proof (induction v rule: stringify.induct)
  case (7 xs)
  then have "newline \<notin> set (join '','' (map stringify xs))"
    by (intro join_no_char) (auto simp: newline_def)
  then show ?case by (auto simp: newline_def)
next
  case (8 kvs)
  have "newline \<notin> set (join '','' (map (\<lambda>(k, v). quote_json k @ '':'' @ stringify v) (filter (\<lambda>(k, v). v \<noteq> JUndefined) kvs)))"
    using "8.IH" quote_no_newline by (intro join_no_char) (auto simp: newline_def)
  then show ?case by (auto simp: newline_def)
qed (simp_all add: int_str_no_newline frac_str_no_newline quote_no_newline, simp_all add: newline_def)

lemma split_frames:
  "split_on newline (concat (map sse_frame vs) @ tail) =
     concat (map (\<lambda>v. [data_prefix @ stringify v, []]) vs) @ split_on newline tail"
proof (induction vs)
  case Nil
  then show ?case by simp
next
  case (Cons v vs)
  have "newline \<notin> set (data_prefix @ stringify v)"
    using stringify_no_newline by (auto simp: data_prefix_def newline_def)
  then have "split_on newline ((data_prefix @ stringify v) @ newline # newline # x) =
      [data_prefix @ stringify v, []] @ split_on newline x" for x
    by (simp add: split_on_delim split_on_fresh del: append_assoc)
  with Cons show ?case by (simp add: sse_frame_def)
qed

lemma butlast_append_nonempty: "ys \<noteq> [] \<Longrightarrow> butlast (xs @ ys) = xs @ butlast ys"
  by (simp add: butlast_append)

text \<open>The lines of a stream of frames, whatever the chunks.\<close>

lemma run_chunks_frames:
  "concat cs = concat (map sse_frame vs) \<Longrightarrow>
   run_chunks h s [] cs =
     (case run_lines h s (concat (map (\<lambda>v. [data_prefix @ stringify v, []]) vs)) of
        Inr r \<Rightarrow> Inr r | Inl s' \<Rightarrow> Inl (s', []))"
  using split_frames [of vs "[]"] by (simp add: run_chunks_start butlast_append split: sum.split)

lemma starts_data [simp]: "length data_prefix = 6" "drop 6 data_prefix = []"
  "\<not> starts_with data_prefix []"
  by (simp_all add: data_prefix_def)

lemma replay_frames:
  "\<forall>v \<in> set vs. json_ok v \<Longrightarrow>
   run_lines replay_handler es (concat (map (\<lambda>v. [data_prefix @ stringify v, []]) vs)) = Inl (es @ vs)"
  by (induction vs arbitrary: es) (auto simp: replay_handler_def parse_stringify)

lemma replay_stream_frames:
  "\<forall>v \<in> set vs. json_ok v \<Longrightarrow> concat (rs_chunks resp) = concat (map sse_frame vs) \<Longrightarrow>
   \<not> rs_broken resp \<Longrightarrow> replay_stream resp = (vs, Inr ())"
  using replay_frames [of vs "[]"]
  by (simp add: replay_stream_def run_chunks_frames) (simp add: replay_handler_def)

section \<open>The reported steps\<close>

definition step_event :: "string \<Rightarrow> json" where
  "step_event st = JObj [(''step'', JStr st)]"

definition done_event :: json where
  "done_event = JObj [(''done'', JBool True)]"

definition error_event :: "string \<Rightarrow> json" where
  "error_event e = JObj [(''error'', JStr e)]"

lemma events_ok [simp]: "json_ok (step_event st)" "json_ok done_event" "json_ok (error_event e)"
  by (simp_all add: step_event_def done_event_def error_event_def)

lemma progress_handler_events:
  "st \<noteq> [] \<Longrightarrow> progress_handler ss (data_prefix @ stringify (step_event st)) = Inl (ss @ [JStr st])"
  "progress_handler ss (data_prefix @ stringify done_event) = Inr (ss, Inr ())"
  "e \<noteq> [] \<Longrightarrow> progress_handler ss (data_prefix @ stringify (error_event e)) = Inr (ss, Inl (PlainErr e))"
  "progress_handler ss [] = Inl ss"
  by (simp_all add: progress_handler_def parse_stringify del: stringify.simps)
    (simp_all add: step_event_def done_event_def error_event_def js_prop_def)

lemma progress_steps:
  "\<forall>st \<in> set sts. st \<noteq> [] \<Longrightarrow>
   run_lines progress_handler ss (concat (map (\<lambda>v. [data_prefix @ stringify v, []]) (map step_event sts))) =
     Inl (ss @ map JStr sts)"
  by (induction sts arbitrary: ss) (auto simp: progress_handler_events)

lemma run_lines_stop: "run_lines h s xs = Inr r \<Longrightarrow> run_lines h s (xs @ ys) = Inr r"
  by (simp add: run_lines_append)

text \<open>A body that begins with frames; the rest never matters once a handler has stopped.\<close>

lemma run_chunks_prefix:
  assumes "concat cs = concat (map sse_frame vs) @ rest"
    and "run_lines h s (concat (map (\<lambda>v. [data_prefix @ stringify v, []]) vs)) = Inr r"
  shows "run_chunks h s [] cs = Inr r"
proof -
  let ?ls = "concat (map (\<lambda>v. [data_prefix @ stringify v, []]) vs)"
  have "butlast (split_on newline (concat cs)) = ?ls @ butlast (split_on newline rest)"
    unfolding assms(1) split_frames by (simp add: butlast_append)
  then show ?thesis
    using run_lines_stop [OF assms(2)] by (simp add: run_chunks_start Let_def)
qed

section \<open>Properties\<close>

definition step_frames :: "string list \<Rightarrow> string" where
  "step_frames steps = concat (map (sse_frame \<circ> step_event) steps)"

lemma step_frames_then: "step_frames steps @ sse_frame v = concat (map sse_frame (map step_event steps @ [v]))"
  by (simp add: step_frames_def comp_def)

lemma progress_until:
  assumes "\<forall>st\<in>set steps. st \<noteq> []" "concat (rs_chunks resp) = step_frames steps @ sse_frame v @ rest"
    and "progress_handler (map JStr steps) (data_prefix @ stringify v) = Inr r"
  shows "readProgressStream resp = r"
proof -
  have "concat (rs_chunks resp) = concat (map sse_frame (map step_event steps @ [v])) @ rest"
    using assms(2) step_frames_then [of steps v] by (metis append.assoc)
  moreover have "run_lines progress_handler []
      (concat (map (\<lambda>v. [data_prefix @ stringify v, []]) (map step_event steps @ [v]))) = Inr r"
    using progress_steps [OF assms(1), of "[]"] assms(3) by (simp add: run_lines_append)
  ultimately have "run_chunks progress_handler [] [] (rs_chunks resp) = Inr r"
    by (rule run_chunks_prefix)
  then show ?thesis by (simp add: readProgressStream_def)
qed

text \<open>C13: a progress stream that reports its steps and then is done makes
  \<open>readProgressStream\<close> call \<open>onStep\<close> with exactly these steps, in order, and return,
  whatever the network's chunks and whatever follows; one that reports an error makes
  it throw that error after the steps before it.\<close>

theorem progress_stream_protocol:
  assumes "\<forall>st\<in>set steps. st \<noteq> []" "e \<noteq> []"
  shows "(concat (rs_chunks resp) = step_frames steps @ sse_frame done_event @ rest \<longrightarrow>
      readProgressStream resp = (map JStr steps, Inr ())) \<and>
    (concat (rs_chunks resp) = step_frames steps @ sse_frame (error_event e) @ rest \<longrightarrow>
      readProgressStream resp = (map JStr steps, Inl (PlainErr e)))"
  using progress_until [OF assms(1)] progress_handler_events(2,3) assms(2) by blast

theorem progress_stream_protocol_witness:
  "readProgressStream \<lparr>rs_status = 200,
     rs_chunks = [step_frames [''pull'', ''start''] @ sse_frame done_event], rs_broken = True\<rparr>
   = ([JStr ''pull'', JStr ''start''], Inr ())"
  using progress_stream_protocol [of "[''pull'', ''start'']" "''x''"
      "\<lparr>rs_status = 200, rs_chunks = [step_frames [''pull'', ''start''] @ sse_frame done_event], rs_broken = True\<rparr>" "[]"]
  by simp

text \<open>A progress stream that ends before its \<open>done\<close> event is not told from one that was
  completed: \<open>readProgressStream\<close> returns normally, after reporting the steps received
  and dropping an unterminated last line.\<close>

theorem progress_stream_cut_short:
  assumes "\<forall>st\<in>set steps. st \<noteq> []" "newline \<notin> set rest" "\<not> rs_broken resp"
    and "concat (rs_chunks resp) = step_frames steps @ rest"
  shows "readProgressStream resp = (map JStr steps, Inr ())"
proof -
  let ?ls = "concat (map (\<lambda>v. [data_prefix @ stringify v, []]) (map step_event steps))"
  have "split_on newline (concat (rs_chunks resp)) = ?ls @ [rest]"
    using split_frames [of "map step_event steps" rest] assms(2,4)
    by (simp add: step_frames_def comp_def split_on_fresh)
  then show ?thesis
    using progress_steps [OF assms(1), of "[]"] assms(3)
    by (simp add: readProgressStream_def run_chunks_start Let_def butlast_append)
qed

theorem progress_stream_cut_short_witness:
  "readProgressStream \<lparr>rs_status = 200, rs_chunks = [step_frames [''pull''], ''data: {\"err''], rs_broken = False\<rparr>
   = ([JStr ''pull''], Inr ())"
  using progress_stream_cut_short [of "[''pull'']" "''data: {\"err''"
      "\<lparr>rs_status = 200, rs_chunks = [step_frames [''pull''], ''data: {\"err''], rs_broken = False\<rparr>"]
  by (simp add: newline_def)

end
