(* ===== verification/ClientUnit.thy ===== *)
theory ClientUnit
  imports ClientAccount SseStream
begin

text \<open>
  \<^verbatim>\<open>client-unit.js\<close>: systemd units, the journal pages and the journal replay
  streams.
\<close>

definition listUnits ::
  "'w net \<Rightarrow> client \<Rightarrow> string option \<Rightarrow> string option \<Rightarrow> int option \<Rightarrow> int option \<Rightarrow>
   string option \<Rightarrow> ('w, js_error, json) eff"
where
  "listUnits net cl sortBy sortOrder limit offset search =
     getJSON net cl (''/systemd/units'' @
       query_suffix (paging_params sortBy sortOrder limit offset search)) []"

text \<open>A replay calls \<open>fetch\<close> itself; the entries it yields, and how it ended.\<close>

definition replay_request :: "client \<Rightarrow> string \<Rightarrow> request" where
  "replay_request cl path_query =
     \<lparr>rq_method = ''GET'', rq_url = baseURL cl @ path_query,
      rq_headers = auth_header cl [], rq_body = NoBody\<rparr>"

definition logReplay :: "'w net \<Rightarrow> client \<Rightarrow> string \<Rightarrow> 'w \<Rightarrow> (json list \<times> (js_error + unit)) \<times> 'w" where
  "logReplay net cl unit_name w =
     (case net (replay_request cl (''/systemd/logs?unit='' @ encodeURIComponent unit_name)) w of
        (Inl e, w') \<Rightarrow> (([], Inl e), w')
      | (Inr resp, w') \<Rightarrow>
          (case check_status ''GET'' ''/systemd/logs'' resp of
             Inl e \<Rightarrow> (([], Inl e), w')
           | Inr resp \<Rightarrow> (replay_stream resp, w')))"

text \<open>The filters shared by the two journal pages, in the order the source sets them.\<close>

definition tail_filters ::
  "search_params \<Rightarrow> string option \<Rightarrow> string option \<Rightarrow> string option \<Rightarrow> int option \<Rightarrow>
   int option \<Rightarrow> int option \<Rightarrow> search_params"
where
  "tail_filters ps beforeCursor afterCursor grep since until priority =
     set_if_num ''priority'' priority
       (set_if_num ''until'' until
         (set_if_num ''since'' since
           (set_if_str ''grep'' grep
             (set_if_str ''after'' afterCursor
               (set_if_str ''before'' beforeCursor ps)))))"

text \<open>The default parameter \<open>lines = 100\<close>.\<close>

definition lines_arg :: "int option \<Rightarrow> string" where
  "lines_arg x = int_str (case x of None \<Rightarrow> 100 | Some n \<Rightarrow> n)"

definition logTail ::
  "'w net \<Rightarrow> client \<Rightarrow> string \<Rightarrow> int option \<Rightarrow> string option \<Rightarrow> string option \<Rightarrow>
   string option \<Rightarrow> int option \<Rightarrow> int option \<Rightarrow> int option \<Rightarrow> ('w, js_error, json) eff"
where
  "logTail net cl unit_name lines beforeCursor afterCursor grep since until priority =
     getJSON net cl (''/systemd/logs/tail?'' @ params_string
       (tail_filters [(''unit'', unit_name), (''lines'', lines_arg lines)]
          beforeCursor afterCursor grep since until priority)) []"

definition setUnitStatus :: "'w net \<Rightarrow> client \<Rightarrow> string \<Rightarrow> string \<Rightarrow> ('w, js_error, unit) eff" where
  "setUnitStatus net cl name action =
     ignore_result (post net cl ''/systemd/status''
       (JObj [(''name'', JStr name), (''action'', JStr action)]))"

definition listUnitsTree ::
  "'w net \<Rightarrow> client \<Rightarrow> string option \<Rightarrow> string option \<Rightarrow> int option \<Rightarrow> int option \<Rightarrow>
   string option \<Rightarrow> ('w, js_error, json) eff"
where
  "listUnitsTree net cl sortBy sortOrder limit offset search =
     getJSON net cl (''/systemd/units-tree'' @
       query_suffix (paging_params sortBy sortOrder limit offset search)) []"

definition setUnitStatusTree ::
  "'w net \<Rightarrow> client \<Rightarrow> string \<Rightarrow> string \<Rightarrow> string \<Rightarrow> string \<Rightarrow> ('w, js_error, unit) eff"
where
  "setUnitStatusTree net cl repo name version action =
     ignore_result (post net cl ''/systemd/status/tree''
       (JObj [(''repo'', JStr repo), (''name'', JStr name), (''version'', JStr version),
              (''action'', JStr action)]))"

definition logReplayTree ::
  "'w net \<Rightarrow> client \<Rightarrow> string \<Rightarrow> string \<Rightarrow> string \<Rightarrow> 'w \<Rightarrow> (json list \<times> (js_error + unit)) \<times> 'w"
where
  "logReplayTree net cl repo name version w =
     (case net (replay_request cl (''/systemd/logs/tree?'' @
          params_string [(''repo'', repo), (''name'', name), (''version'', version)])) w of
        (Inl e, w') \<Rightarrow> (([], Inl e), w')
      | (Inr resp, w') \<Rightarrow>
          (case check_status ''GET'' ''/systemd/logs/tree'' resp of
             Inl e \<Rightarrow> (([], Inl e), w')
           | Inr resp \<Rightarrow> (replay_stream resp, w')))"

definition logTailTree ::
  "'w net \<Rightarrow> client \<Rightarrow> string \<Rightarrow> string \<Rightarrow> string \<Rightarrow> int option \<Rightarrow> string option \<Rightarrow>
   string option \<Rightarrow> string option \<Rightarrow> int option \<Rightarrow> int option \<Rightarrow> int option \<Rightarrow>
   ('w, js_error, json) eff"
where
  "logTailTree net cl repo name version lines beforeCursor afterCursor grep since until priority =
     getJSON net cl (''/systemd/logs/tree/tail?'' @ params_string
       (tail_filters
          [(''repo'', repo), (''name'', name), (''version'', version), (''lines'', lines_arg lines)]
          beforeCursor afterCursor grep since until priority)) []"

section \<open>Properties\<close>

text \<open>C14: a journal replay delivers the journal: when the server answers with one event per entry,
  however the network cuts the stream, \<open>logReplay\<close> yields exactly these entries in order
  and ends normally.\<close>

theorem logReplay_delivers:
  assumes "\<forall>v\<in>set vs. json_ok v"
    and "net (replay_request cl (''/systemd/logs?unit='' @ encodeURIComponent u)) w = (Inr resp, w')"
    and "rs_status resp = 200" "\<not> rs_broken resp" "concat (rs_chunks resp) = concat (map sse_frame vs)"
  shows "logReplay net cl u w = ((vs, Inr ()), w')"
  unfolding logReplay_def assms(2)
  using replay_stream_frames [OF assms(1,5,4)] assms(3) by (simp add: check_status_def)

definition journal_reply :: response where
  "journal_reply =
     \<lparr>rs_status = 200,
      rs_chunks = [sse_frame (JStr ''a'') @ take 3 (sse_frame (JNum 7)), drop 3 (sse_frame (JNum 7))],
      rs_broken = False\<rparr>"

theorem logReplay_delivers_witness:
  "logReplay (\<lambda>rq w. (Inr journal_reply, w)) (newClient ''http://box'') ''gitea.service'' ()
    = (([JStr ''a'', JNum 7], Inr ()), ())"
  by (rule logReplay_delivers [where resp = journal_reply]) (simp_all add: journal_reply_def)

end
