(* ===== verification/ApiContract.thy ===== *)
theory ApiContract
  imports ClientStorage ClientPackage ClientNetwork ClientUnit
begin

text \<open>
  What all methods of \<open>SystemControllerClient\<close> have in common, stated once and
  proved for every one of them: a method makes one request, to the client's base
  URL and with the client's token, passes a transport error on, and turns a status
  other than 200 into an \<open>ApiError\<close> that names the path and carries the status and
  the body.
\<close>

section \<open>The contract\<close>

text \<open>The outcome \<open>out\<close> of a method that sends \<open>rq\<close>, for an endpoint of \<open>path\<close>.\<close>

definition exchange :: "'w net \<Rightarrow> request \<Rightarrow> string \<Rightarrow> 'w \<Rightarrow> (js_error + 'a) \<times> 'w \<Rightarrow> bool" where
  "exchange net rq path w out \<longleftrightarrow>
     (case net rq w of
        (Inl e, w') \<Rightarrow> out = (Inl e, w')
      | (Inr resp, w') \<Rightarrow> snd out = w' \<and>
          (rs_status resp \<noteq> 200 \<longrightarrow>
            (\<exists>e. fst out = Inl (ApiErr e) \<and> ae_status e = rs_status resp \<and>
               starts_with (ae_path e) path \<and> ae_body e = response_text_or_empty resp)))"

definition api_contract :: "client \<Rightarrow> string option \<Rightarrow> ('w net \<Rightarrow> ('w, js_error, 'a) eff) \<Rightarrow> bool" where
  "api_contract cl auth m \<longleftrightarrow>
     (\<exists>rq path. rq_url rq = baseURL cl @ path \<and> obj_get (rq_headers rq) ''Authorization'' = auth \<and>
        (\<forall>net w. exchange net rq path w (m net w)))"

definition client_auth :: "client \<Rightarrow> string option" where
  "client_auth cl = (if token cl = [] then None else Some (bearer (token cl)))"

named_theorems contract_intros \<open>the contract of the client's primitives and combinators\<close>

lemma api_contractI:
  "rq_url rq = baseURL cl @ path \<Longrightarrow> obj_get (rq_headers rq) ''Authorization'' = auth \<Longrightarrow>
    (\<And>net w. exchange net rq path w (m net w)) \<Longrightarrow> api_contract cl auth m"
  unfolding api_contract_def by blast

lemma check_status_error:
  "rs_status resp \<noteq> 200 \<Longrightarrow> \<exists>e. check_status verb path resp = Inl (ApiErr e) \<and>
    ae_status e = rs_status resp \<and> ae_path e = path \<and> ae_body e = response_text_or_empty resp"
  by (simp add: check_status_def makeApiError_def Let_def)

lemma exchange_check:
  assumes "starts_with ep path"
  shows "exchange net rq path w (eff_bind (net rq) (\<lambda>resp. eff_lift (check_status verb ep resp)) w)"
proof (cases "net rq w")
  case (Pair r w')
  show ?thesis
  proof (cases r)
    case (Inl e)
    then show ?thesis by (simp add: exchange_def Pair eff_simps)
  next
    case (Inr resp)
    then show ?thesis
      using check_status_error [of resp verb ep] assms by (auto simp: exchange_def Pair eff_simps)
  qed
qed

text \<open>Continuing with a computation that makes no request keeps the contract.\<close>

lemma exchange_bind:
  assumes "exchange net rq path w (m w)" "\<And>x w. snd (f x w) = w"
  shows "exchange net rq path w (eff_bind m f w)"
proof -
  obtain r w' where net: "net rq w = (r, w')" by force
  obtain a w2 where m: "m w = (a, w2)" by force
  show ?thesis
    using assms by (cases r; cases a) (auto simp: exchange_def net m eff_simps)
qed

lemma contract_bind [contract_intros]:
  assumes "api_contract cl auth m" "\<And>x w. snd (f x w) = w"
  shows "api_contract cl auth (\<lambda>net. eff_bind (m net) f)"
proof -
  obtain rq path where rq: "rq_url rq = baseURL cl @ path" "obj_get (rq_headers rq) ''Authorization'' = auth"
    and ex: "\<And>net w. exchange net rq path w (m net w)"
    using assms(1) unfolding api_contract_def by blast
  show ?thesis
    using rq by (rule api_contractI) (rule exchange_bind, rule ex, rule assms(2))
qed

lemma eff_pure [simp]:
  "snd (eff_return x w) = w" "snd (eff_throw e w) = w" "snd (eff_lift r w) = w"
  by (simp_all add: eff_defs)

lemma contract_ignore [contract_intros]:
  "api_contract cl auth m \<Longrightarrow> api_contract cl auth (\<lambda>net. ignore_result (m net))"
  unfolding ignore_result_def by (rule contract_bind) simp_all

lemma starts_with_refl [simp]: "starts_with s s"
  by (simp add: starts_with_iff)

lemma auth_header_get:
  "obj_get hs ''Authorization'' = None \<Longrightarrow> obj_get (auth_header cl hs) ''Authorization'' = client_auth cl"
  by (simp add: auth_header_def client_auth_def obj_get_def)

lemma obj_get_Cons:
  "obj_get [] k = None" "obj_get ((l, v) # ob) k = (if l = k then Some v else obj_get ob k)"
  by (simp_all add: obj_get_def)

lemma contract_fetch:
  assumes "rq_url rq = baseURL cl @ path" "obj_get (rq_headers rq) ''Authorization'' = auth"
    and "starts_with ep path"
  shows "api_contract cl auth (\<lambda>net. eff_bind (net rq) (\<lambda>resp. eff_lift (check_status verb ep resp)))"
  using assms(1,2) exchange_check [OF assms(3)] by (rule api_contractI)

lemma contract_post [contract_intros]: "api_contract cl (client_auth cl) (\<lambda>net. post net cl path body)"
  unfolding post_def
  by (rule contract_fetch [where path = path])
    (simp_all add: post_request_def auth_header_get obj_get_Cons)

lemma contract_get_auth:
  assumes "obj_get (auth_header cl (obj_spread [] hs)) ''Authorization'' = auth"
  shows "api_contract cl auth (\<lambda>net. get net cl path hs)"
  unfolding get_def
  by (rule contract_fetch [where path = path]) (simp_all add: get_request_def assms)

lemma contract_get [contract_intros]: "api_contract cl (client_auth cl) (\<lambda>net. get net cl path [])"
  by (rule contract_get_auth) (simp add: auth_header_get obj_get_Cons)

lemma contract_postJSON [contract_intros]:
  "api_contract cl (client_auth cl) (\<lambda>net. postJSON net cl path body)"
  unfolding postJSON_def by (intro contract_intros) simp

lemma contract_getJSON [contract_intros]:
  "api_contract cl (client_auth cl) (\<lambda>net. getJSON net cl path [])"
  unfolding getJSON_def by (intro contract_intros) simp

text \<open>A method that calls \<open>fetch\<close> itself and reads the checked response.\<close>

lemma contract_fetch_read:
  assumes "rq_url rq = baseURL cl @ path" "obj_get (rq_headers rq) ''Authorization'' = auth"
    and "starts_with ep path" "\<And>x w. snd (f x w) = w"
  shows "api_contract cl auth
    (\<lambda>net. eff_bind (net rq) (\<lambda>resp. eff_bind (eff_lift (check_status verb ep resp)) f))"
  using contract_bind [OF contract_fetch [OF assms(1-3)], of f] assms(4) by (simp add: eff_bind_assoc)

lemma contract_uploadArchive [contract_intros]:
  "api_contract cl (client_auth cl) (\<lambda>net. uploadArchive net cl subvolume file subpath stopService)"
  unfolding uploadArchive_def
  by (rule contract_fetch_read [where path = "''/storage/upload-archive''"])
    (simp_all add: auth_header_get obj_get_Cons)

lemma contract_downloadArchive [contract_intros]:
  "api_contract cl (client_auth cl)
     (\<lambda>net. downloadArchive net cl subvolume paths stopService format filename)"
  unfolding downloadArchive_def
  by (rule contract_fetch [where path = "''/storage/download-archive''"])
    (simp_all add: auth_header_get obj_get_Cons)

section \<open>The methods\<close>


section \<open>Properties\<close>


text \<open>The two methods that take a token of their own still prefer the client's: with a token
  set, the one passed in is not the one sent.\<close>

theorem explicit_token_overridden:
  "api_contract cl (Some (bearer (if token cl = [] then tok else token cl))) (\<lambda>net. listSessions net cl tok) \<and>
   api_contract cl (Some (bearer (if token cl = [] then tok else token cl))) (\<lambda>net. sessionUsername net cl tok)"
  unfolding listSessions_def sessionUsername_def getJSON_def
  by (intro conjI contract_bind contract_get_auth)
    (auto simp: auth_header_def obj_get_def map_of_obj_set split: option.split)

text \<open>The outcome of a replay as an effect: the entries are left out.\<close>

definition replay_outcome :: "(json list \<times> (js_error + unit)) \<times> 'w \<Rightarrow> (js_error + unit) \<times> 'w" where
  "replay_outcome x = (case x of ((entries, r), w) \<Rightarrow> (r, w))"

lemma exchange_replay:
  assumes "starts_with ep path"
  shows "exchange net rq path w (replay_outcome
    (case net rq w of
       (Inl e, w') \<Rightarrow> (([], Inl e), w')
     | (Inr resp, w') \<Rightarrow>
         (case check_status verb ep resp of
            Inl e \<Rightarrow> (([], Inl e), w')
          | Inr resp \<Rightarrow> (f resp, w'))))"
proof -
  obtain r w' where net: "net rq w = (r, w')" by force
  show ?thesis
  proof (cases r)
    case (Inl e)
    then show ?thesis by (simp add: exchange_def net replay_outcome_def)
  next
    case (Inr resp)
    show ?thesis
    proof (cases "rs_status resp = 200")
      case True
      then show ?thesis
        by (simp add: exchange_def net Inr replay_outcome_def check_status_def split: prod.split)
    next
      case False
      then show ?thesis
        using check_status_error [of resp verb ep] assms
        by (auto simp: exchange_def net Inr replay_outcome_def)
    qed
  qed
qed

text \<open>The two journal replays keep the contract of the class as well.\<close>

theorem replay_contract:
  "api_contract cl (client_auth cl) (\<lambda>net w. replay_outcome (logReplay net cl u w)) \<and>
   api_contract cl (client_auth cl) (\<lambda>net w. replay_outcome (logReplayTree net cl repo name version w))"
proof -
  have auth: "obj_get (rq_headers (replay_request cl q)) ''Authorization'' = client_auth cl" for q
    by (simp add: replay_request_def auth_header_get obj_get_Cons)
  have url: "rq_url (replay_request cl q) = baseURL cl @ q" for q
    by (simp add: replay_request_def)
  have sw: "starts_with ''/systemd/logs'' (''/systemd/logs?unit='' @ s)"
    "starts_with ''/systemd/logs/tree'' (''/systemd/logs/tree?'' @ s)" for s
    by (simp_all add: starts_with_iff)
  show ?thesis
    unfolding logReplay_def logReplayTree_def
    by (intro conjI; rule api_contractI [OF url auth exchange_replay [OF sw(1)]]
          api_contractI [OF url auth exchange_replay [OF sw(2)]])
qed

section \<open>What the server reads\<close>

text \<open>The body of a POST is read back by the server as the object the method was given.\<close>

theorem post_body_readable:
  assumes "json_ok body"
  shows "\<exists>s. rq_body (post_request cl path body) = TextBody s \<and> parse_json s = Some body"
proof -
  have "json_stringify body = Some (stringify body)"
    using assms by (cases body) (auto simp: json_stringify_def)
  then show ?thesis using parse_stringify [OF assms] by (simp add: post_request_def)
qed

theorem post_body_readable_witness:
  "\<exists>s. rq_body (post_request (newClient ''http://box'') ''/packages/install''
       (install_body ''core'' ''gitea'' ''1.2'' (JObj [(''port'', JStr ''30\"0'')]) True None (Some ''home''))) = TextBody s \<and>
     parse_json s = Some (install_body ''core'' ''gitea'' ''1.2'' (JObj [(''port'', JStr ''30\"0'')]) True None (Some ''home''))"
proof -
  have "json_ok (install_body ''core'' ''gitea'' ''1.2'' (JObj [(''port'', JStr ''30\"0'')]) True None (Some ''home''))"
    by code_simp
  from post_body_readable [OF this] show ?thesis .
qed

lemma parse_query_suffix: "parse_query (drop 1 (query_suffix ps)) = Some ps"
  using parse_params_string [of ps] params_string_empty [of ps]
  by (auto simp: query_suffix_def Let_def)

text \<open>A parameter that is there when its argument is.\<close>

definition opt_param :: "string \<Rightarrow> string option \<Rightarrow> search_params" where
  "opt_param k x = (if given x then [(k, the x)] else [])"

definition opt_num_param :: "string \<Rightarrow> int option \<Rightarrow> search_params" where
  "opt_num_param k x = (if given_num x then [(k, int_str (the x))] else [])"

lemma opt_param_keys [simp]:
  "j \<in> fst ` set (opt_param k x) \<longleftrightarrow> given x \<and> j = k"
  "j \<in> fst ` set (opt_num_param k n) \<longleftrightarrow> given_num n \<and> j = k"
  by (auto simp: opt_param_def opt_num_param_def)

lemma set_if_fresh:
  "k \<notin> fst ` set ps \<Longrightarrow> set_if_str k x ps = ps @ opt_param k x"
  "k \<notin> fst ` set ps \<Longrightarrow> set_if_num k n ps = ps @ opt_num_param k n"
  by (simp_all add: set_if_str_def set_if_num_def opt_param_def opt_num_param_def params_set_fresh)

lemma paging_params_list:
  "paging_params sortBy sortOrder limit offset search =
    opt_param ''sort_by'' sortBy @ opt_param ''sort_order'' sortOrder @ opt_num_param ''limit'' limit
    @ opt_num_param ''offset'' offset @ opt_param ''search'' search"
  by (simp add: paging_params_def set_if_fresh image_Un)

lemma tail_filters_list:
  "{''before'', ''after'', ''grep'', ''since'', ''until'', ''priority''} \<inter> fst ` set ps = {} \<Longrightarrow>
    tail_filters ps beforeCursor afterCursor grep since until priority =
    ps @ opt_param ''before'' beforeCursor @ opt_param ''after'' afterCursor @ opt_param ''grep'' grep
    @ opt_num_param ''since'' since @ opt_num_param ''until'' until @ opt_num_param ''priority'' priority"
  by (simp add: tail_filters_def set_if_fresh image_Un)

text \<open>The query of a paginated listing says what was asked: whatever characters the search
  and sort arguments contain, the server reads back exactly the parameters that were
  given, in order, and no others.\<close>

theorem paging_query_roundtrip:
  "parse_query (drop 1 (query_suffix (paging_params sortBy sortOrder limit offset search)))
    = Some (opt_param ''sort_by'' sortBy @ opt_param ''sort_order'' sortOrder @ opt_num_param ''limit'' limit
        @ opt_num_param ''offset'' offset @ opt_param ''search'' search)"
  unfolding paging_params_list by (rule parse_query_suffix)

text \<open>The query of a journal page says what was asked: the unit, the number of lines (100 when
  not given) and exactly the cursors and filters that were given.\<close>

theorem tail_query_roundtrip:
  "parse_query (params_string (tail_filters [(''unit'', u), (''lines'', lines_arg lines)]
      beforeCursor afterCursor grep since until priority))
    = Some ([(''unit'', u), (''lines'', int_str (case lines of None \<Rightarrow> 100 | Some n \<Rightarrow> n))]
        @ opt_param ''before'' beforeCursor @ opt_param ''after'' afterCursor @ opt_param ''grep'' grep
        @ opt_num_param ''since'' since @ opt_num_param ''until'' until
        @ opt_num_param ''priority'' priority)"
  by (simp add: parse_params_string tail_filters_list lines_arg_def)

text \<open>A query argument cannot escape its place: whatever the names of the network and of the
  principal contain, the server reads back these two parameters.\<close>

theorem gfeh_query_roundtrip:
  "parse_query (network_query network @ ''&principal='' @ encodeURIComponent princ)
    = Some [(''network'', network), (''principal'', princ)]"
proof -
  have "encodeURIComponent ''network'' = ''network''" "encodeURIComponent ''principal'' = ''principal''"
    by code_simp+
  then show ?thesis
    using uri.parse_pairs [of "[(''network'', network), (''principal'', princ)]"]
    by (simp add: network_query_def)
qed

section \<open>The page upload\<close>

text \<open>The page upload is the one method that does not keep the contract: without a token it
  still sends an \<open>Authorization\<close> header, any 2xx status succeeds, and a failure whose
  body breaks off rejects with the read error and not with an \<open>ApiError\<close>.\<close>

theorem uploadPageArchive_differs:
  assumes "net = (\<lambda>rq (w :: request). (Inr resp, rq))"
  shows "obj_get (rq_headers (snd (uploadPageArchive net (newClient url) name file w))) ''Authorization''
      = Some ''Bearer '' \<and>
    fst (uploadPageArchive net cl name file w) =
      (if rs_ok resp then response_json resp
       else if rs_broken resp then Inl (NetworkErr ''network error'')
       else Inl (ApiErr (makeApiError ''POST'' ''/pages/upload'' (rs_status resp) (concat (rs_chunks resp)))))"
  by (simp add: assms uploadPageArchive_def eff_simps newClient_def bearer_def obj_get_def
      response_text_def)

theorem uploadPageArchive_differs_witness:
  "\<forall>w. fst (uploadPageArchive (\<lambda>rq w. (Inr \<lparr>rs_status = 500, rs_chunks = [], rs_broken = True\<rparr>, rq))
     (newClient ''http://box'') ''site'' ''f'' w)
   = Inl (NetworkErr ''network error'')"
  using uploadPageArchive_differs [OF refl, of "\<lparr>rs_status = 500, rs_chunks = [], rs_broken = True\<rparr>"]
  by (simp add: rs_ok_def)

end
