(* ===== verification/BootClient.thy ===== *)
theory BootClient
  imports ClientUnit
begin

text \<open>
  \<^verbatim>\<open>ui/src/api/client-boot.js\<close>: \<open>observeBootStatus\<close>, which follows a controller
  through its boot and its restarts, and \<open>readBootID\<close>.

  The injectable parameters of the source are the environment \<open>env\<close>: the clock,
  \<open>fetch\<close>, \<open>sleep\<close>, the abort signal and the time that passes while a stream is
  read.  The callbacks are the outputs, collected in order in a trace.  The
  reconnect loop may run forever in a world whose clock stands still, so it has a
  fuel argument; \<open>observe_terminates\<close> gives the fuel that is enough when sleeping
  takes time.
\<close>

section \<open>Environment, configuration and outputs\<close>

record 'w boot_env =
  be_net :: "'w net"
  be_now :: "'w \<Rightarrow> int \<times> 'w"
  be_sleep :: "int \<Rightarrow> 'w \<Rightarrow> 'w"
  be_stream :: "response \<Rightarrow> 'w \<Rightarrow> 'w"
  be_aborted :: "'w \<Rightarrow> bool"

record boot_cfg =
  bc_baseURL :: string
  bc_previousBootID :: "string option"
  bc_maxEnvelopeMs :: int
  bc_baseBackoffMs :: int
  bc_maxBackoffMs :: int

definition default_cfg :: "string \<Rightarrow> string option \<Rightarrow> boot_cfg" where
  "default_cfg url prev =
     \<lparr>bc_baseURL = strip_trailing_slashes url, bc_previousBootID = prev,
      bc_maxEnvelopeMs = 5 * 60 * 1000, bc_baseBackoffMs = 2000, bc_maxBackoffMs = 30000\<rparr>"

datatype boot_out = OnEvent json | OnDisconnect int | OnReconnect

record boot_state =
  bs_backoff :: int
  bs_lastConnectedAt :: int
  bs_trace :: "boot_out list"

definition emit :: "boot_out \<Rightarrow> boot_state \<Rightarrow> boot_state" where
  "emit out st = st\<lparr>bs_trace := bs_trace st @ [out]\<rparr>"

definition plain_get :: "string \<Rightarrow> request" where
  "plain_get url = \<lparr>rq_method = ''GET'', rq_url = url, rq_headers = [], rq_body = NoBody\<rparr>"

text \<open>\<open>resp.body\<close> is \<open>null\<close> for the null body statuses of the Fetch standard.\<close>

definition null_body :: "response \<Rightarrow> bool" where
  "null_body resp \<longleftrightarrow> rs_status resp \<in> {101, 103, 204, 205, 304}"

section \<open>One attempt\<close>

definition readBootID :: "'w boot_env \<Rightarrow> string \<Rightarrow> 'w \<Rightarrow> string option \<times> 'w" where
  "readBootID env url w =
     (let (t, w1) = be_now env w in
      case be_net env (plain_get (url @ ''/status/ping?t='' @ int_str t)) w1 of
        (Inl _, w2) \<Rightarrow> (None, w2)
      | (Inr resp, w2) \<Rightarrow>
          (case response_json resp of
             Inl _ \<Rightarrow> (None, w2)
           | Inr body \<Rightarrow>
               (case js_opt_prop body ''boot_id'' of
                  JStr s \<Rightarrow> (if s = [] then None else Some s, w2)
                | _ \<Rightarrow> (None, w2))))"

text \<open>
  The line handler: every event goes to \<open>onEvent\<close>; reading \<open>done\<close> of \<open>null\<close>
  throws, and a truthy \<open>done\<close> ends the observation.
\<close>

definition boot_handler :: "json list \<Rightarrow> string \<Rightarrow> json list + (json list \<times> (js_error + unit))" where
  "boot_handler events line =
     (if \<not> starts_with data_prefix line then Inl events
      else (case parse_json (drop 6 line) of
          None \<Rightarrow> Inl events
        | Some evt \<Rightarrow>
            (case js_prop evt ''done'' of
               None \<Rightarrow> Inr (events @ [evt], Inl TypeErr)
             | Some d \<Rightarrow> if truthy d then Inr (events @ [evt], Inr ()) else Inl (events @ [evt]))))"

datatype stream_end = StreamDone | StreamEnded | StreamFailed

definition read_boot_stream :: "response \<Rightarrow> json list \<times> stream_end" where
  "read_boot_stream resp =
     (case run_chunks boot_handler [] [] (rs_chunks resp) of
        Inr (events, Inr ()) \<Rightarrow> (events, StreamDone)
      | Inr (events, Inl _) \<Rightarrow> (events, StreamFailed)
      | Inl (events, _) \<Rightarrow> (events, if rs_broken resp then StreamFailed else StreamEnded))"

definition done_evt :: json where
  "done_evt = JObj [(''done'', JBool True)]"

text \<open>
  The \<open>try\<close> block with its handler: whether the observation is over, and the
  state it leaves.
\<close>

definition boot_attempt ::
  "'w boot_env \<Rightarrow> boot_cfg \<Rightarrow> boot_state \<Rightarrow> 'w \<Rightarrow> bool \<times> boot_state \<times> 'w"
where
  "boot_attempt env cfg st w =
     (let st1 = emit OnReconnect st;
          (cacheBust, w1) = be_now env w
      in case be_net env (plain_get (bc_baseURL cfg @ ''/boot-status?t='' @ int_str cacheBust)) w1 of
           (Inl _, w2) \<Rightarrow> (be_aborted env w2, st1, w2)
         | (Inr resp, w2) \<Rightarrow>
             if rs_status resp = 404 then
               (if \<not> given (bc_previousBootID cfg) then (True, emit (OnEvent done_evt) st1, w2)
                else
                  (let (currentBootID, w3) = readBootID env (bc_baseURL cfg) w2 in
                   if currentBootID \<noteq> None \<and> currentBootID \<noteq> bc_previousBootID cfg
                   then (True, emit (OnEvent done_evt) st1, w3)
                   else (be_aborted env w3, st1, w3)))
             else if \<not> rs_ok resp \<or> null_body resp then (be_aborted env w2, st1, w2)
             else
               (let (t, w3) = be_now env w2;
                    (events, how) = read_boot_stream resp;
                    w4 = be_stream env resp w3;
                    st2 = st1\<lparr>bs_lastConnectedAt := t, bs_backoff := bc_baseBackoffMs cfg,
                              bs_trace := bs_trace st1 @ map OnEvent events\<rparr>
                in case how of
                     StreamDone \<Rightarrow> (True, st2, w4)
                   | StreamEnded \<Rightarrow> (False, st2, w4)
                   | StreamFailed \<Rightarrow> (be_aborted env w4, st2, w4)))"

section \<open>The reconnect loop\<close>

fun observe_loop ::
  "nat \<Rightarrow> 'w boot_env \<Rightarrow> boot_cfg \<Rightarrow> int \<Rightarrow> boot_state \<Rightarrow> 'w \<Rightarrow> (boot_state \<times> 'w) option"
where
  "observe_loop 0 env cfg startedAt st w = None"
| "observe_loop (Suc fuel) env cfg startedAt st w =
     (if be_aborted env w then Some (st, w)
      else
        (let (t, w1) = be_now env w in
         if t - bs_lastConnectedAt st > bc_maxEnvelopeMs cfg then Some (st, w1)
         else
           (let (finished, st1, w2) = boot_attempt env cfg st w1 in
            if finished then Some (st1, w2)
            else
              (let st2 = emit (OnDisconnect (bs_backoff st1)) st1;
                   (t', w3) = be_now env w2
               in if t' - startedAt + bs_backoff st2 > bc_maxEnvelopeMs cfg then Some (st2, w3)
                  else observe_loop fuel env cfg startedAt
                         (st2\<lparr>bs_backoff := min (bs_backoff st2 * 2) (bc_maxBackoffMs cfg)\<rparr>)
                         (be_sleep env (bs_backoff st2) w3)))))"

definition observeBootStatus ::
  "nat \<Rightarrow> 'w boot_env \<Rightarrow> boot_cfg \<Rightarrow> 'w \<Rightarrow> (boot_out list \<times> 'w) option"
where
  "observeBootStatus fuel env cfg w =
     (let (startedAt, w1) = be_now env w in
      map_option (\<lambda>(st, w'). (bs_trace st, w'))
        (observe_loop fuel env cfg startedAt
           \<lparr>bs_backoff = bc_baseBackoffMs cfg, bs_lastConnectedAt = startedAt, bs_trace = []\<rparr> w1))"

section \<open>The trace of an observation\<close>

text \<open>
  What the callbacks may see: attempts, each announced by \<open>onReconnect\<close>, with the
  events of its connection, and a disconnect that carries the backoff before the
  next one.  The backoff is the base after a connection, and otherwise the one the
  previous attempt left; the next attempt starts from its double, capped.
\<close>

inductive paced :: "boot_cfg \<Rightarrow> int \<Rightarrow> boot_out list \<Rightarrow> bool" for cfg where
  paced_idle: "paced cfg b []"
| paced_last: "paced cfg b (OnReconnect # map OnEvent es)"
| paced_step: "b' = bc_baseBackoffMs cfg \<or> (b' = b \<and> es = []) \<Longrightarrow>
    paced cfg (min (b' * 2) (bc_maxBackoffMs cfg)) rest \<Longrightarrow>
    paced cfg b (OnReconnect # map OnEvent es @ OnDisconnect b' # rest)"

lemma boot_attempt_trace:
  assumes "boot_attempt env cfg st w = (fin, st1, w')"
  obtains es where "bs_trace st1 = bs_trace st @ OnReconnect # map OnEvent es"
    and "bs_backoff st1 = bc_baseBackoffMs cfg \<or> (bs_backoff st1 = bs_backoff st \<and> (fin \<or> es = []))"
proof -
  have "\<exists>es. bs_trace st1 = bs_trace st @ OnReconnect # map OnEvent es \<and>
      (bs_backoff st1 = bc_baseBackoffMs cfg \<or> (bs_backoff st1 = bs_backoff st \<and> (fin \<or> es = [])))"
    using assms unfolding boot_attempt_def emit_def Let_def
    by (auto split: prod.splits sum.splits if_splits stream_end.splits
        intro: exI [of _ "[]"] exI [of _ "[done_evt]"])
  then show thesis using that by blast
qed

lemma observe_loop_paced:
  "observe_loop fuel env cfg s0 st w = Some (st', w') \<Longrightarrow>
    \<exists>tr. bs_trace st' = bs_trace st @ tr \<and> paced cfg (bs_backoff st) tr"
proof (induction fuel arbitrary: st w)
  case (Suc fuel)
  obtain t w1 where now: "be_now env w = (t, w1)" by force
  obtain fin st1 w2 where att: "boot_attempt env cfg st w1 = (fin, st1, w2)"
    by (metis prod.exhaust)
  obtain t' w3 where now': "be_now env w2 = (t', w3)" by force
  obtain es where es: "bs_trace st1 = bs_trace st @ OnReconnect # map OnEvent es"
    and b: "bs_backoff st1 = bc_baseBackoffMs cfg \<or> (bs_backoff st1 = bs_backoff st \<and> (fin \<or> es = []))"
    using boot_attempt_trace [OF att] by blast
  let ?b = "bs_backoff st1"
  let ?st2 = "emit (OnDisconnect ?b) st1"
  have tr2: "bs_trace ?st2 = bs_trace st @ OnReconnect # map OnEvent es @ [OnDisconnect ?b]"
    and b2: "bs_backoff ?st2 = ?b"
    using es by (simp_all add: emit_def)
  consider (stop) "st' = st" | (fin) "fin" "st' = st1"
    | (quit) "\<not> fin" "st' = ?st2"
    | (again) "\<not> fin" "observe_loop fuel env cfg s0
         (?st2\<lparr>bs_backoff := min (?b * 2) (bc_maxBackoffMs cfg)\<rparr>) (be_sleep env ?b w3) = Some (st', w')"
    using Suc.prems b2 by (auto simp: now att now' Let_def split: if_splits)
  then show ?case
  proof cases
    case stop
    then show ?thesis by (auto intro: paced_idle)
  next
    case fin
    then show ?thesis using es by (auto intro: paced_last)
  next
    case quit
    then show ?thesis using tr2 paced_step [OF _ paced_idle, of ?b cfg "bs_backoff st" es] b by auto
  next
    case again
    from Suc.IH [OF again(2)] obtain tr where
      "bs_trace st' = bs_trace ?st2 @ tr" "paced cfg (min (?b * 2) (bc_maxBackoffMs cfg)) tr"
      by auto
    then show ?thesis
      using tr2 paced_step [of ?b cfg "bs_backoff st" es tr] b again(1) by auto
  qed
qed simp

lemma paced_backoff:
  "paced cfg b tr \<Longrightarrow> 0 < bc_baseBackoffMs cfg \<Longrightarrow> bc_baseBackoffMs cfg \<le> bc_maxBackoffMs cfg \<Longrightarrow>
    bc_baseBackoffMs cfg \<le> b \<Longrightarrow> b \<le> bc_maxBackoffMs cfg \<Longrightarrow> OnDisconnect d \<in> set tr \<Longrightarrow>
    bc_baseBackoffMs cfg \<le> d \<and> d \<le> bc_maxBackoffMs cfg"
proof (induction rule: paced.induct)
  case (paced_step b' b es rest)
  have "bc_baseBackoffMs cfg \<le> b'" "b' \<le> bc_maxBackoffMs cfg"
    using paced_step.hyps paced_step.prems by auto
  moreover have "d = b' \<or> OnDisconnect d \<in> set rest"
    using paced_step.prems(5) by auto
  ultimately show ?case
    using paced_step.IH paced_step.prems by force
qed auto

section \<open>Time\<close>

text \<open>
  A world with a clock: \<open>now\<close> reads it, nothing turns it back, and \<open>sleep(ms)\<close>
  takes at least that long.
\<close>

definition clocked :: "'w boot_env \<Rightarrow> ('w \<Rightarrow> int) \<Rightarrow> bool" where
  "clocked env clock \<longleftrightarrow>
     (\<forall>w. fst (be_now env w) = clock w \<and> clock w \<le> clock (snd (be_now env w))) \<and>
     (\<forall>rq w. clock w \<le> clock (snd (be_net env rq w))) \<and>
     (\<forall>resp w. clock w \<le> clock (be_stream env resp w)) \<and>
     (\<forall>d w. clock w + d \<le> clock (be_sleep env d w))"

lemma clocked_now: "clocked env clock \<Longrightarrow> be_now env w = (t, w') \<Longrightarrow> t = clock w \<and> clock w \<le> clock w'"
  unfolding clocked_def by (metis fst_conv snd_conv)

lemma clocked_net: "clocked env clock \<Longrightarrow> be_net env rq w = (r, w') \<Longrightarrow> clock w \<le> clock w'"
  unfolding clocked_def by (metis snd_conv)

lemma clocked_stream: "clocked env clock \<Longrightarrow> clock w \<le> clock (be_stream env resp w)"
  unfolding clocked_def by blast

lemma clocked_sleep: "clocked env clock \<Longrightarrow> clock w + d \<le> clock (be_sleep env d w)"
  unfolding clocked_def by blast

lemma readBootID_clock:
  assumes clk: "clocked env clock"
  shows "readBootID env url w = (r, w') \<Longrightarrow> clock w \<le> clock w'"
  unfolding readBootID_def Let_def
  by (auto split: prod.splits sum.splits json.splits if_splits
      dest!: clocked_now [OF clk] clocked_net [OF clk])

lemma boot_attempt_clock:
  assumes clk: "clocked env clock"
  shows "boot_attempt env cfg st w = (fin, st1, w') \<Longrightarrow> clock w \<le> clock w'"
  unfolding boot_attempt_def Let_def
  by (auto split: prod.splits sum.splits if_splits stream_end.splits
      dest!: clocked_now [OF clk] clocked_net [OF clk] readBootID_clock [OF clk]
      intro: order_trans [OF _ clocked_stream [OF clk]])

lemma boot_attempt_backoff:
  assumes "boot_attempt env cfg st w = (fin, st1, w')"
  shows "bs_backoff st1 = bc_baseBackoffMs cfg \<or> bs_backoff st1 = bs_backoff st"
  using boot_attempt_trace [OF assms] by metis

lemma observe_loop_returns:
  assumes clk: "clocked env clock" and pos: "0 < bc_baseBackoffMs cfg"
    and le: "bc_baseBackoffMs cfg \<le> bc_maxBackoffMs cfg"
  shows "bc_baseBackoffMs cfg \<le> bs_backoff st \<Longrightarrow>
    s0 + bc_maxEnvelopeMs cfg < clock w + int fuel * bc_baseBackoffMs cfg \<Longrightarrow>
    \<exists>r. observe_loop (Suc fuel) env cfg s0 st w = Some r"
proof (induction fuel arbitrary: st w)
  case 0
  obtain t w1 where now: "be_now env w = (t, w1)" by force
  obtain fin st1 w2 where att: "boot_attempt env cfg st w1 = (fin, st1, w2)"
    by (metis prod.exhaust)
  obtain t' w3 where now': "be_now env w2 = (t', w3)" by force
  have "clock w \<le> t'"
    using clocked_now [OF clk now] clocked_now [OF clk now'] boot_attempt_clock [OF clk att] by linarith
  moreover have "0 < bs_backoff st1"
    using boot_attempt_backoff [OF att] 0(1) pos by auto
  ultimately show ?case
    using 0(2) by (simp add: now att now' Let_def emit_def)
next
  case (Suc fuel)
  obtain t w1 where now: "be_now env w = (t, w1)" by force
  obtain fin st1 w2 where att: "boot_attempt env cfg st w1 = (fin, st1, w2)"
    by (metis prod.exhaust)
  obtain t' w3 where now': "be_now env w2 = (t', w3)" by force
  have b: "bc_baseBackoffMs cfg \<le> bs_backoff st1"
    using boot_attempt_backoff [OF att] Suc.prems(1) by auto
  have "clock w \<le> clock w3"
    using clocked_now [OF clk now] clocked_now [OF clk now'] boot_attempt_clock [OF clk att] by linarith
  then have "clock w + bc_baseBackoffMs cfg \<le> clock (be_sleep env (bs_backoff st1) w3)"
    using clocked_sleep [OF clk, of w3 "bs_backoff st1"] b by linarith
  then have "s0 + bc_maxEnvelopeMs cfg
      < clock (be_sleep env (bs_backoff st1) w3) + int fuel * bc_baseBackoffMs cfg"
    using Suc.prems(2) by (simp add: algebra_simps)
  then have "\<exists>r. observe_loop (Suc fuel) env cfg s0
      ((emit (OnDisconnect (bs_backoff st1)) st1)
         \<lparr>bs_backoff := min (bs_backoff st1 * 2) (bc_maxBackoffMs cfg)\<rparr>)
      (be_sleep env (bs_backoff st1) w3) = Some r"
    using b pos le by (intro Suc.IH) auto
  then show ?case
    using observe_loop.simps(2) [of "Suc fuel" env cfg s0 st w]
    by (simp add: now att now' Let_def emit_def del: observe_loop.simps)
qed

section \<open>Completion\<close>

text \<open>An attempt that only meets the controller it is waiting to see replaced.\<close>

lemma boot_attempt_quiet:
  assumes prev: "given (bc_previousBootID cfg)"
    and stale: "\<And>t w resp w'. be_net env (plain_get (bc_baseURL cfg @ ''/boot-status?t='' @ int_str t)) w
        = (Inr resp, w') \<Longrightarrow> rs_status resp = 404"
    and old: "\<And>w. fst (readBootID env (bc_baseURL cfg) w) \<in> {None, bc_previousBootID cfg}"
    and att: "boot_attempt env cfg st w = (fin, st1, w')"
  shows "bs_trace st1 = bs_trace st @ [OnReconnect]"
proof -
  obtain t w1 where now: "be_now env w = (t, w1)" by force
  obtain r w2 where net: "be_net env (plain_get (bc_baseURL cfg @ ''/boot-status?t='' @ int_str t)) w1 = (r, w2)"
    by force
  show ?thesis
  proof (cases r)
    case (Inl err)
    then show ?thesis using att net now by (auto simp: boot_attempt_def emit_def)
  next
    case (Inr resp)
    obtain b w3 where id: "readBootID env (bc_baseURL cfg) w2 = (b, w3)" by force
    have "b = None \<or> b = bc_previousBootID cfg" using old [of w2] id by simp
    moreover have "rs_status resp = 404" using stale net Inr by blast
    ultimately show ?thesis
      using att net now Inr prev id by (auto simp: boot_attempt_def emit_def)
  qed
qed

lemma observe_loop_quiet:
  assumes quiet: "\<And>st w fin st1 w'. boot_attempt env cfg st w = (fin, st1, w') \<Longrightarrow>
      bs_trace st1 = bs_trace st @ [OnReconnect]"
  shows "observe_loop fuel env cfg s0 st w = Some (st', w') \<Longrightarrow>
    OnEvent e \<in> set (bs_trace st') \<Longrightarrow> OnEvent e \<in> set (bs_trace st)"
proof (induction fuel arbitrary: st w)
  case (Suc fuel)
  obtain t w1 where now: "be_now env w = (t, w1)" by force
  obtain fin st1 w2 where att: "boot_attempt env cfg st w1 = (fin, st1, w2)"
    by (metis prod.exhaust)
  obtain t' w3 where now': "be_now env w2 = (t', w3)" by force
  have tr: "bs_trace st1 = bs_trace st @ [OnReconnect]" by (rule quiet [OF att])
  from Suc.prems tr show ?case
    by (auto simp: now att now' Let_def emit_def split: if_splits dest!: Suc.IH)
qed simp

section \<open>Properties\<close>

definition dead_world :: "int boot_env" where
  "dead_world =
     \<lparr>be_net = (\<lambda>rq w. (Inl (NetworkErr ''Failed to fetch''), w + 40)), be_now = (\<lambda>w. (w, w)), be_sleep = (\<lambda>d w. w + d),
      be_stream = (\<lambda>resp w. w), be_aborted = (\<lambda>w. False)\<rparr>"

definition short_cfg :: boot_cfg where
  "short_cfg = (default_cfg ''http://box:5309/'' (Some ''old''))\<lparr>bc_maxEnvelopeMs := 20000\<rparr>"

lemma dead_world_clocked: "clocked dead_world (\<lambda>w. w)"
  by (simp add: clocked_def dead_world_def)

text \<open>C5: \<open>observeBootStatus\<close> returns, whatever the network answers, as soon as its
  sleeps take the time they are asked for: with \<open>maxEnvelopeMs / baseBackoffMs + 2\<close>
  rounds of fuel the loop has ended.\<close>

theorem observe_terminates:
  assumes "clocked env clock" "0 < bc_baseBackoffMs cfg"
    and "bc_baseBackoffMs cfg \<le> bc_maxBackoffMs cfg" "0 \<le> bc_maxEnvelopeMs cfg"
  shows "\<exists>tr w'. observeBootStatus (nat (bc_maxEnvelopeMs cfg div bc_baseBackoffMs cfg) + 2) env cfg w
    = Some (tr, w')"
proof -
  let ?E = "bc_maxEnvelopeMs cfg" and ?B = "bc_baseBackoffMs cfg"
  obtain s0 w1 where now: "be_now env w = (s0, w1)" by force
  have "?E < (?E div ?B + 1) * ?B"
    using assms(2) div_mult_mod_eq [of ?E ?B] pos_mod_bound [of ?B ?E]
    unfolding distrib_right by linarith
  moreover have "int (nat (?E div ?B) + 1) = ?E div ?B + 1"
    using assms by (simp add: pos_imp_zdiv_nonneg_iff)
  ultimately have "?E < int (nat (?E div ?B) + 1) * ?B" by (simp only:)
  then have "s0 + ?E < clock w1 + int (nat (?E div ?B) + 1) * ?B"
    using clocked_now [OF assms(1) now] by linarith
  from observe_loop_returns [OF assms(1-3) _ this, of "\<lparr>bs_backoff = ?B, bs_lastConnectedAt = s0, bs_trace = []\<rparr>"]
  show ?thesis
    by (auto simp: observeBootStatus_def now eval_nat_numeral simp del: observe_loop.simps)
qed

theorem observe_terminates_witness:
  "\<exists>tr w'. observeBootStatus (nat (20000 div 2000) + 2) dead_world short_cfg 0 = Some (tr, w')"
  using observe_terminates [OF dead_world_clocked, of short_cfg 0]
  by (simp add: short_cfg_def default_cfg_def)

text \<open>The callbacks see attempts, each announced by \<open>onReconnect\<close>, and the backoff
  passed to \<open>onDisconnect\<close> starts at the base, doubles up to the cap with every
  failed attempt and is back at the base after a connection.\<close>

theorem observe_paced:
  assumes "observeBootStatus fuel env cfg w = Some (tr, w')"
  shows "paced cfg (bc_baseBackoffMs cfg) tr"
  using assms observe_loop_paced
  by (fastforce simp: observeBootStatus_def split: prod.splits)

theorem observe_paced_witness:
  "paced short_cfg 2000
     [OnReconnect, OnDisconnect 2000, OnReconnect, OnDisconnect 4000, OnReconnect, OnDisconnect 8000,
      OnReconnect, OnDisconnect 16000]"
proof -
  have "observeBootStatus 9 dead_world short_cfg 0 = Some
     ([OnReconnect, OnDisconnect 2000, OnReconnect, OnDisconnect 4000, OnReconnect, OnDisconnect 8000,
      OnReconnect, OnDisconnect 16000], 14160)"
    by code_simp
  from observe_paced [OF this] show ?thesis by (simp add: short_cfg_def default_cfg_def)
qed

text \<open>Every backoff reported by \<open>onDisconnect\<close> lies between the base and the cap.\<close>

theorem observe_backoff_bounds:
  assumes "observeBootStatus fuel env cfg w = Some (tr, w')"
    and "0 < bc_baseBackoffMs cfg" "bc_baseBackoffMs cfg \<le> bc_maxBackoffMs cfg"
    and "OnDisconnect d \<in> set tr"
  shows "bc_baseBackoffMs cfg \<le> d \<and> d \<le> bc_maxBackoffMs cfg"
proof -
  have "paced cfg (bc_baseBackoffMs cfg) tr"
    using assms(1) observe_loop_paced by (fastforce simp: observeBootStatus_def split: prod.splits)
  from paced_backoff [OF this assms(2,3) _ _ assms(4)] assms(3) show ?thesis by simp
qed

theorem observe_backoff_bounds_witness: "(2000::int) \<le> 16000 \<and> (16000::int) \<le> 30000"
proof -
  have "observeBootStatus 9 dead_world short_cfg 0 = Some
     ([OnReconnect, OnDisconnect 2000, OnReconnect, OnDisconnect 4000, OnReconnect, OnDisconnect 8000,
      OnReconnect, OnDisconnect 16000], 14160)"
    by code_simp
  from observe_backoff_bounds [OF this, of 16000] show ?thesis
    by (simp add: short_cfg_def default_cfg_def)
qed

text \<open>C4: while the address still answers with the controller that is being replaced
  (its 404 on \<open>/boot-status\<close>, its own or no boot id on \<open>/status/ping\<close>), no event is
  reported: the old controller's 404 is never taken for the completion of the
  update.\<close>

theorem observe_not_fooled:
  assumes "given (bc_previousBootID cfg)"
    and "\<And>t w resp w'. be_net env (plain_get (bc_baseURL cfg @ ''/boot-status?t='' @ int_str t)) w
        = (Inr resp, w') \<Longrightarrow> rs_status resp = 404"
    and "\<And>w. fst (readBootID env (bc_baseURL cfg) w) \<in> {None, bc_previousBootID cfg}"
    and "observeBootStatus fuel env cfg w = Some (tr, w')"
  shows "OnEvent e \<notin> set tr"
proof
  assume "OnEvent e \<in> set tr"
  then show False
    using assms(4) observe_loop_quiet [OF boot_attempt_quiet [OF assms(1-3)]]
    by (fastforce simp: observeBootStatus_def split: prod.splits)
qed

definition old_world :: "int boot_env" where
  "old_world = dead_world\<lparr>be_net := (\<lambda>rq w.
     if starts_with ''http://box:5309/status/ping'' (rq_url rq)
     then (Inr \<lparr>rs_status = 200, rs_chunks = [stringify (JObj [(''boot_id'', JStr ''old'')])],
                rs_broken = False\<rparr>, w + 40)
     else (Inr \<lparr>rs_status = 404, rs_chunks = [], rs_broken = False\<rparr>, w + 40))\<rparr>"

lemma old_world_boot_id: "fst (readBootID old_world ''http://box:5309'' w) = Some ''old''"
proof -
  have "response_json \<lparr>rs_status = 200, rs_chunks = [stringify (JObj [(''boot_id'', JStr ''old'')])],
      rs_broken = False\<rparr> = Inr (JObj [(''boot_id'', JStr ''old'')])"
    by code_simp
  moreover have "js_opt_prop (JObj [(''boot_id'', JStr ''old'')]) ''boot_id'' = JStr ''old''"
    by code_simp
  ultimately show ?thesis
    by (simp add: readBootID_def old_world_def dead_world_def plain_get_def)
qed

theorem observe_not_fooled_witness: "OnEvent done_evt \<notin> set [OnReconnect, OnDisconnect 2000,
   OnReconnect, OnDisconnect 4000, OnReconnect, OnDisconnect 8000]"
proof -
  have run: "observeBootStatus 9 old_world (short_cfg\<lparr>bc_maxEnvelopeMs := 14000\<rparr>) 0 = Some
     ([OnReconnect, OnDisconnect 2000, OnReconnect, OnDisconnect 4000, OnReconnect, OnDisconnect 8000], 6240)"
    by code_simp
  have url: "bc_baseURL (short_cfg\<lparr>bc_maxEnvelopeMs := 14000\<rparr>) = ''http://box:5309''"
    by code_simp
  show ?thesis
    by (rule observe_not_fooled [OF _ _ _ run])
      (auto simp: url old_world_boot_id, auto simp: short_cfg_def default_cfg_def given_def
         old_world_def dead_world_def plain_get_def)
qed

text \<open>The envelope that ends the observation after a disconnect is measured from the
  start of the observation, not from the last contact: when the first connection is
  read for longer than the envelope and then drops, the controller is not contacted
  again.\<close>

theorem observe_envelope_from_start:
  assumes "clocked env clock" "be_now env w = (s0, w1)" "\<And>w. \<not> be_aborted env w"
    and "0 < bc_baseBackoffMs cfg" "0 \<le> bc_maxEnvelopeMs cfg"
    and "fst (be_now env w1) \<le> s0 + bc_maxEnvelopeMs cfg"
    and "boot_attempt env cfg \<lparr>bs_backoff = bc_baseBackoffMs cfg, bs_lastConnectedAt = s0, bs_trace = []\<rparr>
        (snd (be_now env w1)) = (False, st, w2)"
    and "clock w2 > s0 + bc_maxEnvelopeMs cfg"
  shows "map_option fst (observeBootStatus (Suc fuel) env cfg w)
    = Some (bs_trace st @ [OnDisconnect (bs_backoff st)])"
proof -
  obtain t' w3 where now: "be_now env w2 = (t', w3)" by force
  obtain t w4 where now1: "be_now env w1 = (t, w4)" by force
  have "bs_backoff st = bc_baseBackoffMs cfg"
    using boot_attempt_backoff [OF assms(7)] by simp
  then have "t' - s0 + bs_backoff st > bc_maxEnvelopeMs cfg"
    using clocked_now [OF assms(1) now] assms(4,8) by linarith
  then show ?thesis
    using assms(2,3,5,6,7) by (simp add: observeBootStatus_def now now1 emit_def Let_def)
qed

definition long_stream_world :: "int boot_env" where
  "long_stream_world = dead_world\<lparr>be_net := (\<lambda>rq w.
     (Inr \<lparr>rs_status = 200, rs_chunks = [], rs_broken = False\<rparr>, w + 40)),
     be_stream := (\<lambda>resp w. w + 25000)\<rparr>"

theorem observe_envelope_from_start_witness:
  "map_option fst (observeBootStatus 5 long_stream_world short_cfg 0) = Some [OnReconnect, OnDisconnect 2000]"
proof -
  have att: "boot_attempt long_stream_world short_cfg
      \<lparr>bs_backoff = bc_baseBackoffMs short_cfg, bs_lastConnectedAt = 0, bs_trace = []\<rparr>
      (snd (be_now long_stream_world 0))
    = (False, \<lparr>bs_backoff = 2000, bs_lastConnectedAt = 40, bs_trace = [OnReconnect]\<rparr>, 25040)"
    by code_simp
  have "clocked long_stream_world (\<lambda>w. w)"
    by (simp add: clocked_def long_stream_world_def dead_world_def)
  from observe_envelope_from_start [OF this _ _ _ _ _ att, where fuel = 4] show ?thesis
    by (simp add: long_stream_world_def dead_world_def short_cfg_def default_cfg_def)
qed

end
