(* ===== verification/BootStepper.thy ===== *)
theory BootStepper
  imports BootClient
begin

text \<open>
  \<^verbatim>\<open>ui/src/components/system/boot-steps.js\<close> and
  \<^verbatim>\<open>ui/src/components/system/BootStatusStepper.jsx\<close>: the component that shows the
  progress of a boot.  Its hooks are the fields of a record, the callbacks it hands
  to \<open>observeBootStatus\<close> are transitions, and the rendered rows are a function of the
  record; the markup and the translated labels are left out.
\<close>

section \<open>The stages\<close>

definition bootSteps :: "string list" where
  "bootSteps = [''boot_controller'', ''boot_dns'', ''boot_services'', ''restart_packages'', ''ready'']"

definition PACKAGE_PREFIX :: string where "PACKAGE_PREFIX = ''restarting_''"
definition RESTART_STAGE :: string where "RESTART_STAGE = ''restart_packages''"

text \<open>\<open>indexOf\<close>\<close>

fun index_from :: "int \<Rightarrow> 'a list \<Rightarrow> 'a \<Rightarrow> int" where
  "index_from i [] x = -1"
| "index_from i (y # ys) x = (if y = x then i else index_from (i + 1) ys x)"

definition index_of :: "'a list \<Rightarrow> 'a \<Rightarrow> int" where
  "index_of xs x = index_from 0 xs x"

section \<open>State and callbacks\<close>

text \<open>
  \<open>sp_mdnsTimer\<close> is whether \<open>mdnsTimerRef\<close> holds a timer; \<open>sp_completed\<close> and
  \<open>sp_errors\<close> are the calls of \<open>onComplete\<close> and \<open>onError\<close>.
\<close>

record stepper =
  sp_currentStep :: "string option"
  sp_packages :: "string list"
  sp_currentPackage :: "string option"
  sp_errorMsg :: "json option"
  sp_reconnectIn :: "int option"
  sp_showMdnsHint :: bool
  sp_mdnsTimer :: bool
  sp_completed :: nat
  sp_errors :: "json list"

definition initial_stepper :: stepper where
  "initial_stepper =
     \<lparr>sp_currentStep = None, sp_packages = [], sp_currentPackage = None, sp_errorMsg = None,
      sp_reconnectIn = None, sp_showMdnsHint = False, sp_mdnsTimer = False, sp_completed = 0,
      sp_errors = []\<rparr>"

definition on_step :: "string \<Rightarrow> stepper \<Rightarrow> stepper" where
  "on_step step st =
     (let st1 = st\<lparr>sp_reconnectIn := None, sp_mdnsTimer := False, sp_showMdnsHint := False\<rparr> in
      if starts_with PACKAGE_PREFIX step then
        (let name = drop (length PACKAGE_PREFIX) step in
         st1\<lparr>sp_packages := (if name \<in> set (sp_packages st1) then sp_packages st1
                             else sp_packages st1 @ [name]),
             sp_currentPackage := Some name, sp_currentStep := Some RESTART_STAGE\<rparr>)
      else if step \<in> set bootSteps then st1\<lparr>sp_currentStep := Some step\<rparr>
      else st1)"

text \<open>An event without properties (\<open>null\<close>) throws in \<open>onEvent\<close> and changes nothing.\<close>

definition on_event :: "json \<Rightarrow> stepper \<Rightarrow> stepper" where
  "on_event evt st =
     (case js_prop evt ''error'' of
        None \<Rightarrow> st
      | Some err \<Rightarrow>
          if truthy err then st\<lparr>sp_errorMsg := Some err, sp_errors := sp_errors st @ [err]\<rparr>
          else if truthy (js_opt_prop evt ''done'') then
            st\<lparr>sp_currentStep := Some ''ready'', sp_currentPackage := None,
               sp_completed := sp_completed st + 1\<rparr>
          else (case js_opt_prop evt ''step'' of JStr step \<Rightarrow> on_step step st | _ \<Rightarrow> st))"

definition on_disconnect :: "int \<Rightarrow> stepper \<Rightarrow> stepper" where
  "on_disconnect ms st = st\<lparr>sp_reconnectIn := Some ms, sp_mdnsTimer := True\<rparr>"

definition mdns_timer_fired :: "stepper \<Rightarrow> stepper" where
  "mdns_timer_fired st = (if sp_mdnsTimer st then st\<lparr>sp_showMdnsHint := True\<rparr> else st)"

definition on_output :: "boot_out \<Rightarrow> stepper \<Rightarrow> stepper" where
  "on_output out st =
     (case out of OnEvent e \<Rightarrow> on_event e st | OnDisconnect ms \<Rightarrow> on_disconnect ms st | OnReconnect \<Rightarrow> st)"

definition stepper_run :: "boot_out list \<Rightarrow> stepper \<Rightarrow> stepper" where
  "stepper_run outs st = fold on_output outs st"

section \<open>Rendering\<close>

datatype row_state = RowPending | RowInProgress | RowDone | RowError

record row =
  row_step :: string
  row_pkg :: "string option"
  row_state :: row_state

definition stageState :: "int \<Rightarrow> int \<Rightarrow> bool \<Rightarrow> row_state" where
  "stageState idx currentIndex hasError =
     (if hasError \<and> idx = currentIndex then RowError
      else if currentIndex < 0 then RowPending
      else if idx < currentIndex then RowDone
      else if idx = currentIndex then RowInProgress
      else RowPending)"

definition packageState :: "string \<Rightarrow> string list \<Rightarrow> string option \<Rightarrow> int \<Rightarrow> bool \<Rightarrow> row_state" where
  "packageState name packages currentPackage currentIndex hasError =
     (let restartIndex = index_of bootSteps RESTART_STAGE in
      if currentIndex < restartIndex then RowPending
      else if currentIndex > restartIndex then RowDone
      else
        (let idx = index_of packages name;
             curIdx = (if given currentPackage then index_of packages (the currentPackage) else -1)
         in if idx < curIdx then RowDone
            else if idx = curIdx then (if hasError then RowError else RowInProgress)
            else RowPending))"

definition current_index :: "stepper \<Rightarrow> int" where
  "current_index st =
     (if given (sp_currentStep st) then index_of bootSteps (the (sp_currentStep st)) else -1)"

definition has_error :: "stepper \<Rightarrow> bool" where
  "has_error st = (sp_errorMsg st \<noteq> None)"

definition stage_row :: "stepper \<Rightarrow> string \<Rightarrow> row" where
  "stage_row st step =
     \<lparr>row_step = step, row_pkg = None,
      row_state = stageState (index_of bootSteps step) (current_index st) (has_error st)\<rparr>"

definition package_row :: "stepper \<Rightarrow> string \<Rightarrow> row" where
  "package_row st name =
     \<lparr>row_step = PACKAGE_PREFIX @ name, row_pkg = Some name,
      row_state = packageState name (sp_packages st) (sp_currentPackage st) (current_index st) (has_error st)\<rparr>"

definition stepper_rows :: "stepper \<Rightarrow> row list" where
  "stepper_rows st =
     concat (map (\<lambda>step. stage_row st step #
       (if step = RESTART_STAGE then map (package_row st) (sp_packages st) else [])) bootSteps)"

definition show_reconnect :: "stepper \<Rightarrow> bool" where
  "show_reconnect st = (sp_reconnectIn st \<noteq> None \<and> \<not> has_error st)"

definition show_mdns_hint :: "stepper \<Rightarrow> bool" where
  "show_mdns_hint st = (sp_showMdnsHint st \<and> \<not> has_error st)"

section \<open>Lemmas on the display\<close>

lemmas stage_defs = bootSteps_def RESTART_STAGE_def PACKAGE_PREFIX_def index_of_def

lemma index_from_ge: "x \<in> set xs \<Longrightarrow> i \<le> index_from i xs x"
  by (induction i xs x rule: index_from.induct) auto

lemma index_from_notin: "x \<notin> set xs \<Longrightarrow> index_from i xs x = -1"
  by (induction i xs x rule: index_from.induct) auto

lemma index_from_nth: "distinct xs \<Longrightarrow> k < length xs \<Longrightarrow> index_from i xs (xs ! k) = i + int k"
proof (induction xs arbitrary: i k)
  case (Cons x xs)
  then show ?case by (cases k) (auto simp: nth_mem)
qed simp

lemma index_of_nth: "distinct xs \<Longrightarrow> k < length xs \<Longrightarrow> index_of xs (xs ! k) = int k"
  by (simp add: index_of_def index_from_nth)

text \<open>What a run of events shows, without the connection indicators.\<close>

definition display :: "stepper \<Rightarrow> string option \<times> string list \<times> string option" where
  "display st = (sp_currentStep st, sp_packages st, sp_currentPackage st)"

definition step_evt :: "string \<Rightarrow> boot_out" where
  "step_evt s = OnEvent (JObj [(''step'', JStr s)])"

lemma on_step_evt [simp]: "on_output (step_evt s) st = on_step s st"
  by (simp add: step_evt_def on_output_def on_event_def js_prop_def js_opt_prop_def)

lemma stepper_run_simps [simp]:
  "stepper_run [] st = st"
  "stepper_run (x # xs) st = stepper_run xs (on_output x st)"
  "stepper_run (xs @ ys) st = stepper_run ys (stepper_run xs st)"
  by (simp_all add: stepper_run_def)

definition package_names :: "string list \<Rightarrow> string list" where
  "package_names steps =
     map (drop (length PACKAGE_PREFIX)) (filter (starts_with PACKAGE_PREFIX) steps)"

definition known :: "string \<Rightarrow> bool" where
  "known s \<longleftrightarrow> starts_with PACKAGE_PREFIX s \<or> s \<in> set bootSteps"

lemma run_steps_current:
  "sp_currentStep (stepper_run (map step_evt steps) st) =
    (if filter known steps = [] then sp_currentStep st
     else sp_currentStep (stepper_run (map step_evt steps) st'))"
proof (induction steps arbitrary: st st')
  case (Cons s steps)
  show ?case
  proof (cases "filter known steps = []")
    case True
    have "sp_currentStep (stepper_run (map step_evt steps) (on_step s st)) = sp_currentStep (on_step s st)"
      for st using Cons.IH [of "on_step s st" "on_step s st"] True by simp
    then show ?thesis
      by (cases "known s") (auto simp: on_step_def Let_def known_def [of s] True)
  next
    case False
    then show ?thesis using Cons.IH [of "on_step s st" "on_step s st'"] by simp
  qed
qed simp

lemma run_steps_package:
  "sp_currentPackage (stepper_run (map step_evt steps) st) =
    (if package_names steps = [] then sp_currentPackage st else Some (last (package_names steps)))"
  by (induction steps arbitrary: st)
    (auto simp: on_step_def Let_def package_names_def)

lemma on_step_packages:
  "sp_packages (on_step s st) =
    (if starts_with PACKAGE_PREFIX s \<and> drop (length PACKAGE_PREFIX) s \<notin> set (sp_packages st)
     then sp_packages st @ [drop (length PACKAGE_PREFIX) s] else sp_packages st)"
  by (auto simp: on_step_def Let_def)

lemma run_steps_packages_kept:
  "set (package_names steps) \<subseteq> set (sp_packages st) \<Longrightarrow>
    sp_packages (stepper_run (map step_evt steps) st) = sp_packages st"
  by (induction steps arbitrary: st)
    (auto simp: on_step_packages package_names_def split: if_splits)

lemma run_steps_packages_set:
  "set (sp_packages (stepper_run (map step_evt steps) st)) = set (sp_packages st) \<union> set (package_names steps)"
  by (induction steps arbitrary: st)
    (auto simp: on_step_packages package_names_def split: if_splits)

lemma on_output_distinct: "distinct (sp_packages st) \<Longrightarrow> distinct (sp_packages (on_output x st))"
  by (auto simp: on_output_def on_event_def on_disconnect_def on_step_packages
      split: boot_out.splits option.splits json.splits)

lemma stepper_run_distinct: "distinct (sp_packages st) \<Longrightarrow> distinct (sp_packages (stepper_run xs st))"
  by (induction xs arbitrary: st) (auto simp: on_output_distinct)

section \<open>Completion\<close>

definition done_msg :: "json \<Rightarrow> bool" where
  "done_msg e = truthy (js_opt_prop e ''done'')"

lemma boot_handler_next:
  "boot_handler events line = Inl events' \<Longrightarrow>
     \<exists>es. events' = events @ es \<and> (\<forall>e\<in>set es. \<not> done_msg e)"
  by (auto simp: boot_handler_def done_msg_def js_opt_prop_def split: if_splits option.splits)

lemma boot_handler_stop:
  "boot_handler events line = Inr (events', r) \<Longrightarrow>
     \<exists>e. events' = events @ [e] \<and> (r = Inr () \<longleftrightarrow> done_msg e)"
  by (auto simp: boot_handler_def done_msg_def js_opt_prop_def split: if_splits option.splits)

lemma boot_lines_next:
  "run_lines boot_handler events ls = Inl events' \<Longrightarrow>
     \<exists>es. events' = events @ es \<and> (\<forall>e\<in>set es. \<not> done_msg e)"
proof (induction ls arbitrary: events)
  case (Cons l ls)
  then obtain ev where l: "boot_handler events l = Inl ev" and ls: "run_lines boot_handler ev ls = Inl events'"
    by (auto split: sum.splits)
  obtain es where "ev = events @ es" "\<forall>e\<in>set es. \<not> done_msg e"
    using boot_handler_next [OF l] by blast
  moreover obtain fs where "events' = ev @ fs" "\<forall>e\<in>set fs. \<not> done_msg e"
    using Cons.IH [OF ls] by blast
  ultimately show ?case by (intro exI [of _ "es @ fs"]) auto
qed simp

lemma boot_lines_stop:
  "run_lines boot_handler events ls = Inr (events', r) \<Longrightarrow>
     \<exists>es e. events' = events @ es @ [e] \<and> (\<forall>e\<in>set es. \<not> done_msg e) \<and> (r = Inr () \<longleftrightarrow> done_msg e)"
proof (induction ls arbitrary: events)
  case (Cons l ls)
  show ?case
  proof (cases "boot_handler events l")
    case (Inl ev)
    then have ls: "run_lines boot_handler ev ls = Inr (events', r)" using Cons.prems by simp
    obtain es where "ev = events @ es" "\<forall>e\<in>set es. \<not> done_msg e"
      using boot_handler_next [OF Inl] by blast
    moreover obtain fs e where "events' = ev @ fs @ [e]" "\<forall>e\<in>set fs. \<not> done_msg e" "r = Inr () \<longleftrightarrow> done_msg e"
      using Cons.IH [OF ls] by blast
    ultimately show ?thesis by (intro exI [of _ "es @ fs"] exI [of _ e]) auto
  next
    case (Inr x)
    then have "boot_handler events l = Inr (events', r)" using Cons.prems by simp
    from boot_handler_stop [OF this] obtain e where "events' = events @ [e]" "r = Inr () \<longleftrightarrow> done_msg e"
      by blast
    then show ?thesis by (intro exI [of _ "[]"] exI [of _ e]) simp
  qed
qed simp

lemma boot_chunks_lines:
  "run_chunks boot_handler [] [] cs = Inl (ev, b) \<Longrightarrow>
    run_lines boot_handler [] (butlast (split_on newline (concat cs))) = Inl ev"
  "run_chunks boot_handler [] [] cs = Inr (ev, r) \<Longrightarrow>
    run_lines boot_handler [] (butlast (split_on newline (concat cs))) = Inr (ev, r)"
  by (auto simp: run_chunks_start Let_def split: sum.splits)

lemma read_boot_stream_done:
  assumes "read_boot_stream resp = (events, how)"
  obtains (not_done) "how \<noteq> StreamDone" "\<forall>e\<in>set events. \<not> done_msg e"
  | (finished) es e where "how = StreamDone" "events = es @ [e]" "\<forall>e\<in>set es. \<not> done_msg e" "done_msg e"
proof (cases "run_chunks boot_handler [] [] (rs_chunks resp)")
  case (Inl x)
  obtain ev b where x: "x = (ev, b)" by force
  with boot_chunks_lines(1) Inl have "run_lines boot_handler [] (butlast (split_on newline (concat (rs_chunks resp)))) = Inl ev"
    by blast
  from boot_lines_next [OF this] have "\<forall>e\<in>set ev. \<not> done_msg e" by auto
  moreover have "how \<noteq> StreamDone" "events = ev"
    using assms Inl x by (auto simp: read_boot_stream_def split: if_splits)
  ultimately show ?thesis by (intro not_done) auto
next
  case (Inr x)
  obtain ev r where x: "x = (ev, r)" by force
  with boot_chunks_lines(2) Inr have "run_lines boot_handler [] (butlast (split_on newline (concat (rs_chunks resp)))) = Inr (ev, r)"
    by blast
  from boot_lines_stop [OF this] obtain es e where
    ev: "ev = es @ [e]" "\<forall>e\<in>set es. \<not> done_msg e" "r = Inr () \<longleftrightarrow> done_msg e"
    by auto
  consider err where "r = Inl err" | "r = Inr ()" by (metis old.unit.exhaust sumE)
  then show ?thesis
  proof cases
    case 1
    then have "how \<noteq> StreamDone" "events = ev"
      using assms Inr x by (auto simp: read_boot_stream_def)
    then show ?thesis using ev 1 by (intro not_done) auto
  next
    case 2
    have "read_boot_stream resp = (ev, StreamDone)"
      unfolding read_boot_stream_def Inr x 2 sum.case prod.case by (rule old.unit.case)
    then have "how = StreamDone" "events = ev" using assms by simp_all
    then show ?thesis using ev 2 finished [of es e] by simp
  qed
qed

text \<open>The last attempt of an observation is the only one that may report a \<open>done\<close>.\<close>

definition no_done :: "boot_out list \<Rightarrow> bool" where
  "no_done tr \<longleftrightarrow> (\<forall>e. OnEvent e \<in> set tr \<longrightarrow> \<not> done_msg e)"

definition done_last :: "boot_out list \<Rightarrow> bool" where
  "done_last tr \<longleftrightarrow> no_done tr \<or> (\<exists>tr' e. tr = tr' @ [OnEvent e] \<and> no_done tr' \<and> done_msg e)"

lemma boot_attempt_stream:
  assumes att: "boot_attempt env cfg st w = (fin, st1, w')"
  obtains (quiet) "bs_trace st1 = bs_trace st @ [OnReconnect]"
  | (stub) "fin" "bs_trace st1 = bs_trace st @ [OnReconnect, OnEvent done_evt]"
  | (stream) resp events how where "read_boot_stream resp = (events, how)"
      "bs_trace st1 = bs_trace st @ OnReconnect # map OnEvent events" "how = StreamDone \<longrightarrow> fin"
proof -
  obtain t w1 where now: "be_now env w = (t, w1)" by force
  obtain r w2 where net: "be_net env (plain_get (bc_baseURL cfg @ ''/boot-status?t='' @ int_str t)) w1 = (r, w2)"
    by force
  show thesis
  proof (cases r)
    case (Inl err)
    then have "bs_trace st1 = bs_trace st @ [OnReconnect]"
      using att net now by (auto simp: boot_attempt_def emit_def)
    then show ?thesis by (rule quiet)
  next
    case (Inr resp)
    obtain b w3 where id: "readBootID env (bc_baseURL cfg) w2 = (b, w3)" by force
    obtain events how where rd: "read_boot_stream resp = (events, how)" by force
    obtain t2 w4 where now2: "be_now env w2 = (t2, w4)" by force
    consider "rs_status resp = 404" | "rs_status resp \<noteq> 404" "\<not> rs_ok resp \<or> null_body resp"
      | "rs_status resp \<noteq> 404" "rs_ok resp" "\<not> null_body resp"
      by blast
    then show ?thesis
    proof cases
      case 1
      then have "bs_trace st1 = bs_trace st @ [OnReconnect] \<or>
          fin \<and> bs_trace st1 = bs_trace st @ [OnReconnect, OnEvent done_evt]"
        using att net now Inr id by (auto simp: boot_attempt_def emit_def Let_def split: if_splits)
      then show ?thesis using quiet stub by blast
    next
      case 2
      then have "bs_trace st1 = bs_trace st @ [OnReconnect]"
        using att net now Inr by (auto simp: boot_attempt_def emit_def)
      then show ?thesis by (rule quiet)
    next
      case 3
      have "bs_trace st1 = bs_trace st @ OnReconnect # map OnEvent events" "how = StreamDone \<longrightarrow> fin"
        using att net now Inr 3 rd now2
        by (auto simp: boot_attempt_def emit_def Let_def split: stream_end.splits)
      then show ?thesis using rd stream by blast
    qed
  qed
qed

lemma boot_attempt_done:
  assumes att: "boot_attempt env cfg st w = (fin, st1, w')" and st: "no_done (bs_trace st)"
  shows "done_last (bs_trace st1) \<and> (\<not> fin \<longrightarrow> no_done (bs_trace st1))"
  using att
proof (cases rule: boot_attempt_stream)
  case quiet
  then show ?thesis using st by (simp add: done_last_def no_done_def)
next
  case stub
  have "done_msg done_evt" by code_simp
  moreover have "no_done (bs_trace st @ [OnReconnect])" using st by (simp add: no_done_def)
  ultimately show ?thesis using stub unfolding done_last_def
    by (metis append.assoc append_Cons append_Nil)
next
  case (stream resp events how)
  from stream(1) show ?thesis
  proof (cases rule: read_boot_stream_done)
    case not_done
    then show ?thesis using st stream by (auto simp: done_last_def no_done_def)
  next
    case (finished es e)
    have "no_done (bs_trace st @ OnReconnect # map OnEvent es)"
      using st finished by (auto simp: no_done_def)
    then show ?thesis using stream finished unfolding done_last_def by auto
  qed
qed

lemma observe_loop_done:
  "observe_loop fuel env cfg s0 st w = Some (st', w') \<Longrightarrow> no_done (bs_trace st) \<Longrightarrow> done_last (bs_trace st')"
proof (induction fuel arbitrary: st w)
  case (Suc fuel)
  obtain t w1 where now: "be_now env w = (t, w1)" by force
  obtain fin st1 w2 where att: "boot_attempt env cfg st w1 = (fin, st1, w2)"
    by (metis prod.exhaust)
  obtain t' w3 where now': "be_now env w2 = (t', w3)" by force
  note at = boot_attempt_done [OF att Suc.prems(2)]
  let ?st2 = "emit (OnDisconnect (bs_backoff st1)) st1"
  have nd: "no_done (bs_trace ?st2)" if "\<not> fin"
    using at that by (simp add: no_done_def emit_def)
  consider (stop) "st' = st" | (fin) "st' = st1" | (quit) "\<not> fin" "st' = ?st2"
    | (again) "\<not> fin" "observe_loop fuel env cfg s0
         (?st2\<lparr>bs_backoff := min (bs_backoff st1 * 2) (bc_maxBackoffMs cfg)\<rparr>) (be_sleep env (bs_backoff st1) w3) = Some (st', w')"
    using Suc.prems(1) by (auto simp: now att now' Let_def emit_def split: if_splits)
  then show ?case
  proof cases
    case again
    show ?thesis by (rule Suc.IH [OF again(2)]) (simp add: nd [OF again(1)])
  qed (use at nd Suc.prems(2) in \<open>auto simp: done_last_def\<close>)
qed simp

lemma stepper_run_completed:
  "no_done tr \<Longrightarrow> sp_completed (stepper_run tr st) = sp_completed st"
proof (induction tr arbitrary: st)
  case (Cons x tr)
  have "sp_completed (on_output x st) = sp_completed st"
    using Cons.prems
    by (auto simp: no_done_def done_msg_def on_output_def on_event_def on_disconnect_def on_step_def Let_def
        split: boot_out.splits option.splits json.splits)
  then show ?case using Cons by (simp add: no_done_def)
qed simp

section \<open>Properties\<close>

lemma current_index_range:
  "-1 \<le> current_index st \<and> current_index st < 5"
  by (simp add: current_index_def stage_defs)

text \<open>The stepper shows a boot consistently: of the five stages, those before the current
  one are done, the current one is in progress (or in error) and those after it are
  pending; before any stage is known all are pending.\<close>

theorem stage_rows_ordered:
  "(if current_index st < 0
    then map (\<lambda>s. row_state (stage_row st s)) bootSteps = replicate 5 RowPending
    else map (\<lambda>s. row_state (stage_row st s)) bootSteps
      = replicate (nat (current_index st)) RowDone
       @ (if has_error st then RowError else RowInProgress)
       # replicate (4 - nat (current_index st)) RowPending)"
proof -
  consider "current_index st = -1" | "current_index st = 0" | "current_index st = 1"
    | "current_index st = 2" | "current_index st = 3" | "current_index st = 4"
    using current_index_range [of st] by linarith
  then show ?thesis
    by cases (simp_all add: stage_row_def stageState_def stage_defs numeral_eq_Suc)
qed

text \<open>The rows of the installed packages follow the restart stage: all pending before it,
  all done after it, and during it exactly the package being restarted is in progress
  (or in error), those announced before it done and those after it pending.\<close>

theorem package_rows_ordered:
  assumes "distinct (sp_packages st)" "k < length (sp_packages st)"
    and "sp_currentPackage st = Some (sp_packages st ! k)" "sp_packages st ! k \<noteq> []"
  shows "map (\<lambda>p. row_state (package_row st p)) (sp_packages st) =
    (if current_index st < 3 then replicate (length (sp_packages st)) RowPending
     else if current_index st > 3 then replicate (length (sp_packages st)) RowDone
     else replicate k RowDone @ (if has_error st then RowError else RowInProgress)
       # replicate (length (sp_packages st) - Suc k) RowPending)"
proof -
  have restart: "index_of bootSteps RESTART_STAGE = 3" by code_simp
  have state: "row_state (package_row st (sp_packages st ! i)) =
     (if current_index st < 3 then RowPending else if current_index st > 3 then RowDone
      else if i < k then RowDone
      else if i = k then (if has_error st then RowError else RowInProgress) else RowPending)"
    if "i < length (sp_packages st)" for i
    using that assms
    by (simp add: package_row_def packageState_def restart index_of_nth given_def Let_def)
  show ?thesis
    using assms(2) by (auto intro!: nth_equalityI simp: state nth_append nth_Cons')
qed

definition two_packages :: stepper where
  "two_packages = stepper_run (map step_evt
     [''boot_controller'', ''restart_packages'', ''restarting_core/a'', ''restarting_core/b'']) initial_stepper"

theorem package_rows_ordered_witness:
  "map (\<lambda>p. row_state (package_row two_packages p)) [''core/a'', ''core/b''] = [RowDone, RowInProgress]"
proof -
  have st: "sp_packages two_packages = [''core/a'', ''core/b'']"
    "sp_currentPackage two_packages = Some ''core/b''"
    "current_index two_packages = 3" "has_error two_packages = False"
    by code_simp+
  show ?thesis using package_rows_ordered [of two_packages 1] by (simp add: st)
qed

text \<open>The rows have unique keys whatever the stream sends: a package announced twice is
  one row, and no package row collides with a stage.\<close>

theorem stepper_rows_keys:
  "distinct (map row_step (stepper_rows (stepper_run outs initial_stepper)))"
proof -
  let ?st = "stepper_run outs initial_stepper"
  have d: "distinct (sp_packages ?st)"
    by (rule stepper_run_distinct) (simp add: initial_stepper_def)
  have keys: "map row_step (stepper_rows ?st) =
     [''boot_controller'', ''boot_dns'', ''boot_services'', ''restart_packages'']
       @ map (\<lambda>n. PACKAGE_PREFIX @ n) (sp_packages ?st) @ [''ready'']"
    by (simp add: stepper_rows_def stage_row_def package_row_def bootSteps_def RESTART_STAGE_def comp_def)
  have "inj_on ((@) PACKAGE_PREFIX) A" for A
    by (simp add: inj_on_def)
  with d show ?thesis
    unfolding keys by (auto simp: distinct_map PACKAGE_PREFIX_def)
qed

text \<open>A reconnect is invisible once the history is replayed: receiving the same steps a
  second time, as the server replays them, ends in the same current stage, the same
  packages in the same order and the same current package.\<close>

theorem replay_same_display:
  "display (stepper_run (map step_evt steps @ OnDisconnect ms # OnReconnect # map step_evt steps) st)
   = display (stepper_run (map step_evt steps) st)"
proof -
  let ?s1 = "stepper_run (map step_evt steps) st"
  let ?s2 = "on_disconnect ms ?s1"
  have same: "sp_currentStep ?s2 = sp_currentStep ?s1" "sp_packages ?s2 = sp_packages ?s1"
    "sp_currentPackage ?s2 = sp_currentPackage ?s1"
    by (simp_all add: on_disconnect_def)
  have "sp_currentStep (stepper_run (map step_evt steps) ?s2) = sp_currentStep ?s1"
    using run_steps_current [of steps ?s2 st] same(1) by (auto split: if_splits)
  moreover have "sp_packages (stepper_run (map step_evt steps) ?s2) = sp_packages ?s1"
    using run_steps_packages_kept [of steps ?s2] same(2) run_steps_packages_set [of steps st] by auto
  moreover have "sp_currentPackage (stepper_run (map step_evt steps) ?s2) = sp_currentPackage ?s1"
    by (simp add: run_steps_package same(3))
  ultimately show ?thesis
    by (simp add: display_def on_output_def)
qed

text \<open>C11: a boot completes at most once: over a whole observation the stepper calls
  \<open>onComplete\<close> no more than once, and then it was the last thing the observer
  reported.\<close>

theorem boot_completes_once:
  assumes "observeBootStatus fuel env cfg w = Some (tr, w')"
  shows "sp_completed (stepper_run tr initial_stepper) \<le> 1 \<and>
    (sp_completed (stepper_run tr initial_stepper) = 1 \<longrightarrow>
      (\<exists>tr' e. tr = tr' @ [OnEvent e] \<and> done_msg e \<and> sp_completed (stepper_run tr' initial_stepper) = 0))"
proof -
  have "done_last tr"
    using assms observe_loop_done by (fastforce simp: observeBootStatus_def no_done_def split: prod.splits)
  then consider "no_done tr" | tr' e where "tr = tr' @ [OnEvent e]" "no_done tr'" "done_msg e"
    unfolding done_last_def by blast
  then show ?thesis
  proof cases
    case 1
    then show ?thesis by (simp add: stepper_run_completed initial_stepper_def)
  next
    case 2
    have c0: "sp_completed (stepper_run tr' initial_stepper) = 0"
      using 2(2) by (simp add: stepper_run_completed initial_stepper_def)
    moreover have "sp_completed (on_output (OnEvent e) st) \<le> sp_completed st + 1" for st
      by (simp add: on_output_def on_event_def on_step_def Let_def split: option.splits json.splits)
    ultimately have "sp_completed (stepper_run tr initial_stepper) \<le> 1"
      using 2(1) by (metis add_0 stepper_run_simps(1,2,3))
    then show ?thesis using 2 c0 by blast
  qed
qed

definition booted_world :: "int boot_env" where
  "booted_world = dead_world\<lparr>be_net := (\<lambda>rq w.
     (Inr \<lparr>rs_status = 404, rs_chunks = [], rs_broken = False\<rparr>, w + 40))\<rparr>"

theorem boot_completes_once_witness:
  "sp_completed (stepper_run [OnReconnect, OnEvent done_evt] initial_stepper) \<le> 1"
proof -
  have "observeBootStatus 3 booted_world (default_cfg ''http://box:5309'' None) 0
    = Some ([OnReconnect, OnEvent done_evt], 40)"
    by code_simp
  from boot_completes_once [OF this] show ?thesis by blast
qed

end
