(* ===== verification/LogFormat.thy ===== *)
theory LogFormat
  imports JsBase
begin

text \<open>
  \<^verbatim>\<open>ui/src/lib/log-format.js\<close>: colours, fields and minutes of journal lines.

  The regular expressions are deterministic (no repeated class contains the
  character that ends it), so a global match is a left to right scan that either
  matches at a position and skips the match, or moves on by one character.
\<close>

section \<open>Escape sequences\<close>

definition ESC :: char where "ESC = CHR 0x1B"

definition ANSI_GREYS :: "string \<Rightarrow> string option" where
  "ANSI_GREYS code =
     (if code \<in> set [''30'', ''31'', ''32'', ''33'', ''34'', ''35'', ''36'', ''37'',
                     ''90'', ''91'', ''92'', ''93'', ''94'', ''95'', ''96'', ''97'']
      then Some (''var(--log-ansi-'' @ code @ '')'') else None)"

definition code_char :: "char \<Rightarrow> bool" where
  "code_char c \<longleftrightarrow> is_digit c \<or> c = CHR '';''"

text \<open>A match of \<^verbatim>\<open>\x1b\[([0-9;]*)m\<close> at the start: the captured codes and the rest.\<close>

definition ansi_match :: "string \<Rightarrow> (string \<times> string) option" where
  "ansi_match s =
     (case s of
        e # b # t \<Rightarrow>
          if e = ESC \<and> b = CHR ''['' then
            (case dropWhile code_char t of
               m # r \<Rightarrow> if m = CHR ''m'' then Some (takeWhile code_char t, r) else None
             | [] \<Rightarrow> None)
          else None
      | _ \<Rightarrow> None)"

lemma length_dropWhile_less [termination_simp]: "dropWhile P t = m # r \<Longrightarrow> length r < length t"
  by (metis Suc_le_lessD length_Cons length_dropWhile_le)

lemma ansi_match_shorter: "ansi_match s = Some (codes, r) \<Longrightarrow> length r < length s"
  using length_dropWhile_less
  by (fastforce simp: ansi_match_def split: list.splits if_splits)

record style =
  sty_color :: "string option"
  sty_bold :: bool

record segment =
  seg_str :: string
  seg_color :: "string option"
  seg_bold :: bool

definition apply_code :: "string \<Rightarrow> style \<Rightarrow> style" where
  "apply_code code st =
     (if code = ''0'' then st\<lparr>sty_color := None, sty_bold := False\<rparr>
      else if code = ''1'' then st\<lparr>sty_bold := True\<rparr>
      else (case ANSI_GREYS code of Some g \<Rightarrow> st\<lparr>sty_color := Some g\<rparr> | None \<Rightarrow> st))"

definition apply_codes :: "string \<Rightarrow> style \<Rightarrow> style" where
  "apply_codes codes st = fold apply_code (filter (\<lambda>c. c \<noteq> []) (split_on CHR '';'' codes)) st"

definition push_segment :: "string \<Rightarrow> style \<Rightarrow> segment list" where
  "push_segment str st =
     (if str = [] then [] else [\<lparr>seg_str = str, seg_color = sty_color st, seg_bold = sty_bold st\<rparr>])"

text \<open>The scan: the text since the last match, the current style and the rest of the line.\<close>

function ansi_scan :: "string \<Rightarrow> style \<Rightarrow> string \<Rightarrow> segment list" where
  "ansi_scan pending st s =
     (case s of
        [] \<Rightarrow> push_segment pending st
      | c # t \<Rightarrow>
          (case ansi_match s of
             Some (codes, r) \<Rightarrow> push_segment pending st @ ansi_scan [] (apply_codes codes st) r
           | None \<Rightarrow> ansi_scan (pending @ [c]) st t))"
  by pat_completeness auto
termination
  by (relation "measure (\<lambda>(p, st, s). length s)") (auto dest: ansi_match_shorter)

declare ansi_scan.simps [simp del]

definition parseAnsi :: "string \<Rightarrow> segment list" where
  "parseAnsi text = ansi_scan [] \<lparr>sty_color = None, sty_bold = False\<rparr> text"

function stripAnsi :: "string \<Rightarrow> string" where
  "stripAnsi s =
     (case s of
        [] \<Rightarrow> []
      | c # t \<Rightarrow>
          (case ansi_match s of
             Some (codes, r) \<Rightarrow> stripAnsi r
           | None \<Rightarrow> c # stripAnsi t))"
  by pat_completeness auto
termination
  by (relation "measure length") (auto dest: ansi_match_shorter)

declare stripAnsi.simps [simp del]

section \<open>Fields\<close>

text \<open>A character of \<^verbatim>\<open>\s\<close> at the start, in UTF-8.\<close>

definition space_at :: "string \<Rightarrow> bool" where
  "space_at s =
     (case map (of_char :: char \<Rightarrow> nat) (take 3 s) of
        [] \<Rightarrow> False
      | a # r \<Rightarrow>
          (9 \<le> a \<and> a \<le> 13) \<or> a = 32 \<or>
          (case r of
             [] \<Rightarrow> False
           | b # r' \<Rightarrow>
               (a = 0xC2 \<and> b = 0xA0) \<or>
               (case r' of
                  [] \<Rightarrow> False
                | c # _ \<Rightarrow>
                    (a = 0xE1 \<and> b = 0x9A \<and> c = 0x80) \<or>
                    (a = 0xE2 \<and> b = 0x80 \<and> ((0x80 \<le> c \<and> c \<le> 0x8A) \<or> c = 0xA8 \<or> c = 0xA9 \<or> c = 0xAF)) \<or>
                    (a = 0xE2 \<and> b = 0x81 \<and> c = 0x9F) \<or>
                    (a = 0xE3 \<and> b = 0x80 \<and> c = 0x80) \<or>
                    (a = 0xEF \<and> b = 0xBB \<and> c = 0xBF))))"

fun nonspace :: "string \<Rightarrow> string" where
  "nonspace [] = []"
| "nonspace (c # s) = (if space_at (c # s) then [] else c # nonspace s)"

definition name_start :: "char \<Rightarrow> bool" where
  "name_start c \<longleftrightarrow> is_alpha c \<or> c = CHR ''_''"

definition name_char :: "char \<Rightarrow> bool" where
  "name_char c \<longleftrightarrow> is_alpha c \<or> is_digit c \<or> c = CHR ''_'' \<or> c = CHR ''.''"

text \<open>A match of \<^verbatim>\<open>([A-Za-z_][A-Za-z0-9_.]*)(=)(\S*)\<close> at the start: name and value.\<close>

definition field_match :: "string \<Rightarrow> (string \<times> string) option" where
  "field_match s =
     (case s of
        [] \<Rightarrow> None
      | c # t \<Rightarrow>
          if name_start c then
            (case dropWhile name_char t of
               e # r \<Rightarrow> if e = CHR ''='' then Some (c # takeWhile name_char t, nonspace r) else None
             | [] \<Rightarrow> None)
          else None)"

datatype part = TextPart string | FieldPart string string string

definition push_text :: "string \<Rightarrow> part list" where
  "push_text v = (if v = [] then [] else [TextPart v])"

function field_scan :: "string \<Rightarrow> string \<Rightarrow> part list" where
  "field_scan pending s =
     (case s of
        [] \<Rightarrow> push_text pending
      | c # t \<Rightarrow>
          (case field_match s of
             Some (name, v) \<Rightarrow>
               push_text pending @ FieldPart name ''='' v
                 # field_scan [] (drop (length name + 1 + length v) s)
           | None \<Rightarrow> field_scan (pending @ [c]) t))"
  by pat_completeness auto
termination
  by (relation "measure (\<lambda>(p, s). length s)") auto

declare field_scan.simps [simp del]

definition parseFields :: "string \<Rightarrow> part list" where
  "parseFields text = field_scan [] text"

section \<open>Minutes\<close>

text \<open>
  The local time of a timestamp (\<open>None\<close> when it is not a date) and its label are what
  \<open>Date\<close> answers in the browser's time zone.
\<close>

record entry_date =
  ed_year :: int
  ed_month :: int
  ed_day :: int
  ed_hour :: int
  ed_minute :: int

definition minute_key :: "entry_date option \<Rightarrow> string" where
  "minute_key d =
     (case d of
        None \<Rightarrow> ''NaN-NaN-NaN-NaN-NaN''
      | Some e \<Rightarrow>
          join ''-'' (map int_str [ed_year e, ed_month e, ed_day e, ed_hour e, ed_minute e]))"

record 'e minute_group =
  mg_key :: string
  mg_label :: string
  mg_entries :: "'e list"

definition group_step ::
  "('e \<Rightarrow> entry_date option) \<Rightarrow> ('e \<Rightarrow> string) \<Rightarrow> 'e \<Rightarrow> 'e minute_group list \<Rightarrow> 'e minute_group list"
where
  "group_step date label entry groups =
     (let key = minute_key (date entry) in
      if groups = [] \<or> mg_key (last groups) \<noteq> key
      then groups @ [\<lparr>mg_key = key, mg_label = label entry, mg_entries = [entry]\<rparr>]
      else butlast groups
             @ [(last groups)\<lparr>mg_entries := mg_entries (last groups) @ [entry]\<rparr>])"

definition groupByMinute ::
  "('e \<Rightarrow> entry_date option) \<Rightarrow> ('e \<Rightarrow> string) \<Rightarrow> 'e list \<Rightarrow> 'e minute_group list"
where
  "groupByMinute date label entries = fold (group_step date label) entries []"

section \<open>Lemmas\<close>

lemma concat_push_segment [simp]: "concat (map seg_str (push_segment p st)) = p"
  by (simp add: push_segment_def)

lemma ansi_induct [case_names stop skip escape]:
  assumes "\<And>p st. P p st []"
    and "\<And>p st c t. ansi_match (c # t) = None \<Longrightarrow> P (p @ [c]) st t \<Longrightarrow> P p st (c # t)"
    and "\<And>p st c t codes r. ansi_match (c # t) = Some (codes, r) \<Longrightarrow> P [] (apply_codes codes st) r \<Longrightarrow>
      P p st (c # t)"
  shows "P p st s"
proof (induction p st s rule: ansi_scan.induct)
  case (1 p st s)
  show ?case
  proof (cases s)
    case Nil
    then show ?thesis using assms(1) by simp
  next
    case (Cons c t)
    then show ?thesis
      using 1 assms(2,3) by (cases "ansi_match s") auto
  qed
qed

lemma ansi_scan_simps [simp]:
  "ansi_scan p st [] = push_segment p st"
  "ansi_match (c # t) = None \<Longrightarrow> ansi_scan p st (c # t) = ansi_scan (p @ [c]) st t"
  "ansi_match (c # t) = Some (codes, r) \<Longrightarrow>
    ansi_scan p st (c # t) = push_segment p st @ ansi_scan [] (apply_codes codes st) r"
  by (simp_all add: ansi_scan.simps)

lemma stripAnsi_simps [simp]:
  "stripAnsi [] = []"
  "ansi_match (c # t) = None \<Longrightarrow> stripAnsi (c # t) = c # stripAnsi t"
  "ansi_match (c # t) = Some (codes, r) \<Longrightarrow> stripAnsi (c # t) = stripAnsi r"
  by (simp_all add: stripAnsi.simps)

lemma ansi_scan_text: "concat (map seg_str (ansi_scan p st s)) = p @ stripAnsi s"
  by (induction p st s rule: ansi_induct) auto

lemma ansi_scan_nonempty: "seg \<in> set (ansi_scan p st s) \<Longrightarrow> seg_str seg \<noteq> []"
  by (induction p st s rule: ansi_induct) (auto simp: push_segment_def split: if_splits)

text \<open>The reference: the style every visible character is shown in.\<close>

function styled :: "style \<Rightarrow> string \<Rightarrow> (char \<times> style) list" where
  "styled st s =
     (case s of
        [] \<Rightarrow> []
      | c # t \<Rightarrow>
          (case ansi_match s of
             Some (codes, r) \<Rightarrow> styled (apply_codes codes st) r
           | None \<Rightarrow> (c, st) # styled st t))"
  by pat_completeness auto
termination
  by (relation "measure (\<lambda>(st, s). length s)") (auto dest: ansi_match_shorter)

declare styled.simps [simp del]

definition seg_chars :: "segment \<Rightarrow> (char \<times> style) list" where
  "seg_chars seg = map (\<lambda>c. (c, \<lparr>sty_color = seg_color seg, sty_bold = seg_bold seg\<rparr>)) (seg_str seg)"

lemma push_segment_chars: "concat (map seg_chars (push_segment p st)) = map (\<lambda>c. (c, st)) p"
  by (cases st) (simp add: push_segment_def seg_chars_def)

lemma styled_simps [simp]:
  "styled st [] = []"
  "ansi_match (c # t) = None \<Longrightarrow> styled st (c # t) = (c, st) # styled st t"
  "ansi_match (c # t) = Some (codes, r) \<Longrightarrow> styled st (c # t) = styled (apply_codes codes st) r"
  by (simp_all add: styled.simps)

lemma ansi_scan_styled: "concat (map seg_chars (ansi_scan p st s)) = map (\<lambda>c. (c, st)) p @ styled st s"
  by (induction p st s rule: ansi_induct) (auto simp: push_segment_chars)

definition part_text :: "part \<Rightarrow> string" where
  "part_text p = (case p of TextPart v \<Rightarrow> v | FieldPart n e v \<Rightarrow> n @ e @ v)"

lemma part_text_simps [simp]:
  "part_text (TextPart v) = v" "part_text (FieldPart n e v) = n @ e @ v"
  by (simp_all add: part_text_def)

definition field_name :: "string \<Rightarrow> bool" where
  "field_name n \<longleftrightarrow> n \<noteq> [] \<and> name_start (hd n) \<and> list_all name_char (tl n)"

definition part_ok :: "part \<Rightarrow> bool" where
  "part_ok p = (case p of TextPart v \<Rightarrow> v \<noteq> [] | FieldPart n e v \<Rightarrow> field_name n \<and> e = ''='')"

lemma nonspace_prefix: "\<exists>t. s = nonspace s @ t \<and> (t = [] \<or> space_at t)"
  by (induction s) auto

lemma field_match_Some:
  assumes "field_match s = Some (name, v)"
  shows "field_name name \<and> (\<exists>t. s = name @ ''='' @ v @ t \<and> (t = [] \<or> space_at t))"
proof -
  obtain c t e r where s: "s = c # t" "name_start c" "dropWhile name_char t = e # r" "e = CHR ''=''"
    "name = c # takeWhile name_char t" "v = nonspace r"
    using assms by (auto simp: field_match_def split: list.splits if_splits)
  have t: "t = takeWhile name_char t @ CHR ''='' # r"
    using s(3,4) takeWhile_dropWhile_id [of name_char t] by simp
  obtain u where u: "r = v @ u" "u = [] \<or> space_at u"
    using nonspace_prefix [of r] s(6) by blast
  have "s = name @ ''='' @ v @ u"
    using t unfolding s(1,5) u(1) by (metis append.assoc append_Cons append_Nil)
  moreover have "list_all name_char (takeWhile name_char t)"
    by (auto simp: list_all_iff dest: set_takeWhileD)
  ultimately show ?thesis
    using s(2,5) u(2) by (auto simp: field_name_def)
qed

lemma concat_push_text [simp]: "concat (map part_text (push_text p)) = p"
  by (simp add: push_text_def)

lemma field_induct [case_names stop skip field]:
  assumes "\<And>p. P p []"
    and "\<And>p c t. field_match (c # t) = None \<Longrightarrow> P (p @ [c]) t \<Longrightarrow> P p (c # t)"
    and "\<And>p name v t. field_match (name @ ''='' @ v @ t) = Some (name, v) \<Longrightarrow> field_name name \<Longrightarrow>
      P [] t \<Longrightarrow> P p (name @ ''='' @ v @ t)"
  shows "P p s"
proof (induction p s rule: field_scan.induct)
  case (1 p s)
  show ?case
  proof (cases s)
    case Nil
    then show ?thesis using assms(1) by simp
  next
    case (Cons c t)
    show ?thesis
    proof (cases "field_match s")
      case None
      then show ?thesis using 1 assms(2) Cons by auto
    next
      case (Some x)
      obtain name v where x: "x = (name, v)" by force
      then obtain u where u: "s = name @ ''='' @ v @ u" and n: "field_name name"
        using field_match_Some Some by blast
      have "drop (length name + 1 + length v) s = u" unfolding u by simp
      then have "P [] u" using 1(2) [OF Cons Some] x by auto
      then show ?thesis using assms(3) Some x u n by simp
    qed
  qed
qed

lemma field_scan_simps [simp]:
  "field_scan p [] = push_text p"
  "field_match (c # t) = None \<Longrightarrow> field_scan p (c # t) = field_scan (p @ [c]) t"
  by (simp_all add: field_scan.simps)

lemma field_scan_field:
  "field_match (name @ ''='' @ v @ t) = Some (name, v) \<Longrightarrow> field_name name \<Longrightarrow>
    field_scan p (name @ ''='' @ v @ t) = push_text p @ FieldPart name ''='' v # field_scan [] t"
  by (cases name) (auto simp: field_scan.simps [of p] field_name_def)

lemma field_scan_text: "concat (map part_text (field_scan p s)) = p @ s"
proof (induction p s rule: field_induct)
  case (field p name v t)
  show ?case unfolding field_scan_field [OF field(1,2)] using field(3) by simp
qed auto

lemma field_scan_ok: "list_all part_ok (field_scan p s)"
proof (induction p s rule: field_induct)
  case (field p name v t)
  show ?case
    unfolding field_scan_field [OF field(1,2)] using field(2,3) by (auto simp: push_text_def part_ok_def)
qed (auto simp: push_text_def part_ok_def)

section \<open>Grouping\<close>

definition valid_date :: "entry_date \<Rightarrow> bool" where
  "valid_date d \<longleftrightarrow> 0 \<le> ed_year d \<and> 0 \<le> ed_month d \<and> 0 \<le> ed_day d \<and> 0 \<le> ed_hour d \<and> 0 \<le> ed_minute d"

lemma nat_str_no_dash: "CHR ''-'' \<notin> set (nat_str n)"
  using nat_str_digits [of n] by (auto simp: list_all_iff is_digit_def)

lemma minute_key_inject:
  assumes "valid_date a" "valid_date b"
  shows "minute_key (Some a) = minute_key (Some b) \<longleftrightarrow> a = b"
proof
  let ?f = "\<lambda>e. map nat_str [nat (ed_year e), nat (ed_month e), nat (ed_day e), nat (ed_hour e), nat (ed_minute e)]"
  have key: "split_on CHR ''-'' (minute_key (Some e)) = ?f e" if "valid_date e" for e
  proof -
    have "minute_key (Some e) = join ''-'' (?f e)"
      using that by (simp add: minute_key_def int_str_def valid_date_def)
    then show ?thesis by (simp only:) (rule split_on_join_parts, auto simp: nat_str_no_dash)
  qed
  assume "minute_key (Some a) = minute_key (Some b)"
  then have "?f a = ?f b" using key assms by metis
  then show "a = b" using assms by (cases a; cases b) (simp add: valid_date_def eq_nat_nat_iff)
qed simp

definition groups_ok :: "('e \<Rightarrow> entry_date option) \<Rightarrow> 'e minute_group list \<Rightarrow> bool" where
  "groups_ok date gs \<longleftrightarrow>
     (\<forall>g\<in>set gs. mg_entries g \<noteq> [] \<and> (\<forall>e\<in>set (mg_entries g). minute_key (date e) = mg_key g)) \<and>
     distinct_adj (map mg_key gs)"

lemma groups_ok_append:
  "groups_ok date (gs @ [g]) \<longleftrightarrow> groups_ok date gs \<and> mg_entries g \<noteq> [] \<and>
    (\<forall>e\<in>set (mg_entries g). minute_key (date e) = mg_key g) \<and> (gs = [] \<or> mg_key (last gs) \<noteq> mg_key g)"
  by (auto simp: groups_ok_def distinct_adj_append_iff last_map)

lemma group_step_ok:
  assumes "groups_ok date gs"
  shows "groups_ok date (group_step date label e gs) \<and>
    concat (map mg_entries (group_step date label e gs)) = concat (map mg_entries gs) @ [e]"
proof (cases "gs = [] \<or> mg_key (last gs) \<noteq> minute_key (date e)")
  case True
  let ?g = "\<lparr>mg_key = minute_key (date e), mg_label = label e, mg_entries = [e]\<rparr>"
  have "group_step date label e gs = gs @ [?g]"
    using True by (simp add: group_step_def Let_def)
  then show ?thesis using True assms groups_ok_append [of date gs ?g] by auto
next
  case False
  then obtain init g where gs: "gs = init @ [g]" and key: "mg_key g = minute_key (date e)"
    by (cases gs rule: rev_cases) auto
  let ?g = "g\<lparr>mg_entries := mg_entries g @ [e]\<rparr>"
  have "group_step date label e gs = init @ [?g]"
    using gs key by (simp add: group_step_def Let_def)
  then show ?thesis
    using gs key assms groups_ok_append [of date init g] groups_ok_append [of date init ?g] by auto
qed

lemma fold_group_step:
  "groups_ok date gs \<Longrightarrow> groups_ok date (fold (group_step date label) es gs) \<and>
    concat (map mg_entries (fold (group_step date label) es gs)) = concat (map mg_entries gs) @ es"
  by (induction es arbitrary: gs) (auto simp: group_step_ok)

section \<open>Properties\<close>

text \<open>Colouring a line loses nothing: the segments of \<open>parseAnsi\<close>, none of them empty, join
  to the text \<open>stripAnsi\<close> shows, and every character has the colour and weight that
  the escape sequences before it select.\<close>

theorem parseAnsi_faithful:
  "concat (map seg_str (parseAnsi text)) = stripAnsi text \<and>
   concat (map seg_chars (parseAnsi text)) = styled \<lparr>sty_color = None, sty_bold = False\<rparr> text \<and>
   [] \<notin> set (map seg_str (parseAnsi text))"
  by (auto simp: parseAnsi_def ansi_scan_text ansi_scan_styled dest!: ansi_scan_nonempty)

text \<open>The parts of \<open>parseFields\<close> join to the text they were read from; a text part is not
  empty and a field has a well-formed name and an equals sign.\<close>

theorem parseFields_lossless:
  "concat (map part_text (parseFields text)) = text \<and> list_all part_ok (parseFields text)"
  by (simp add: parseFields_def field_scan_text field_scan_ok)

text \<open>\<open>groupByMinute\<close> keeps every entry, in order; two neighbouring entries share a group
  exactly when their local dates agree to the minute.\<close>

theorem groupByMinute_partition:
  assumes "\<And>e. e \<in> set entries \<Longrightarrow> \<exists>d. date e = Some d \<and> valid_date d"
  shows "concat (map mg_entries (groupByMinute date label entries)) = entries \<and>
    (\<forall>g\<in>set (groupByMinute date label entries). \<forall>a\<in>set (mg_entries g). \<forall>b\<in>set (mg_entries g). date a = date b) \<and>
    (\<forall>i. Suc i < length (groupByMinute date label entries) \<longrightarrow>
      date (last (mg_entries (groupByMinute date label entries ! i)))
        \<noteq> date (hd (mg_entries (groupByMinute date label entries ! Suc i))))"
proof -
  let ?gs = "groupByMinute date label entries"
  have ok: "groups_ok date ?gs" and all: "concat (map mg_entries ?gs) = entries"
    using fold_group_step [of date "[]" label entries] by (simp_all add: groupByMinute_def groups_ok_def)
  have mem: "e \<in> set entries" if "g \<in> set ?gs" "e \<in> set (mg_entries g)" for g e
    using that arg_cong [OF all, of set] by auto
  have inj: "date a = date b" if "a \<in> set entries" "b \<in> set entries" "minute_key (date a) = minute_key (date b)"
    for a b
    using assms [OF that(1)] assms [OF that(2)] that(3) minute_key_inject by auto
  have same: "\<forall>g\<in>set ?gs. \<forall>a\<in>set (mg_entries g). \<forall>b\<in>set (mg_entries g). date a = date b"
  proof (intro ballI)
    fix g a b assume g: "g \<in> set ?gs" "a \<in> set (mg_entries g)" "b \<in> set (mg_entries g)"
    then have "minute_key (date a) = minute_key (date b)" using ok by (auto simp: groups_ok_def)
    then show "date a = date b" using g by (intro inj mem) auto
  qed
  have "date (last (mg_entries (?gs ! i))) \<noteq> date (hd (mg_entries (?gs ! Suc i)))" if i: "Suc i < length ?gs" for i
  proof
    assume eq: "date (last (mg_entries (?gs ! i))) = date (hd (mg_entries (?gs ! Suc i)))"
    have gi: "?gs ! i \<in> set ?gs" "?gs ! Suc i \<in> set ?gs" using i by auto
    have "mg_key (?gs ! i) = minute_key (date (last (mg_entries (?gs ! i))))"
      "mg_key (?gs ! Suc i) = minute_key (date (hd (mg_entries (?gs ! Suc i))))"
      using ok gi unfolding groups_ok_def by auto
    then have "mg_key (?gs ! i) = mg_key (?gs ! Suc i)" using eq by simp
    moreover have "map mg_key ?gs ! i \<noteq> map mg_key ?gs ! Suc i"
      using ok i unfolding groups_ok_def by (simp add: distinct_adj_conv_nth)
    ultimately show False using i by simp
  qed
  with same all show ?thesis by blast
qed

definition noon :: "int \<Rightarrow> entry_date" where
  "noon m = \<lparr>ed_year = 2025, ed_month = 0, ed_day = 6, ed_hour = 12, ed_minute = m\<rparr>"

theorem groupByMinute_partition_witness:
  "concat (map mg_entries (groupByMinute (\<lambda>e. Some (noon (e div 60))) int_str [0, 30, 61, 62, 130]))
    = [0, 30, 61, 62, 130]"
proof -
  have "\<exists>d. Some (noon (e div 60)) = Some d \<and> valid_date d" if "e \<in> set [0, 30, 61, 62, 130]" for e
    using that by (auto simp: noon_def valid_date_def)
  from groupByMinute_partition [of "[0, 30, 61, 62, 130]" "\<lambda>e. Some (noon (e div 60))" int_str, OF this]
  show ?thesis by blast
qed

end
