(* ===== verification/Monitoring.thy ===== *)
theory Monitoring
  imports JsBase
begin

text \<open>
  \<^verbatim>\<open>ui/src/components/monitoring/queries.js\<close> and \<^verbatim>\<open>axis.js\<close>: the PromQL queries of
  the monitoring panels and the scale of their axis.  The queries are the strings of
  the source, composed by the same builders; what is shown about them is that they
  are well-bracketed, and which devices the disk panel reads.
\<close>

section \<open>Queries\<close>

record panel_query =
  q_expr :: string
  q_legend :: string

definition RATE_INTERVAL :: string where "RATE_INTERVAL = ''5m''"
definition NO_BTRFS_DEVICES_SENTINEL :: string where
  "NO_BTRFS_DEVICES_SENTINEL = ''__no_btrfs_devices__''"
definition NETWORK_DEVICE_EXCLUDE :: string where
  "NETWORK_DEVICE_EXCLUDE = ''lo|veth.*|podman.*|cni.*|tailscale.*|br-.*|docker.*''"

definition disk_regex :: "string list option \<Rightarrow> string" where
  "disk_regex diskDevices =
     (case diskDevices of
        Some ds \<Rightarrow> if ds \<noteq> [] then join ''|'' ds else NO_BTRFS_DEVICES_SENTINEL
      | None \<Rightarrow> NO_BTRFS_DEVICES_SENTINEL)"

definition buildDiskIOQueries :: "string list option \<Rightarrow> panel_query list" where
  "buildDiskIOQueries diskDevices =
     (let regex = disk_regex diskDevices in
      [\<lparr>q_expr = ''sum(rate(node_disk_read_bytes_total{device=~\"'' @ regex @ ''\"}['' @ RATE_INTERVAL @ '']))'',
        q_legend = ''Read''\<rparr>,
       \<lparr>q_expr = ''sum(rate(node_disk_written_bytes_total{device=~\"'' @ regex @ ''\"}['' @ RATE_INTERVAL @ '']))'',
        q_legend = ''Write''\<rparr>])"

definition ROLODEX_SELECTOR :: string where "ROLODEX_SELECTOR = ''{job=\"rolodex\"}''"
definition CONTROLLER_SELECTOR :: string where "CONTROLLER_SELECTOR = ''{job=\"systemcontroller\"}''"

definition rate :: "string \<Rightarrow> string" where
  "rate metric = ''rate('' @ metric @ ROLODEX_SELECTOR @ ''['' @ RATE_INTERVAL @ ''])''"

definition sumBy :: "string \<Rightarrow> string \<Rightarrow> string" where
  "sumBy label metric = ''sum by ('' @ label @ '') ('' @ rate metric @ '')''"

definition sumAll :: "string \<Rightarrow> string" where
  "sumAll metric = ''sum('' @ rate metric @ '')''"

definition quantile :: "string \<Rightarrow> string \<Rightarrow> string" where
  "quantile q metric =
     ''histogram_quantile('' @ q @ '', sum by (le) ('' @ rate (metric @ ''_bucket'') @ ''))''"

definition cacheHits :: string where "cacheHits = sumAll ''rolodex_dns_cache_hits_total''"
definition cacheNegativeHits :: string where
  "cacheNegativeHits = sumAll ''rolodex_dns_cache_negative_hits_total''"
definition cacheMisses :: string where "cacheMisses = sumAll ''rolodex_dns_cache_misses_total''"

definition gauge :: "string \<Rightarrow> string" where
  "gauge metric = metric @ CONTROLLER_SELECTOR"

definition controllerRate :: "string \<Rightarrow> string" where
  "controllerRate metric = ''rate('' @ metric @ CONTROLLER_SELECTOR @ ''['' @ RATE_INTERVAL @ ''])''"

definition controllerSumBy :: "string \<Rightarrow> string \<Rightarrow> string" where
  "controllerSumBy label metric = ''sum by ('' @ label @ '') ('' @ controllerRate metric @ '')''"

definition controllerRatio :: "string \<Rightarrow> string \<Rightarrow> string \<Rightarrow> string" where
  "controllerRatio label numerator denominator =
     ''sum by ('' @ label @ '') ('' @ controllerRate numerator @ '') / sum by ('' @ label @ '') (''
       @ controllerRate denominator @ '')''"

definition controllerPercent :: "string \<Rightarrow> string \<Rightarrow> string" where
  "controllerPercent part whole = ''100 * '' @ gauge part @ '' / '' @ gauge whole"

definition NETWORK_QUERIES :: "panel_query list" where
  "NETWORK_QUERIES =
     [\<lparr>q_expr = ''(rate(node_network_receive_bytes_total{device!~\"'' @
        NETWORK_DEVICE_EXCLUDE @ ''\"}['' @ RATE_INTERVAL @
        '']) and on (device) (node_network_up == 1)) * 8'', q_legend = ''{{device}} Rx''\<rparr>,
      \<lparr>q_expr = ''(rate(node_network_transmit_bytes_total{device!~\"'' @
        NETWORK_DEVICE_EXCLUDE @ ''\"}['' @ RATE_INTERVAL @
        '']) and on (device) (node_network_up == 1)) * 8'', q_legend = ''{{device}} Tx''\<rparr>]"

definition DNS_QUERY_RCODE_QUERIES :: "panel_query list" where
  "DNS_QUERY_RCODE_QUERIES =

             [\<lparr>q_expr = sumBy ''rcode'' ''rolodex_dns_queries_total'', q_legend = ''{{rcode}}''\<rparr>]"

definition DNS_LATENCY_QUERIES :: "panel_query list" where
  "DNS_LATENCY_QUERIES =

             [\<lparr>q_expr = quantile ''0.5'' ''rolodex_dns_query_duration_seconds'', q_legend = ''p50''\<rparr>,

              \<lparr>q_expr = quantile ''0.95'' ''rolodex_dns_query_duration_seconds'', q_legend = ''p95''\<rparr>,

              \<lparr>q_expr = quantile ''0.99'' ''rolodex_dns_query_duration_seconds'', q_legend = ''p99''\<rparr>]"

definition DNS_ANSWER_SOURCE_QUERIES :: "panel_query list" where
  "DNS_ANSWER_SOURCE_QUERIES =

             [\<lparr>q_expr = sumBy ''source'' ''rolodex_dns_answers_total'', q_legend = ''{{source}}''\<rparr>]"

definition DNS_CACHE_RATIO_QUERIES :: "panel_query list" where
  "DNS_CACHE_RATIO_QUERIES =
     [\<lparr>q_expr = ''100 * ('' @ cacheHits @ '' + '' @ cacheNegativeHits @ '') / ('' @
        cacheHits @ '' + '' @ cacheNegativeHits @ '' + '' @ cacheMisses @
        '')'', q_legend = ''Hit ratio''\<rparr>]"

definition DNS_CACHE_ENTRY_QUERIES :: "panel_query list" where
  "DNS_CACHE_ENTRY_QUERIES =
     [\<lparr>q_expr = ''rolodex_dns_cache_entries'' @
        ROLODEX_SELECTOR, q_legend = ''Positive''\<rparr>,
      \<lparr>q_expr = ''rolodex_dns_cache_negative_entries'' @
        ROLODEX_SELECTOR, q_legend = ''Negative''\<rparr>,
      \<lparr>q_expr = ''rolodex_dns_blocklist_cache_entries'' @
        ROLODEX_SELECTOR, q_legend = ''Blocklist''\<rparr>]"

definition DNS_BLOCKLIST_QUERIES :: "panel_query list" where
  "DNS_BLOCKLIST_QUERIES =

             [\<lparr>q_expr = sumBy ''kind'' ''rolodex_dns_blocklist_blocks_total'', q_legend = ''blocked {{kind}}''\<rparr>,

              \<lparr>q_expr = sumAll ''rolodex_dns_blocklist_allowlisted_total'', q_legend = ''allowlisted''\<rparr>,

              \<lparr>q_expr = sumAll ''rolodex_dns_blocklist_refusals_total'', q_legend = ''refused''\<rparr>]"

definition DNS_UPSTREAM_TIER_QUERIES :: "panel_query list" where
  "DNS_UPSTREAM_TIER_QUERIES =

             [\<lparr>q_expr = sumBy ''tier'' ''rolodex_dns_upstream_tier_wins_total'', q_legend = ''{{tier}} wins''\<rparr>,

              \<lparr>q_expr = sumBy ''tier'' ''rolodex_dns_upstream_tier_failures_total'', q_legend = ''{{tier}} failures''\<rparr>,

              \<lparr>q_expr = sumAll ''rolodex_dns_upstream_exhausted_total'', q_legend = ''exhausted''\<rparr>]"

definition DNS_TRAFFIC_QUERIES :: "panel_query list" where
  "DNS_TRAFFIC_QUERIES =

             [\<lparr>q_expr = sumBy ''direction'' ''rolodex_dns_traffic_bytes_total'', q_legend = ''{{direction}}''\<rparr>]"

definition CONTROLLER_UNIT_STATE_QUERIES :: "panel_query list" where
  "CONTROLLER_UNIT_STATE_QUERIES =
     [\<lparr>q_expr = gauge ''townos_system_units'', q_legend = ''system {{state}}''\<rparr>,
      \<lparr>q_expr = gauge ''townos_package_units'', q_legend = ''package {{state}}''\<rparr>]"

definition CONTROLLER_UNIT_HEALTH_QUERIES :: "panel_query list" where
  "CONTROLLER_UNIT_HEALTH_QUERIES =
     [\<lparr>q_expr = gauge ''townos_system_unit_active'', q_legend = ''{{unit}}''\<rparr>,
      \<lparr>q_expr = gauge ''townos_package_unit_active'', q_legend = ''{{unit}}''\<rparr>]"

definition CONTROLLER_HTTP_QUERIES :: "panel_query list" where
  "CONTROLLER_HTTP_QUERIES =

             [\<lparr>q_expr = controllerSumBy ''status'' ''townos_http_requests_total'', q_legend = ''{{status}}''\<rparr>]"

definition CONTROLLER_LATENCY_QUERIES :: "panel_query list" where
  "CONTROLLER_LATENCY_QUERIES =

             [\<lparr>q_expr = controllerRatio ''method'' ''townos_http_request_seconds_total'' ''townos_http_requests_total'', q_legend = ''{{method}}''\<rparr>]"

definition CONTROLLER_AUDIT_QUERIES :: "panel_query list" where
  "CONTROLLER_AUDIT_QUERIES =

             [\<lparr>q_expr = controllerSumBy ''result'' ''townos_audit_events_total'', q_legend = ''{{result}}''\<rparr>]"

definition CONTROLLER_FAILURE_QUERIES :: "panel_query list" where
  "CONTROLLER_FAILURE_QUERIES =

             [\<lparr>q_expr = gauge ''townos_audit_recent_errors'', q_legend = ''Audit failures (5m)''\<rparr>,

              \<lparr>q_expr = gauge ''townos_repository_errors'', q_legend = ''Repository refresh errors''\<rparr>]"

definition CONTROLLER_INVENTORY_QUERIES :: "panel_query list" where
  "CONTROLLER_INVENTORY_QUERIES =

             [\<lparr>q_expr = gauge ''townos_packages_installed'', q_legend = ''Installed packages''\<rparr>,
      \<lparr>q_expr = gauge ''townos_upgrades_available'', q_legend = ''Upgradable''\<rparr>,
      \<lparr>q_expr = gauge ''townos_repositories'', q_legend = ''Repositories''\<rparr>,
      \<lparr>q_expr = gauge ''townos_filesystems'', q_legend = ''{{state}} subvolumes''\<rparr>]"

definition CONTROLLER_DISK_QUERIES :: "panel_query list" where
  "CONTROLLER_DISK_QUERIES =
     [\<lparr>q_expr = gauge ''townos_disk_used_bytes'', q_legend = ''Used''\<rparr>,
      \<lparr>q_expr = gauge ''townos_disk_available_bytes'', q_legend = ''Available''\<rparr>]"

definition CONTROLLER_DISK_FILL_QUERIES :: "panel_query list" where
  "CONTROLLER_DISK_FILL_QUERIES =

             [\<lparr>q_expr = controllerPercent ''townos_disk_used_bytes'' ''townos_disk_total_bytes'', q_legend = ''Used''\<rparr>]"

definition CONTROLLER_CPU_QUERIES :: "panel_query list" where
  "CONTROLLER_CPU_QUERIES =
     [\<lparr>q_expr = ''100 * '' @
        controllerRate ''townos_process_cpu_seconds_total'', q_legend = ''CPU''\<rparr>]"

definition CONTROLLER_MEMORY_QUERIES :: "panel_query list" where
  "CONTROLLER_MEMORY_QUERIES =
     [\<lparr>q_expr = gauge ''townos_memory_heap_bytes'', q_legend = ''Heap''\<rparr>,
      \<lparr>q_expr = gauge ''townos_memory_rss_bytes'', q_legend = ''Resident''\<rparr>]"

definition CONTROLLER_CONCURRENCY_QUERIES :: "panel_query list" where
  "CONTROLLER_CONCURRENCY_QUERIES =
     [\<lparr>q_expr = gauge ''townos_goroutines'', q_legend = ''Goroutines''\<rparr>,
      \<lparr>q_expr = gauge ''townos_open_files'', q_legend = ''Open files''\<rparr>,

              \<lparr>q_expr = gauge ''townos_http_requests_in_flight'', q_legend = ''Requests in flight''\<rparr>]"

definition CONTROLLER_ACCOUNT_QUERIES :: "panel_query list" where
  "CONTROLLER_ACCOUNT_QUERIES =
     [\<lparr>q_expr = gauge ''townos_accounts'', q_legend = ''{{kind}}''\<rparr>,
      \<lparr>q_expr = gauge ''townos_accounts_granted'', q_legend = ''holding a grant''\<rparr>]"

definition CONTROLLER_UPTIME_QUERIES :: "panel_query list" where
  "CONTROLLER_UPTIME_QUERIES =
     [\<lparr>q_expr = ''time() - '' @
        gauge ''townos_start_time_seconds'', q_legend = ''Uptime''\<rparr>]"

definition dns_queries :: "panel_query list" where
  "dns_queries =
     DNS_QUERY_RCODE_QUERIES @ DNS_LATENCY_QUERIES @ DNS_ANSWER_SOURCE_QUERIES @
     DNS_CACHE_RATIO_QUERIES @ DNS_CACHE_ENTRY_QUERIES @ DNS_BLOCKLIST_QUERIES @
     DNS_UPSTREAM_TIER_QUERIES @ DNS_TRAFFIC_QUERIES"

definition controller_queries :: "panel_query list" where
  "controller_queries =
     CONTROLLER_UNIT_STATE_QUERIES @ CONTROLLER_UNIT_HEALTH_QUERIES @ CONTROLLER_HTTP_QUERIES @
     CONTROLLER_LATENCY_QUERIES @ CONTROLLER_AUDIT_QUERIES @ CONTROLLER_FAILURE_QUERIES @
     CONTROLLER_INVENTORY_QUERIES @ CONTROLLER_DISK_QUERIES @ CONTROLLER_DISK_FILL_QUERIES @
     CONTROLLER_CPU_QUERIES @ CONTROLLER_MEMORY_QUERIES @ CONTROLLER_CONCURRENCY_QUERIES @
     CONTROLLER_ACCOUNT_QUERIES @ CONTROLLER_UPTIME_QUERIES"

section \<open>The axis\<close>

record 'n axis_scale =
  ax_auto :: bool
  ax_range :: "('n option \<Rightarrow> 'n option \<Rightarrow> 'n \<times> 'n) option"

text \<open>\<open>x ?? y ?? d\<close>\<close>

definition nullish_or :: "'n option \<Rightarrow> 'n option \<Rightarrow> 'n \<Rightarrow> 'n" where
  "nullish_or x y d = (case x of Some a \<Rightarrow> a | None \<Rightarrow> (case y of Some b \<Rightarrow> b | None \<Rightarrow> d))"

definition axisScale :: "int option \<Rightarrow> int option \<Rightarrow> int axis_scale" where
  "axisScale lo hi =
     (if lo = None \<and> hi = None then \<lparr>ax_auto = True, ax_range = None\<rparr>
      else \<lparr>ax_auto = (lo = None \<or> hi = None),
            ax_range = Some (\<lambda>dataMin dataMax.
              (nullish_or lo dataMin 0, nullish_or hi dataMax 1))\<rparr>)"

section \<open>Well-bracketed queries\<close>

text \<open>Brackets match outside string literals, and every literal is closed.\<close>

fun bracketed :: "char list \<Rightarrow> bool \<Rightarrow> string \<Rightarrow> bool" where
  "bracketed st lit [] \<longleftrightarrow> st = [] \<and> \<not> lit"
| "bracketed st True (c # s) \<longleftrightarrow> bracketed st (c \<noteq> CHR 0x22) s"
| "bracketed st False (c # s) \<longleftrightarrow>
     (if c = CHR 0x22 then bracketed st True s
      else if c = CHR ''('' then bracketed (CHR '')'' # st) False s
      else if c = CHR ''['' then bracketed (CHR '']'' # st) False s
      else if c = CHR ''{'' then bracketed (CHR ''}'' # st) False s
      else if c = CHR '')'' \<or> c = CHR '']'' \<or> c = CHR ''}'' then
        (case st of [] \<Rightarrow> False | d # st' \<Rightarrow> c = d \<and> bracketed st' False s)
      else bracketed st False s)"

lemma bracketed_literal: "CHR 0x22 \<notin> set s \<Longrightarrow> bracketed st True (s @ CHR 0x22 # t) = bracketed st False t"
  by (induction s) auto

text \<open>A balanced piece of a query can be cut out of it.\<close>

definition balanced :: "string \<Rightarrow> bool" where
  "balanced s \<longleftrightarrow> (\<forall>st t. bracketed st False (s @ t) = bracketed st False t)"

definition plain_text :: "string \<Rightarrow> bool" where
  "plain_text m \<longleftrightarrow> list_all (\<lambda>c. c \<notin> set ''(){}[]'' \<and> c \<noteq> CHR 0x22) m"

named_theorems balanced_rules

lemma bracketed_balanced: "balanced s \<Longrightarrow> bracketed st False (s @ t) = bracketed st False t"
  by (simp add: balanced_def)

lemma balanced_whole: "balanced s \<Longrightarrow> bracketed [] False s"
  using bracketed_balanced [of s "[]" "[]"] by simp

lemma balanced_plain: "plain_text m \<Longrightarrow> balanced m"
  unfolding balanced_def by (induction m) (auto simp: plain_text_def)

lemma plain_text_append: "plain_text (a @ b) = (plain_text a \<and> plain_text b)"
  by (simp add: plain_text_def)

lemma balanced_append: "balanced a \<Longrightarrow> balanced b \<Longrightarrow> balanced (a @ b)"
  by (simp add: balanced_def)

lemma balanced_rate [balanced_rules]: "plain_text m \<Longrightarrow> balanced (rate m)"
  by (simp add: rate_def ROLODEX_SELECTOR_def RATE_INTERVAL_def balanced_def
      bracketed_balanced [OF balanced_plain])

lemma balanced_controllerRate [balanced_rules]: "plain_text m \<Longrightarrow> balanced (controllerRate m)"
  by (simp add: controllerRate_def CONTROLLER_SELECTOR_def RATE_INTERVAL_def balanced_def
      bracketed_balanced [OF balanced_plain])

lemma balanced_gauge [balanced_rules]: "plain_text m \<Longrightarrow> balanced (gauge m)"
  by (simp add: gauge_def CONTROLLER_SELECTOR_def balanced_def bracketed_balanced [OF balanced_plain])

lemma balanced_selected [balanced_rules]: "plain_text m \<Longrightarrow> balanced (m @ ROLODEX_SELECTOR)"
  by (simp add: ROLODEX_SELECTOR_def balanced_def bracketed_balanced [OF balanced_plain])

lemma balanced_sumBy [balanced_rules]: "plain_text l \<Longrightarrow> plain_text m \<Longrightarrow> balanced (sumBy l m)"
  unfolding balanced_def
  by (simp add: sumBy_def bracketed_balanced balanced_plain balanced_rate)

lemma balanced_sumAll [balanced_rules]: "plain_text m \<Longrightarrow> balanced (sumAll m)"
  unfolding balanced_def by (simp add: sumAll_def bracketed_balanced balanced_rate)

lemma balanced_quantile [balanced_rules]: "plain_text q \<Longrightarrow> plain_text m \<Longrightarrow> balanced (quantile q m)"
proof -
  assume a: "plain_text q" "plain_text m"
  have "plain_text (m @ ''_bucket'')" using a(2) by (simp add: plain_text_def)
  then show ?thesis using a unfolding balanced_def
    by (simp add: quantile_def bracketed_balanced balanced_plain balanced_rate del: append_assoc)
       (simp add: bracketed_balanced balanced_plain balanced_rate)
qed

lemma balanced_controllerSumBy [balanced_rules]:
  "plain_text l \<Longrightarrow> plain_text m \<Longrightarrow> balanced (controllerSumBy l m)"
  unfolding balanced_def
  by (simp add: controllerSumBy_def bracketed_balanced balanced_plain balanced_controllerRate)

lemma balanced_controllerRatio [balanced_rules]:
  "plain_text l \<Longrightarrow> plain_text a \<Longrightarrow> plain_text b \<Longrightarrow> balanced (controllerRatio l a b)"
  unfolding balanced_def
  by (simp add: controllerRatio_def bracketed_balanced balanced_plain balanced_controllerRate)

lemma balanced_controllerPercent [balanced_rules]:
  "plain_text a \<Longrightarrow> plain_text b \<Longrightarrow> balanced (controllerPercent a b)"
  unfolding balanced_def
  by (simp add: controllerPercent_def bracketed_balanced balanced_gauge)

lemma dns_query_rcode_balanced: "list_all (\<lambda>q. balanced (q_expr q)) DNS_QUERY_RCODE_QUERIES"
  unfolding DNS_QUERY_RCODE_QUERIES_def list.pred_inject panel_query.simps
  by (intro conjI TrueI balanced_rules) (simp_all add: plain_text_def)

lemma dns_latency_balanced: "list_all (\<lambda>q. balanced (q_expr q)) DNS_LATENCY_QUERIES"
  unfolding DNS_LATENCY_QUERIES_def list.pred_inject panel_query.simps
  by (intro conjI TrueI balanced_rules) (simp_all add: plain_text_def)

lemma dns_answer_source_balanced: "list_all (\<lambda>q. balanced (q_expr q)) DNS_ANSWER_SOURCE_QUERIES"
  unfolding DNS_ANSWER_SOURCE_QUERIES_def list.pred_inject panel_query.simps
  by (intro conjI TrueI balanced_rules) (simp_all add: plain_text_def)

lemma dns_cache_ratio_balanced: "list_all (\<lambda>q. balanced (q_expr q)) DNS_CACHE_RATIO_QUERIES"
  unfolding DNS_CACHE_RATIO_QUERIES_def list.pred_inject panel_query.simps balanced_def
  by (simp add: cacheHits_def cacheNegativeHits_def cacheMisses_def plain_text_def
      bracketed_balanced [OF balanced_sumAll])

lemma dns_cache_entry_balanced: "list_all (\<lambda>q. balanced (q_expr q)) DNS_CACHE_ENTRY_QUERIES"
  unfolding DNS_CACHE_ENTRY_QUERIES_def list.pred_inject panel_query.simps
  by (intro conjI TrueI balanced_selected) (simp_all add: plain_text_def)

lemma dns_blocklist_balanced: "list_all (\<lambda>q. balanced (q_expr q)) DNS_BLOCKLIST_QUERIES"
  unfolding DNS_BLOCKLIST_QUERIES_def list.pred_inject panel_query.simps
  by (intro conjI TrueI balanced_rules) (simp_all add: plain_text_def)

lemma dns_upstream_tier_balanced: "list_all (\<lambda>q. balanced (q_expr q)) DNS_UPSTREAM_TIER_QUERIES"
  unfolding DNS_UPSTREAM_TIER_QUERIES_def list.pred_inject panel_query.simps
  by (intro conjI TrueI balanced_rules) (simp_all add: plain_text_def)

lemma dns_traffic_balanced: "list_all (\<lambda>q. balanced (q_expr q)) DNS_TRAFFIC_QUERIES"
  unfolding DNS_TRAFFIC_QUERIES_def list.pred_inject panel_query.simps
  by (intro conjI TrueI balanced_rules) (simp_all add: plain_text_def)

lemma controller_unit_state_balanced: "list_all (\<lambda>q. balanced (q_expr q)) CONTROLLER_UNIT_STATE_QUERIES"
  unfolding CONTROLLER_UNIT_STATE_QUERIES_def list.pred_inject panel_query.simps
  by (intro conjI TrueI balanced_rules) (simp_all add: plain_text_def)

lemma controller_unit_health_balanced: "list_all (\<lambda>q. balanced (q_expr q)) CONTROLLER_UNIT_HEALTH_QUERIES"
  unfolding CONTROLLER_UNIT_HEALTH_QUERIES_def list.pred_inject panel_query.simps
  by (intro conjI TrueI balanced_rules) (simp_all add: plain_text_def)

lemma controller_http_balanced: "list_all (\<lambda>q. balanced (q_expr q)) CONTROLLER_HTTP_QUERIES"
  unfolding CONTROLLER_HTTP_QUERIES_def list.pred_inject panel_query.simps
  by (intro conjI TrueI balanced_rules) (simp_all add: plain_text_def)

lemma controller_latency_balanced: "list_all (\<lambda>q. balanced (q_expr q)) CONTROLLER_LATENCY_QUERIES"
  unfolding CONTROLLER_LATENCY_QUERIES_def list.pred_inject panel_query.simps
  by (intro conjI TrueI balanced_rules) (simp_all add: plain_text_def)

lemma controller_audit_balanced: "list_all (\<lambda>q. balanced (q_expr q)) CONTROLLER_AUDIT_QUERIES"
  unfolding CONTROLLER_AUDIT_QUERIES_def list.pred_inject panel_query.simps
  by (intro conjI TrueI balanced_rules) (simp_all add: plain_text_def)

lemma controller_failure_balanced: "list_all (\<lambda>q. balanced (q_expr q)) CONTROLLER_FAILURE_QUERIES"
  unfolding CONTROLLER_FAILURE_QUERIES_def list.pred_inject panel_query.simps
  by (intro conjI TrueI balanced_rules) (simp_all add: plain_text_def)

lemma controller_inventory_balanced: "list_all (\<lambda>q. balanced (q_expr q)) CONTROLLER_INVENTORY_QUERIES"
  unfolding CONTROLLER_INVENTORY_QUERIES_def list.pred_inject panel_query.simps
  by (intro conjI TrueI balanced_rules) (simp_all add: plain_text_def)

lemma controller_disk_balanced: "list_all (\<lambda>q. balanced (q_expr q)) CONTROLLER_DISK_QUERIES"
  unfolding CONTROLLER_DISK_QUERIES_def list.pred_inject panel_query.simps
  by (intro conjI TrueI balanced_rules) (simp_all add: plain_text_def)

lemma controller_disk_fill_balanced: "list_all (\<lambda>q. balanced (q_expr q)) CONTROLLER_DISK_FILL_QUERIES"
  unfolding CONTROLLER_DISK_FILL_QUERIES_def list.pred_inject panel_query.simps
  by (intro conjI TrueI balanced_rules) (simp_all add: plain_text_def)

lemma controller_cpu_balanced: "list_all (\<lambda>q. balanced (q_expr q)) CONTROLLER_CPU_QUERIES"
  unfolding CONTROLLER_CPU_QUERIES_def list.pred_inject panel_query.simps balanced_def
  by (simp add: plain_text_def bracketed_balanced [OF balanced_controllerRate])

lemma controller_memory_balanced: "list_all (\<lambda>q. balanced (q_expr q)) CONTROLLER_MEMORY_QUERIES"
  unfolding CONTROLLER_MEMORY_QUERIES_def list.pred_inject panel_query.simps
  by (intro conjI TrueI balanced_rules) (simp_all add: plain_text_def)

lemma controller_concurrency_balanced: "list_all (\<lambda>q. balanced (q_expr q)) CONTROLLER_CONCURRENCY_QUERIES"
  unfolding CONTROLLER_CONCURRENCY_QUERIES_def list.pred_inject panel_query.simps
  by (intro conjI TrueI balanced_rules) (simp_all add: plain_text_def)

lemma controller_account_balanced: "list_all (\<lambda>q. balanced (q_expr q)) CONTROLLER_ACCOUNT_QUERIES"
  unfolding CONTROLLER_ACCOUNT_QUERIES_def list.pred_inject panel_query.simps
  by (intro conjI TrueI balanced_rules) (simp_all add: plain_text_def)

lemma controller_uptime_balanced: "list_all (\<lambda>q. balanced (q_expr q)) CONTROLLER_UPTIME_QUERIES"
  unfolding CONTROLLER_UPTIME_QUERIES_def list.pred_inject panel_query.simps balanced_def
  by (simp add: plain_text_def bracketed_balanced [OF balanced_gauge])

lemmas panel_queries_balanced =
  bracketed_balanced
  dns_query_rcode_balanced
  dns_latency_balanced
  dns_answer_source_balanced
  dns_cache_ratio_balanced
  dns_cache_entry_balanced
  dns_blocklist_balanced
  dns_upstream_tier_balanced
  dns_traffic_balanced
  controller_unit_state_balanced
  controller_unit_health_balanced
  controller_http_balanced
  controller_latency_balanced
  controller_audit_balanced
  controller_failure_balanced
  controller_inventory_balanced
  controller_disk_balanced
  controller_disk_fill_balanced
  controller_cpu_balanced
  controller_memory_balanced
  controller_concurrency_balanced
  controller_account_balanced
  controller_uptime_balanced

section \<open>Properties\<close>

text \<open>Every query of the DNS and of the controller panels is well-bracketed: brackets and
  string literals match in it, wherever it is put.\<close>

theorem dashboard_queries_wellformed:
  "list_all (\<lambda>q. bracketed [] False (q_expr q)) (dns_queries @ controller_queries)"
proof -
  have "list_all (\<lambda>q. balanced (q_expr q)) (dns_queries @ controller_queries)"
    unfolding dns_queries_def controller_queries_def list_all_append
    by (intro conjI panel_queries_balanced)
  then show ?thesis by (auto simp: list_all_iff intro: balanced_whole)
qed

text \<open>The disk panel reads the devices it was given and no others: the alternatives of the
  regular expression in both of its queries are exactly these names, or the sentinel no
  device has when there are none, and the queries are well-bracketed.\<close>

theorem disk_queries_devices:
  assumes "list_all (\<lambda>d. CHR ''|'' \<notin> set d \<and> CHR 0x22 \<notin> set d) devices"
  shows "split_on CHR ''|'' (disk_regex (Some devices))
      = (if devices = [] then [NO_BTRFS_DEVICES_SENTINEL] else devices) \<and>
    list_all (\<lambda>q. bracketed [] False (q_expr q)) (buildDiskIOQueries (Some devices)) \<and>
    buildDiskIOQueries None = buildDiskIOQueries (Some [])"
proof -
  have s: "CHR ''|'' \<notin> set NO_BTRFS_DEVICES_SENTINEL" "CHR 0x22 \<notin> set NO_BTRFS_DEVICES_SENTINEL"
    by code_simp+
  have j: "CHR 0x22 \<notin> set (join ''|'' ds)" if "list_all (\<lambda>d. CHR 0x22 \<notin> set d) ds" for ds
    using that by (induction "''|''" ds rule: join.induct) auto
  have "CHR 0x22 \<notin> set (disk_regex (Some devices))"
    using assms s j [of devices] by (auto simp: disk_regex_def list_all_iff)
  then have "list_all (\<lambda>q. bracketed [] False (q_expr q)) (buildDiskIOQueries (Some devices))"
    by (simp add: buildDiskIOQueries_def Let_def bracketed_literal RATE_INTERVAL_def)
  moreover have "split_on CHR ''|'' (disk_regex (Some devices))
      = (if devices = [] then [NO_BTRFS_DEVICES_SENTINEL] else devices)"
    using assms s split_on_join_parts [of devices "CHR ''|''"]
    by (auto simp: disk_regex_def split_on_fresh list_all_iff)
  ultimately show ?thesis by (simp add: buildDiskIOQueries_def disk_regex_def)
qed

theorem disk_queries_devices_witness:
  "split_on CHR ''|'' (disk_regex (Some [''sda'', ''nvme0n1''])) = [''sda'', ''nvme0n1'']"
  using disk_queries_devices [of "[''sda'', ''nvme0n1'']"] by simp

text \<open>An axis bound stays one-sided: a bound that is given is the end of the range whatever
  the data, one that is not follows the data, and the scale is automatic unless both
  ends are pinned.\<close>

theorem axisScale_one_sided:
  "ax_auto (axisScale lo hi) = (lo = None \<or> hi = None) \<and>
   (case ax_range (axisScale lo hi) of
      None \<Rightarrow> lo = None \<and> hi = None
    | Some f \<Rightarrow> f (Some a) (Some b) = (case lo of Some l \<Rightarrow> l | None \<Rightarrow> a, case hi of Some h \<Rightarrow> h | None \<Rightarrow> b) \<and>
        f None None = (case lo of Some l \<Rightarrow> l | None \<Rightarrow> 0, case hi of Some h \<Rightarrow> h | None \<Rightarrow> 1))"
  by (auto simp: axisScale_def nullish_or_def split: option.split)

end
