(* ===== verification/Session.thy ===== *)
theory Session
  imports ClientAccount "HOL-Library.Multiset"
begin

text \<open>
  The browser session: \<^verbatim>\<open>ui/src/lib/auth.js\<close> (the token and the account in web
  storage), \<^verbatim>\<open>ui/src/lib/client-instance.js\<close> (the client singleton),
  \<^verbatim>\<open>ui/src/lib/session-guard.js\<close> (the suspension counter) and the hooks of
  \<^verbatim>\<open>ui/src/lib/hooks.js\<close> that use them.  Module state is an explicit record, a closure
  is the index of its flag, and a hook is the list of the events it reacts to.
\<close>

section \<open>Web storage: auth.js\<close>

record storage =
  st_local :: "string \<rightharpoonup> string"
  st_session :: "string \<rightharpoonup> string"

definition TOKEN_KEY :: string where "TOKEN_KEY = ''town-os-token''"
definition ACCOUNT_KEY :: string where "ACCOUNT_KEY = ''town-os-account''"
definition SESSION_EXPIRED_KEY :: string where "SESSION_EXPIRED_KEY = ''town-os-session-expired''"

definition getToken :: "storage \<Rightarrow> string option" where
  "getToken st = st_local st TOKEN_KEY"

definition setToken_auth :: "string \<Rightarrow> storage \<Rightarrow> storage" where
  "setToken_auth t st = st\<lparr>st_local := (st_local st)(TOKEN_KEY \<mapsto> t)\<rparr>"

definition clearToken :: "storage \<Rightarrow> storage" where
  "clearToken st = st\<lparr>st_local := (st_local st)(TOKEN_KEY := None, ACCOUNT_KEY := None)\<rparr>"

definition getAccount :: "storage \<Rightarrow> json" where
  "getAccount st =
     (case st_local st ACCOUNT_KEY of
        None \<Rightarrow> JNull
      | Some raw \<Rightarrow>
          if raw = [] then JNull
          else (case parse_json raw of None \<Rightarrow> JNull | Some v \<Rightarrow> v))"

text \<open>\<open>setItem\<close> stores the text \<open>undefined\<close> when there is nothing to stringify.\<close>

definition setAccount :: "json \<Rightarrow> storage \<Rightarrow> storage" where
  "setAccount account st = st\<lparr>st_local := (st_local st)(ACCOUNT_KEY \<mapsto>
     (case json_stringify account of None \<Rightarrow> ''undefined'' | Some s \<Rightarrow> s))\<rparr>"

definition setSessionExpired :: "storage \<Rightarrow> storage" where
  "setSessionExpired st = st\<lparr>st_session := (st_session st)(SESSION_EXPIRED_KEY \<mapsto> ''1'')\<rparr>"

definition getAndClearSessionExpired :: "storage \<Rightarrow> bool \<times> storage" where
  "getAndClearSessionExpired st =
     (case st_session st SESSION_EXPIRED_KEY of
        None \<Rightarrow> (False, st)
      | Some val \<Rightarrow>
          if val = [] then (False, st)
          else (True, st\<lparr>st_session := (st_session st)(SESSION_EXPIRED_KEY := None)\<rparr>))"

lemmas storage_defs =
  getToken_def setToken_auth_def clearToken_def getAccount_def setAccount_def
  setSessionExpired_def getAndClearSessionExpired_def
  TOKEN_KEY_def ACCOUNT_KEY_def SESSION_EXPIRED_KEY_def

section \<open>The client singleton: client-instance.js\<close>

record location =
  loc_protocol :: string
  loc_hostname :: string
  loc_vite_api_url :: "string option"

definition getBaseURLForPort :: "location \<Rightarrow> int \<Rightarrow> string" where
  "getBaseURLForPort loc port =
     (case loc_vite_api_url loc of
        Some url \<Rightarrow> if url \<noteq> [] then url
          else loc_protocol loc @ ''//'' @ loc_hostname loc @ '':'' @ int_str port
      | None \<Rightarrow> loc_protocol loc @ ''//'' @ loc_hostname loc @ '':'' @ int_str port)"

definition initial_client :: "location \<Rightarrow> client" where
  "initial_client loc = newClient (getBaseURLForPort loc 5309)"

definition getClient :: "storage \<Rightarrow> client \<Rightarrow> client" where
  "getClient st c =
     (case getToken st of
        Some t \<Rightarrow> if t \<noteq> [] then setToken c t else c
      | None \<Rightarrow> c)"

section \<open>Suspensions: session-guard.js\<close>

text \<open>
  \<open>g_released\<close> holds the \<open>released\<close> variable of every closure
  \<open>suspendSessionChecks\<close> has returned, in order; \<open>g_notified\<close> the listeners called so
  far.
\<close>

record guard =
  g_suspendCount :: int
  g_released :: "bool list"
  g_listeners :: "nat list"
  g_notified :: "nat list"

definition initial_guard :: guard where
  "initial_guard = \<lparr>g_suspendCount = 0, g_released = [], g_listeners = [], g_notified = []\<rparr>"

definition isSessionCheckSuspended :: "guard \<Rightarrow> bool" where
  "isSessionCheckSuspended g \<longleftrightarrow> g_suspendCount g > 0"

definition notify :: "guard \<Rightarrow> guard" where
  "notify g = g\<lparr>g_notified := g_notified g @ g_listeners g\<rparr>"

definition suspendSessionChecks :: "guard \<Rightarrow> nat \<times> guard" where
  "suspendSessionChecks g =
     (let g1 = notify (g\<lparr>g_suspendCount := g_suspendCount g + 1\<rparr>)
      in (length (g_released g1), g1\<lparr>g_released := g_released g1 @ [False]\<rparr>))"

definition release :: "nat \<Rightarrow> guard \<Rightarrow> guard" where
  "release k g =
     (if k < length (g_released g) \<and> \<not> g_released g ! k then
        notify (g\<lparr>g_released := (g_released g)[k := True],
                  g_suspendCount := max 0 (g_suspendCount g - 1)\<rparr>)
      else g)"



definition resetSessionChecks :: "guard \<Rightarrow> guard" where
  "resetSessionChecks g = notify (g\<lparr>g_suspendCount := 0\<rparr>)"

definition held :: "guard \<Rightarrow> nat set" where
  "held g = {k. k < length (g_released g) \<and> \<not> g_released g ! k}"

text \<open>Outside the tests, which may reset it, the counter counts the open suspensions.\<close>

definition guard_ok :: "guard \<Rightarrow> bool" where
  "guard_ok g \<longleftrightarrow> g_suspendCount g = int (card (held g))"

lemma finite_held [simp]: "finite (held g)"
  by (simp add: held_def)

lemma held_simps [simp]:
  "held (g\<lparr>g_suspendCount := n\<rparr>) = held g"
  "held (g\<lparr>g_listeners := ls\<rparr>) = held g"
  "held (g\<lparr>g_notified := ns\<rparr>) = held g"
  by (simp_all add: held_def)

lemma guard_ok_initial: "guard_ok initial_guard"
  by (simp add: guard_ok_def held_def initial_guard_def)

lemma held_suspend: "suspendSessionChecks g = (k, g') \<Longrightarrow> k \<notin> held g \<and> held g' = insert k (held g)"
  by (auto simp: suspendSessionChecks_def notify_def held_def Let_def nth_append less_Suc_eq)

lemma held_release: "held (release k g) = held g - {k}"
  by (auto simp: release_def notify_def held_def nth_list_update)

lemma guard_ok_suspend: "guard_ok g \<Longrightarrow> suspendSessionChecks g = (k, g') \<Longrightarrow> guard_ok g'"
  using held_suspend [of g k g']
  by (auto simp: guard_ok_def suspendSessionChecks_def notify_def Let_def)

lemma guard_ok_release:
  assumes ok: "guard_ok g"
  shows "guard_ok (release k g)"
proof (cases "k \<in> held g")
  case True
  then have "card (held g) > 0" using card_gt_0_iff [of "held g"] by auto
  moreover have "card (held (release k g)) = card (held g) - 1"
    using True by (simp add: held_release)
  moreover have "g_suspendCount (release k g) = max 0 (g_suspendCount g - 1)"
    using True by (simp add: release_def notify_def held_def)
  ultimately show ?thesis
    using ok by (simp add: guard_ok_def)
next
  case False
  then have "release k g = g" by (auto simp: release_def held_def)
  then show ?thesis using ok by simp
qed

lemma suspended_iff_held: "guard_ok g \<Longrightarrow> isSessionCheckSuspended g \<longleftrightarrow> held g \<noteq> {}"
  by (simp add: isSessionCheckSuspended_def guard_ok_def card_gt_0_iff)

subsection \<open>The contract the poll relies on\<close>

text \<open>
  What a user of the guard may assume: \<open>on\<close> tells whether any suspension is held,
  every acquisition is a new one, and releasing gives back that one and no other.
\<close>

locale suspension =
  fixes ok :: "'g \<Rightarrow> bool" and on :: "'g \<Rightarrow> bool" and holders :: "'g \<Rightarrow> 'k set"
    and acquire :: "'g \<Rightarrow> 'k \<times> 'g" and give_back :: "'k \<Rightarrow> 'g \<Rightarrow> 'g"
  assumes on_iff: "ok g \<Longrightarrow> on g \<longleftrightarrow> holders g \<noteq> {}"
    and ok_acquire: "ok g \<Longrightarrow> acquire g = (k, g') \<Longrightarrow> ok g'"
    and ok_give_back: "ok g \<Longrightarrow> ok (give_back k g)"
    and holders_acquire: "acquire g = (k, g') \<Longrightarrow> k \<notin> holders g \<and> holders g' = insert k (holders g)"
    and holders_give_back: "holders (give_back k g) = holders g - {k}"
begin

lemma acquire_on: "ok g \<Longrightarrow> acquire g = (k, g') \<Longrightarrow> on g'"
  using holders_acquire [of g k g'] ok_acquire [of g k g'] on_iff [of g'] by simp

lemma on_until_given_back:
  assumes "ok g" "k \<in> holders g" "j \<noteq> k"
  shows "on (give_back j g) \<and> k \<in> holders (give_back j g)"
proof -
  have "k \<in> holders (give_back j g)" using assms holders_give_back [of j g] by simp
  then show ?thesis using on_iff [OF ok_give_back [OF assms(1)], of j] by auto
qed

lemma bracket:
  "ok g \<Longrightarrow> acquire g = (k, g') \<Longrightarrow> on (give_back k g') = on g"
proof -
  assume ok: "ok g" and a: "acquire g = (k, g')"
  have "ok (give_back k g')" using ok a ok_acquire ok_give_back by blast
  moreover have "holders (give_back k g') = holders g"
    using holders_acquire [OF a] holders_give_back by auto
  ultimately show ?thesis using ok on_iff by simp
qed

lemma give_back_twice:
  "ok g \<Longrightarrow> on (give_back k (give_back k g)) = on (give_back k g)"
  by (simp add: on_iff ok_give_back holders_give_back)

end

interpretation session_guard: suspension guard_ok isSessionCheckSuspended held suspendSessionChecks release
  by unfold_locales
    (auto simp: suspended_iff_held guard_ok_release held_release
      dest: held_suspend guard_ok_suspend)

lemma release_idempotent: "release k (release k g) = release k g"
  by (simp add: release_def notify_def nth_list_update)

section \<open>The session poll: useRequireAuth\<close>

record session =
  ss_storage :: storage
  ss_guard :: guard
  ss_client :: client
  ss_visited :: "string list"

text \<open>
  The effect runs when the hook mounts and when the suspension changes; it returns
  whether the poll is started.  An interval tick sends a ping with the singleton,
  and its answer may log the user out.
\<close>

definition navigate :: "string \<Rightarrow> session \<Rightarrow> session" where
  "navigate path s = s\<lparr>ss_visited := ss_visited s @ [path]\<rparr>"

definition auth_effect :: "session \<Rightarrow> bool \<times> session" where
  "auth_effect s =
     (if \<not> given (getToken (ss_storage s)) then (False, navigate ''/'' s)
      else if isSessionCheckSuspended (ss_guard s) then (False, s)
      else (True, s))"

definition logout :: "session \<Rightarrow> session" where
  "logout s =
     (if isSessionCheckSuspended (ss_guard s) then s
      else navigate ''/'' (s\<lparr>ss_storage := clearToken (setSessionExpired (ss_storage s))\<rparr>))"

definition check_sent :: "session \<Rightarrow> session" where
  "check_sent s = s\<lparr>ss_client := getClient (ss_storage s) (ss_client s)\<rparr>"

text \<open>A \<open>TypeError\<close> of reading \<open>resp.username\<close> ends in the same \<open>catch\<close>.\<close>

definition check_answered :: "js_error + json \<Rightarrow> session \<Rightarrow> session" where
  "check_answered answer s =
     (case answer of
        Inr resp \<Rightarrow>
          (case js_prop resp ''username'' of
             None \<Rightarrow> s
           | Some u \<Rightarrow> if truthy u then s else logout s)
      | Inl (ApiErr e) \<Rightarrow> if ae_status e = 401 then logout s else s
      | Inl _ \<Rightarrow> s)"

datatype session_event = Mounted | Tick | Answered "js_error + json" | Suspended | Released nat

definition session_step :: "session_event \<Rightarrow> session \<Rightarrow> session" where
  "session_step ev s =
     (case ev of
        Mounted \<Rightarrow> snd (auth_effect s)
      | Tick \<Rightarrow> check_sent s
      | Answered answer \<Rightarrow> check_answered answer s
      | Suspended \<Rightarrow> s\<lparr>ss_guard := snd (suspendSessionChecks (ss_guard s))\<rparr>
      | Released k \<Rightarrow> s\<lparr>ss_guard := release k (ss_guard s)\<rparr>)"

text \<open>A suspension that stays open over a run of events.\<close>

lemma session_step_guard:
  assumes "guard_ok (ss_guard s)" "k \<in> held (ss_guard s)" "ev \<noteq> Released k"
  shows "guard_ok (ss_guard (session_step ev s)) \<and> k \<in> held (ss_guard (session_step ev s))"
proof (cases ev)
  case Suspended
  obtain j g' where "suspendSessionChecks (ss_guard s) = (j, g')" by force
  then show ?thesis using Suspended assms guard_ok_suspend held_suspend
    by (auto simp: session_step_def)
next
  case (Released j)
  then show ?thesis using assms by (simp add: session_step_def guard_ok_release held_release)
next
  case (Answered a)
  then show ?thesis using assms
    by (auto simp: session_step_def check_answered_def logout_def navigate_def
        split: sum.split option.split js_error.split)
qed (use assms in \<open>auto simp: session_step_def auth_effect_def navigate_def check_sent_def\<close>)

lemma session_step_kept:
  assumes "guard_ok (ss_guard s)" "held (ss_guard s) \<noteq> {}" "given (getToken (ss_storage s))"
  shows "ss_storage (session_step ev s) = ss_storage s \<and> ss_visited (session_step ev s) = ss_visited s"
proof -
  have "isSessionCheckSuspended (ss_guard s)"
    using assms by (simp add: session_guard.on_iff)
  then show ?thesis using assms(3)
    by (auto simp: session_step_def auth_effect_def check_sent_def check_answered_def logout_def
        split: session_event.split sum.split option.split js_error.split)
qed

definition session_run :: "session_event list \<Rightarrow> session \<Rightarrow> session" where
  "session_run evs s = fold session_step evs s"

lemma session_run_kept:
  "guard_ok (ss_guard s) \<Longrightarrow> k \<in> held (ss_guard s) \<Longrightarrow> given (getToken (ss_storage s)) \<Longrightarrow>
    Released k \<notin> set evs \<Longrightarrow>
    ss_storage (session_run evs s) = ss_storage s \<and> ss_visited (session_run evs s) = ss_visited s"
proof (induction evs arbitrary: s)
  case (Cons ev evs)
  have g: "guard_ok (ss_guard (session_step ev s)) \<and> k \<in> held (ss_guard (session_step ev s))"
    using Cons.prems by (intro session_step_guard) auto
  have st: "ss_storage (session_step ev s) = ss_storage s \<and> ss_visited (session_step ev s) = ss_visited s"
    using Cons.prems by (intro session_step_kept) auto
  have "session_run (ev # evs) s = session_run evs (session_step ev s)"
    by (simp add: session_run_def)
  then show ?case using Cons g st by simp
qed (simp add: session_run_def)

section \<open>Polling: usePolling\<close>

text \<open>
  The state of one \<open>usePolling\<close> hook.  \<open>pl_inflight\<close> holds the generation of every
  fetch whose promise has not settled; the fetches settle in any order.
\<close>

record 'a polling =
  pl_data :: 'a
  pl_loading :: bool
  pl_generation :: nat
  pl_inflight :: "nat list"

definition polling_start :: "'a \<Rightarrow> 'a polling" where
  "polling_start defaultValue =
     \<lparr>pl_data = defaultValue, pl_loading = True, pl_generation = 0, pl_inflight = []\<rparr>"

definition polling_refresh :: "'a polling \<Rightarrow> 'a polling" where
  "polling_refresh p =
     (let gen = pl_generation p + 1 in
      p\<lparr>pl_generation := gen, pl_loading := True, pl_inflight := pl_inflight p @ [gen]\<rparr>)"

definition polling_then :: "nat \<Rightarrow> 'a \<Rightarrow> 'a polling \<Rightarrow> 'a polling" where
  "polling_then gen result p =
     (if gen \<noteq> pl_generation p then p
      else p\<lparr>pl_data := result, pl_loading := False\<rparr>)"

definition polling_catch :: "nat \<Rightarrow> 'a polling \<Rightarrow> 'a polling" where
  "polling_catch gen p =
     (if gen \<noteq> pl_generation p then p else p\<lparr>pl_loading := False\<rparr>)"

definition settled :: "nat \<Rightarrow> 'a polling \<Rightarrow> 'a polling" where
  "settled gen p = p\<lparr>pl_inflight := remove1 gen (pl_inflight p)\<rparr>"

inductive poll_step :: "'a polling \<Rightarrow> 'a polling \<Rightarrow> bool" where
  poll_refresh: "poll_step p (polling_refresh p)"
| poll_resolve: "gen \<in> set (pl_inflight p) \<Longrightarrow> poll_step p (settled gen (polling_then gen result p))"
| poll_reject: "gen \<in> set (pl_inflight p) \<Longrightarrow> poll_step p (settled gen (polling_catch gen p))"

inductive poll_reach :: "'a \<Rightarrow> 'a polling \<Rightarrow> bool" for d where
  poll_mount: "poll_reach d (polling_refresh (polling_start d))"
| poll_next: "poll_reach d p \<Longrightarrow> poll_step p q \<Longrightarrow> poll_reach d q"

definition polling_inv :: "'a polling \<Rightarrow> bool" where
  "polling_inv p \<longleftrightarrow> distinct (pl_inflight p) \<and> (\<forall>g\<in>set (pl_inflight p). 1 \<le> g \<and> g \<le> pl_generation p) \<and>
     (pl_loading p \<longleftrightarrow> pl_generation p \<in> set (pl_inflight p))"

inductive_cases poll_stepE: "poll_step p q"

lemma polling_inv_step: "polling_inv p \<Longrightarrow> poll_step p q \<Longrightarrow> polling_inv q"
  by (erule poll_stepE)
    (auto simp: polling_inv_def polling_refresh_def polling_then_def polling_catch_def settled_def
      set_remove1_eq Let_def)

lemma polling_inv_reach: "poll_reach d p \<Longrightarrow> polling_inv p"
proof (induction rule: poll_reach.induct)
  case poll_mount
  show ?case by (simp add: polling_inv_def polling_refresh_def polling_start_def)
next
  case (poll_next p q)
  then show ?case by (blast intro: polling_inv_step)
qed

text \<open>
  Settling a list of fetches, each given its generation and its result (\<open>None\<close> for a
  rejection).
\<close>

definition settle :: "nat \<times> 'a option \<Rightarrow> 'a polling \<Rightarrow> 'a polling" where
  "settle x p = settled (fst x)
     (case snd x of Some r \<Rightarrow> polling_then (fst x) r p | None \<Rightarrow> polling_catch (fst x) p)"

definition settle_all :: "(nat \<times> 'a option) list \<Rightarrow> 'a polling \<Rightarrow> 'a polling" where
  "settle_all xs p = fold settle xs p"

lemma settle_generation [simp]: "pl_generation (settle x p) = pl_generation p"
  by (simp add: settle_def settled_def polling_then_def polling_catch_def split: option.split)

lemma settle_all_simps [simp]:
  "settle_all [] p = p"
  "settle_all (x # xs) p = settle_all xs (settle x p)"
  by (simp_all add: settle_all_def)

lemma settle_stale:
  "fst x \<noteq> pl_generation p \<Longrightarrow> pl_data (settle x p) = pl_data p \<and> pl_loading (settle x p) = pl_loading p"
  by (simp add: settle_def settled_def polling_then_def polling_catch_def split: option.split)

lemma settle_all_stale:
  "pl_generation p \<notin> fst ` set xs \<Longrightarrow>
    pl_data (settle_all xs p) = pl_data p \<and> pl_loading (settle_all xs p) = pl_loading p"
proof (induction xs arbitrary: p)
  case (Cons x xs)
  then have x: "fst x \<noteq> pl_generation p" and "pl_generation (settle x p) \<notin> fst ` set xs" by auto
  with Cons.IH [of "settle x p"] settle_stale [OF x] show ?case by simp
qed simp

lemma settle_current:
  "pl_data (settle (pl_generation p, r) p) = (case r of Some v \<Rightarrow> v | None \<Rightarrow> pl_data p) \<and>
    \<not> pl_loading (settle (pl_generation p, r) p)"
  by (simp add: settle_def settled_def polling_then_def polling_catch_def split: option.split)

lemma settle_all_current:
  "distinct (map fst xs) \<Longrightarrow> (pl_generation p, r) \<in> set xs \<Longrightarrow>
    pl_data (settle_all xs p) = (case r of Some v \<Rightarrow> v | None \<Rightarrow> pl_data p) \<and>
    \<not> pl_loading (settle_all xs p)"
proof (induction xs arbitrary: p)
  case (Cons x xs)
  show ?case
  proof (cases "x = (pl_generation p, r)")
    case True
    then have "pl_generation (settle x p) \<notin> fst ` set xs" using Cons.prems by auto
    from settle_all_stale [OF this] show ?thesis using settle_current [of p r] True by simp
  next
    case False
    have mem: "(pl_generation p, r) \<in> set xs" using Cons.prems False by auto
    then have x: "fst x \<noteq> pl_generation p" using Cons.prems by force
    have "(pl_generation (settle x p), r) \<in> set xs" using mem by simp
    with Cons.IH [of "settle x p"] Cons.prems settle_stale [OF x] show ?thesis
      by (auto split: option.split)
  qed
qed simp

section \<open>Properties\<close>

definition sample_session :: session where
  "sample_session =
     \<lparr>ss_storage = setToken_auth ''jwt'' \<lparr>st_local = Map.empty, st_session = Map.empty\<rparr>,
      ss_guard = initial_guard, ss_client = newClient ''http://box:5309'', ss_visited = []\<rparr>"

definition expired_answer :: "js_error + json" where
  "expired_answer = Inl (ApiErr (makeApiError ''GET'' ''/status/ping'' 401 []))"

text \<open>The account written by \<open>setAccount\<close> is the one \<open>getAccount\<close> reads back, next to
  the token, and \<open>clearToken\<close> removes both.\<close>

theorem account_roundtrip:
  assumes "json_ok a"
  shows "getAccount (setAccount a (setToken_auth t st)) = a \<and>
    getToken (setAccount a (setToken_auth t st)) = Some t \<and>
    getAccount (clearToken (setAccount a (setToken_auth t st))) = JNull \<and>
    getToken (clearToken (setAccount a (setToken_auth t st))) = None"
proof -
  have p: "parse_json (stringify a) = Some a" by (rule parse_stringify [OF assms])
  moreover have "parse_json [] = None" by code_simp
  ultimately have "stringify a \<noteq> []" by force
  moreover have "a \<noteq> JUndefined" using assms by auto
  ultimately show ?thesis using p
    by (simp add: storage_defs json_stringify_def)
qed

theorem account_roundtrip_witness:
  "getAccount (setAccount (JObj [(''username'', JStr ''admin''), (''admin'', JBool True)])
     (setToken_auth ''jwt'' (ss_storage sample_session)))
   = JObj [(''username'', JStr ''admin''), (''admin'', JBool True)]"
proof -
  have "json_ok (JObj [(''username'', JStr ''admin''), (''admin'', JBool True)])" by code_simp
  from account_roundtrip [OF this] show ?thesis by blast
qed

text \<open>C6: while a suspension of the session checks is held, no answer to the poll logs the
  user out: over any run of ticks, answers, remounts and other suspensions that does
  not release this one, the stored token and account are kept and nothing navigates.\<close>

theorem suspended_session_survives:
  assumes "guard_ok (ss_guard s)" "given (getToken (ss_storage s))"
    and "suspendSessionChecks (ss_guard s) = (k, g)" "Released k \<notin> set evs"
  shows "ss_storage (session_run evs (s\<lparr>ss_guard := g\<rparr>)) = ss_storage s \<and>
    ss_visited (session_run evs (s\<lparr>ss_guard := g\<rparr>)) = ss_visited s"
  using session_run_kept [of "s\<lparr>ss_guard := g\<rparr>" k evs] assms
    guard_ok_suspend [OF assms(1,3)] held_suspend [OF assms(3)]
  by simp

theorem suspended_session_survives_witness:
  "getToken (ss_storage (session_run [Tick, Answered expired_answer, Suspended, Released 1, Answered expired_answer]
     (sample_session\<lparr>ss_guard := snd (suspendSessionChecks initial_guard)\<rparr>))) = Some ''jwt''"
proof -
  have a: "guard_ok (ss_guard sample_session)" "given (getToken (ss_storage sample_session))"
    by (simp_all add: sample_session_def guard_ok_initial storage_defs given_def)
  have "suspendSessionChecks (ss_guard sample_session) = (0, snd (suspendSessionChecks initial_guard))"
    by (simp add: sample_session_def suspendSessionChecks_def notify_def initial_guard_def)
  from suspended_session_survives [OF a this,
    of "[Tick, Answered expired_answer, Suspended, Released 1, Answered expired_answer]"]
  show ?thesis by (simp add: sample_session_def storage_defs)
qed

text \<open>The answers to a ping that deny the session.\<close>

definition denies :: "js_error + json \<Rightarrow> bool" where
  "denies answer \<longleftrightarrow>
     (case answer of
        Inl (ApiErr e) \<Rightarrow> ae_status e = 401
      | Inl _ \<Rightarrow> False
      | Inr resp \<Rightarrow> resp \<noteq> JUndefined \<and> resp \<noteq> JNull \<and> \<not> truthy (js_opt_prop resp ''username''))"

text \<open>Without a suspension, an answer that denies the session (an \<open>ApiError\<close> with status
  401, or a ping without a user name) clears the token and the account, leaves the
  expiry message to be shown exactly once, and goes to the login page; every other
  failure of the poll, a network error or a 500 among them, leaves the session alone.\<close>

theorem poll_answer_logs_out:
  assumes "\<not> isSessionCheckSuspended (ss_guard s)"
  shows "if denies answer
    then (let s' = check_answered answer s; (expired, st) = getAndClearSessionExpired (ss_storage s') in
      getToken (ss_storage s') = None \<and> getAccount (ss_storage s') = JNull \<and>
      expired \<and> \<not> fst (getAndClearSessionExpired st) \<and>
      ss_visited s' = ss_visited s @ [''/''] \<and> fst (auth_effect s') = False)
    else check_answered answer s = s"
proof (cases "denies answer")
  case True
  then have "check_answered answer s = logout s"
    by (auto simp: denies_def check_answered_def js_opt_prop_def js_prop_def
        split: sum.splits js_error.splits json.splits option.splits)
  then show ?thesis
    using True assms by (simp add: logout_def navigate_def storage_defs auth_effect_def given_def)
next
  case False
  then show ?thesis
    by (auto simp: denies_def check_answered_def js_opt_prop_def js_prop_def
        split: sum.splits js_error.splits json.splits)
qed

theorem poll_answer_logs_out_witness:
  "getToken (ss_storage (check_answered expired_answer sample_session)) = None"
proof -
  have "\<not> isSessionCheckSuspended (ss_guard sample_session)" "denies expired_answer"
    by code_simp+
  then show ?thesis using poll_answer_logs_out [of sample_session expired_answer]
    by (simp add: Let_def case_prod_beta)
qed

text \<open>A suspension is a bracket: released once or twice, it leaves the checks as
  suspended as they were before it was taken, and the other suspensions held.\<close>

theorem suspension_bracket:
  assumes "guard_ok g" "suspendSessionChecks g = (k, g')"
  shows "isSessionCheckSuspended g' \<and>
    isSessionCheckSuspended (release k g') = isSessionCheckSuspended g \<and>
    release k (release k g') = release k g' \<and>
    g_suspendCount (release k g') = g_suspendCount g \<and> held (release k g') = held g"
proof -
  have "held (release k g') = held g"
    using held_suspend [OF assms(2)] by (auto simp: held_release)
  moreover from this have "g_suspendCount (release k g') = g_suspendCount g"
    using assms guard_ok_suspend guard_ok_release unfolding guard_ok_def by metis
  ultimately show ?thesis
    using session_guard.acquire_on [OF assms] session_guard.bracket [OF assms]
    by (simp add: release_idempotent)
qed

theorem suspension_bracket_witness:
  "\<not> isSessionCheckSuspended (release 0 (snd (suspendSessionChecks initial_guard)))"
proof -
  have "suspendSessionChecks initial_guard = (0, snd (suspendSessionChecks initial_guard))"
    by (simp add: suspendSessionChecks_def notify_def initial_guard_def)
  from suspension_bracket [OF guard_ok_initial this] show ?thesis
    by (simp add: isSessionCheckSuspended_def initial_guard_def)
qed










text \<open>C12: the last refresh wins: in every reachable state of \<open>usePolling\<close>, whatever the
  order in which the fetches in flight settle, the data shown is the result of the
  newest one (or stays what it was when that one fails) and the spinner is gone.\<close>

theorem polling_last_wins:
  assumes "poll_reach d p" "mset (map fst xs) = mset (pl_inflight p)" "(pl_generation p, r) \<in> set xs"
  shows "pl_data (settle_all xs p) = (case r of Some v \<Rightarrow> v | None \<Rightarrow> pl_data p) \<and>
    \<not> pl_loading (settle_all xs p)"
proof -
  have "distinct (pl_inflight p)"
    using polling_inv_reach [OF assms(1)] by (simp add: polling_inv_def)
  then have "distinct (map fst xs)"
    using assms(2) mset_eq_imp_distinct_iff by blast
  then show ?thesis using assms(3) by (rule settle_all_current)
qed

theorem polling_last_wins_witness:
  "pl_data (settle_all [(2, Some ''new''), (1, Some ''old'')]
     (polling_refresh (polling_refresh (polling_start ''none'')))) = ''new''"
proof -
  have "poll_reach ''none'' (polling_refresh (polling_refresh (polling_start ''none'')))"
    by (intro poll_next [OF poll_mount] poll_refresh)
  from polling_last_wins [OF this, of "[(2, Some ''new''), (1, Some ''old'')]" "Some ''new''"] show ?thesis
    by (simp add: polling_refresh_def polling_start_def Let_def)
qed

text \<open>The spinner of \<open>usePolling\<close> tells the truth: in every reachable state it is shown
  exactly while the newest fetch has not settled.\<close>

theorem polling_loading_iff:
  assumes "poll_reach d p"
  shows "pl_loading p \<longleftrightarrow> pl_generation p \<in> set (pl_inflight p)"
  using polling_inv_reach [OF assms] by (simp add: polling_inv_def)

theorem polling_loading_iff_witness:
  "pl_loading (polling_refresh (polling_start ''none''))"
  using polling_loading_iff [OF poll_mount, of "''none''"]
  by (simp add: polling_refresh_def polling_start_def Let_def)

text \<open>The client singleton keeps the token it was given: after a logout \<open>getClient\<close>
  still sends the old token in the \<open>Authorization\<close> header of its requests.\<close>

theorem client_keeps_token_after_logout:
  assumes "getToken st = Some t" "t \<noteq> []"
  shows "getToken (clearToken st) = None \<and>
    obj_get (rq_headers (get_request (getClient (clearToken st) (getClient st c)) path [])) ''Authorization''
      = Some (bearer t)"
  using assms
  by (simp add: storage_defs getClient_def setToken_def get_request_def auth_header_def obj_spread_def
      obj_get_def map_of_obj_set)

theorem client_keeps_token_after_logout_witness:
  "obj_get (rq_headers (get_request (getClient (clearToken (ss_storage sample_session))
     (getClient (ss_storage sample_session) (ss_client sample_session))) ''/locales'' [])) ''Authorization''
   = Some ''Bearer jwt''"
proof -
  have "getToken (ss_storage sample_session) = Some ''jwt''"
    by (simp add: sample_session_def storage_defs)
  from client_keeps_token_after_logout [OF this, of "ss_client sample_session" "''/locales''"]
  show ?thesis by (simp add: bearer_def)
qed

end
