(* ===== verification/I18n.thy ===== *)
theory I18n
  imports Session "HOL-Library.Multiset"
begin

text \<open>
  \<^verbatim>\<open>ui/src/i18n/I18nContext.jsx\<close> and \<^verbatim>\<open>ui/src/i18n/derive.js\<close>: the choice of the
  language, the locale state of the provider and the translation of a message.

  The catalogs are a parameter of \<open>translate\<close>; their codes are the shipped ones.  The
  keys JavaScript finds on \<open>Object.prototype\<close> (a locale called \<^verbatim>\<open>constructor\<close>) are
  left out.  The regular expressions are written as the list functions they denote.
\<close>

section \<open>Catalogs\<close>

type_synonym catalog = "string obj"

definition derive :: "catalog \<Rightarrow> catalog \<Rightarrow> catalog" where
  "derive base overrides = obj_spread base overrides"

definition catalog_codes :: "string list" where
  "catalog_codes =
     [''en-US'', ''ar-AE'', ''ar-EG'', ''ar-SA'', ''bn-BD'', ''bn-IN'', ''cs-CZ'', ''da-DK'',
      ''de-AT'', ''de-CH'', ''de-DE'', ''en-AU'', ''en-CA'', ''en-GB'', ''en-IN'', ''en-NZ'',
      ''en-ZA'', ''es-AR'', ''es-ES'', ''es-MX'', ''fi-FI'', ''fr-BE'', ''fr-CA'', ''fr-CH'',
      ''fr-FR'', ''hi-IN'', ''hr-HR'', ''hu-HU'', ''it-IT'', ''ja-JP'', ''ko-KR'', ''nl-BE'',
      ''nl-NL'', ''pl-PL'', ''pt-BR'', ''pt-PT'', ''ro-RO'', ''ru-RU'', ''sa-IN'', ''sk-SK'',
      ''sl-SI'', ''sv-SE'', ''th-TH'', ''tr-TR'', ''uk-UA'', ''vi-VN'', ''zh-CN'', ''zh-TW'']"

definition defaultLocale :: string where "defaultLocale = ''en-US''"
definition STORAGE_KEY :: string where "STORAGE_KEY = ''townos.locale''"

definition languageDefaults :: "string \<Rightarrow> string option" where
  "languageDefaults = map_of
     [(''ar'', ''ar-SA''), (''bn'', ''bn-BD''), (''de'', ''de-DE''), (''en'', ''en-US''),
      (''es'', ''es-ES''), (''fr'', ''fr-FR''), (''nl'', ''nl-NL''), (''pt'', ''pt-BR'')]"

definition regionDefaults :: "string \<Rightarrow> (string list \<times> string) option" where
  "regionDefaults = map_of
     [(''es'', [''ar'', ''bo'', ''cl'', ''co'', ''cr'', ''cu'', ''do'', ''ec'', ''gt'', ''hn'', ''mx'',
        ''ni'', ''pa'', ''pe'', ''pr'', ''py'', ''sv'', ''uy'', ''ve''], ''es-MX''),
      (''pt'', [''ao'', ''cv'', ''gw'', ''mz'', ''st'', ''tl''], ''pt-PT''),
      (''en'', [''ie'', ''gh'', ''ke'', ''lk'', ''my'', ''ng'', ''pk'', ''sg'', ''tz'', ''ug'', ''zm'', ''zw''],
        ''en-GB'')]"

section \<open>Matching a preference\<close>

definition primary :: "string \<Rightarrow> string" where
  "primary tag = hd (split_on CHR ''-'' tag)"

definition preferredFallback :: "string \<Rightarrow> string option" where
  "preferredFallback pref =
     (let parts = split_on CHR ''-'' pref;
          base = hd parts;
          region = (case tl parts of [] \<Rightarrow> [] | r # _ \<Rightarrow> r)
      in case regionDefaults base of
           Some (regions, code) \<Rightarrow>
             if region \<noteq> [] \<and> region \<in> set regions then Some code else languageDefaults base
         | None \<Rightarrow> languageDefaults base)"

text \<open>\<open>lower.find(([, l]) => P(l))\<close>, the code it was computed from.\<close>

definition find_code :: "(string \<Rightarrow> bool) \<Rightarrow> string list \<Rightarrow> string option" where
  "find_code P codes = find (\<lambda>c. P (to_lower c)) codes"

text \<open>\<^verbatim>\<open>/hant/.test(p) || /(^|-)(tw|hk|mo)($|-)/.test(p)\<close>\<close>

definition traditional :: "string \<Rightarrow> bool" where
  "traditional p \<longleftrightarrow> str_includes ''hant'' p \<or>
     list_ex (\<lambda>s. s \<in> set [''tw'', ''hk'', ''mo'']) (split_on CHR ''-'' p)"

definition or_else :: "'a option \<Rightarrow> 'a option \<Rightarrow> 'a option" where
  "or_else a b = (case a of Some x \<Rightarrow> Some x | None \<Rightarrow> b)"

definition subtag_match :: "string list \<Rightarrow> string \<Rightarrow> string option" where
  "subtag_match codes p =
     (let base = primary p in
      if base = ''zh'' then
        or_else (find_code (\<lambda>l. l = (if traditional p then ''zh-tw'' else ''zh-cn'')) codes)
          (find_code (\<lambda>l. starts_with ''zh'' l) codes)
      else
        or_else
          (case preferredFallback p of
             None \<Rightarrow> None
           | Some fallback \<Rightarrow>
               if fallback = [] then None else find_code (\<lambda>l. l = to_lower fallback) codes)
          (find_code (\<lambda>l. primary l = base) codes))"

fun first_hit :: "('a \<Rightarrow> 'b option) \<Rightarrow> 'a list \<Rightarrow> 'b option" where
  "first_hit f [] = None"
| "first_hit f (x # xs) = (case f x of Some y \<Rightarrow> Some y | None \<Rightarrow> first_hit f xs)"

definition matchLocale :: "string list \<Rightarrow> string list \<Rightarrow> string option" where
  "matchLocale prefs codes =
     or_else (first_hit (\<lambda>pref. find_code (\<lambda>l. l = to_lower pref) codes) prefs)
       (first_hit (\<lambda>pref. subtag_match codes (to_lower pref)) prefs)"

section \<open>The browser\<close>

record navigator =
  nav_languages :: "string list"
  nav_language :: "string option"

text \<open>No navigator outside a browser; no storage when it is missing or throws.\<close>

record browser =
  br_navigator :: "navigator option"
  br_storage :: "(string \<rightharpoonup> string) option"

definition browserPrefs :: "browser \<Rightarrow> string list" where
  "browserPrefs br =
     (case br_navigator br of
        None \<Rightarrow> []
      | Some nav \<Rightarrow>
          if nav_languages nav \<noteq> [] then nav_languages nav
          else (case nav_language nav of
                  Some l \<Rightarrow> if l \<noteq> [] then [l] else []
                | None \<Rightarrow> []))"

definition detectBrowserLocale :: "browser \<Rightarrow> string list \<Rightarrow> string option" where
  "detectBrowserLocale br available = matchLocale (browserPrefs br) available"

definition readStoredLocale :: "browser \<Rightarrow> string option" where
  "readStoredLocale br =
     (case br_storage br of
        None \<Rightarrow> None
      | Some store \<Rightarrow>
          (case store STORAGE_KEY of
             None \<Rightarrow> None
           | Some v \<Rightarrow> if v \<noteq> [] \<and> v \<in> set catalog_codes then Some v else None))"

definition writeStoredLocale :: "string \<Rightarrow> browser \<Rightarrow> browser" where
  "writeStoredLocale code br =
     br\<lparr>br_storage := map_option (\<lambda>store. store(STORAGE_KEY \<mapsto> code)) (br_storage br)\<rparr>"

definition resolveInitialLocale :: "string option \<Rightarrow> browser \<Rightarrow> string \<times> bool" where
  "resolveInitialLocale initialLocale br =
     (if given initialLocale then (the initialLocale, True)
      else (case readStoredLocale br of
              Some stored \<Rightarrow> (stored, True)
            | None \<Rightarrow>
                (case detectBrowserLocale br catalog_codes of
                   Some detected \<Rightarrow> (detected, True)
                 | None \<Rightarrow> (defaultLocale, False))))"

section \<open>The provider\<close>

record i18n =
  in_locale :: string
  in_pinned :: bool
  in_browser :: browser

definition i18n_mount :: "string option \<Rightarrow> browser \<Rightarrow> i18n" where
  "i18n_mount initialLocale br =
     (let (l, pinned) = resolveInitialLocale initialLocale br
      in \<lparr>in_locale = l, in_pinned = pinned, in_browser = br\<rparr>)"

definition setLocale :: "string \<Rightarrow> i18n \<Rightarrow> i18n" where
  "setLocale code s =
     s\<lparr>in_pinned := True, in_browser := writeStoredLocale code (in_browser s), in_locale := code\<rparr>"

definition syncServerLocale :: "string option \<Rightarrow> i18n \<Rightarrow> i18n" where
  "syncServerLocale code s =
     (if in_pinned s \<or> \<not> given code then s else s\<lparr>in_locale := the code\<rparr>)"

section \<open>Translation\<close>

text \<open>
  The replacement of \<open>String.replaceAll\<close> is a template: \<^verbatim>\<open>$$\<close> is a dollar, \<^verbatim>\<open>$&\<close> the
  match, and \<^verbatim>\<open>$`\<close> and \<^verbatim>\<open>$'\<close> what precedes and follows it.  The pattern is a string,
  so there are no groups.
\<close>

fun expand_replacement :: "string \<Rightarrow> string \<Rightarrow> string \<Rightarrow> string \<Rightarrow> string" where
  "expand_replacement before matched after [] = []"
| "expand_replacement before matched after [c] = [c]"
| "expand_replacement before matched after (c # d # rep) =
     (if c = CHR ''$'' \<and> d = CHR ''$'' then CHR ''$'' # expand_replacement before matched after rep
      else if c = CHR ''$'' \<and> d = CHR ''&'' then matched @ expand_replacement before matched after rep
      else if c = CHR ''$'' \<and> d = CHR 0x60 then before @ expand_replacement before matched after rep
      else if c = CHR ''$'' \<and> d = CHR 0x27 then after @ expand_replacement before matched after rep
      else c # expand_replacement before matched after (d # rep))"

fun replaceAll_from :: "string \<Rightarrow> string \<Rightarrow> string \<Rightarrow> string \<Rightarrow> string" where
  "replaceAll_from before pat rep [] = []"
| "replaceAll_from before pat rep (c # s) =
     (if pat \<noteq> [] \<and> starts_with pat (c # s)
      then (let after = drop (length pat - 1) s in
            expand_replacement before pat after rep @ replaceAll_from (before @ pat) pat rep after)
      else c # replaceAll_from (before @ [c]) pat rep s)"

definition replaceAll :: "string \<Rightarrow> string \<Rightarrow> string \<Rightarrow> string" where
  "replaceAll msg pat rep = replaceAll_from [] pat rep msg"

definition placeholder :: "string \<Rightarrow> string" where
  "placeholder k = ''{'' @ k @ ''}''"

definition interpolate :: "json obj \<Rightarrow> string \<Rightarrow> string" where
  "interpolate params msg = fold (\<lambda>(k, v) m. replaceAll m (placeholder k) (js_string v)) params msg"

definition translate :: "(string \<rightharpoonup> catalog) \<Rightarrow> string \<Rightarrow> string \<Rightarrow> json obj \<Rightarrow> string" where
  "translate catalogs locale key params =
     (let catalog = or_else (catalogs locale) (catalogs defaultLocale);
          msg = (case catalog of None \<Rightarrow> None | Some c \<Rightarrow> obj_get c key);
          msg' = (case msg of
                    Some m \<Rightarrow> m
                  | None \<Rightarrow>
                      (case catalogs defaultLocale of
                         None \<Rightarrow> key
                       | Some c \<Rightarrow> (case obj_get c key of None \<Rightarrow> key | Some m \<Rightarrow> m)))
      in interpolate params msg')"

definition i18n_t :: "(string \<rightharpoonup> catalog) \<Rightarrow> i18n \<Rightarrow> string \<Rightarrow> json obj \<Rightarrow> string" where
  "i18n_t catalogs s key params = translate catalogs (in_locale s) key params"

definition translateIn :: "(string \<rightharpoonup> catalog) \<Rightarrow> string \<Rightarrow> string \<Rightarrow> json obj \<Rightarrow> string" where
  "translateIn catalogs locale key params = translate catalogs locale key params"

section \<open>Lemmas on matching\<close>

lemma or_else_simps [simp]:
  "or_else (Some x) b = Some x"
  "or_else None b = b"
  by (simp_all add: or_else_def)

lemma or_else_eq_None [simp]: "or_else a b = None \<longleftrightarrow> a = None \<and> b = None"
  by (cases a) auto

lemma or_else_eq_Some: "or_else a b = Some x \<longleftrightarrow> a = Some x \<or> (a = None \<and> b = Some x)"
  by (cases a) auto

lemma find_code_Some: "find_code P codes = Some c \<Longrightarrow> c \<in> set codes \<and> P (to_lower c)"
  by (auto simp: find_code_def find_Some_iff)

lemma find_code_None: "find_code P codes = None \<longleftrightarrow> (\<forall>c\<in>set codes. \<not> P (to_lower c))"
  by (simp add: find_code_def find_None_iff) blast

lemma first_hit_None: "first_hit f xs = None \<longleftrightarrow> (\<forall>x\<in>set xs. f x = None)"
  by (induction xs) (auto split: option.split)

lemma first_hit_Some: "first_hit f xs = Some y \<Longrightarrow> \<exists>x\<in>set xs. f x = Some y"
  by (induction xs) (auto split: option.splits)

lemma first_hit_cong: "(\<And>x. x \<in> set xs \<Longrightarrow> f x = g x) \<Longrightarrow> first_hit f xs = first_hit g xs"
  by (induction xs) (auto split: option.split)

text \<open>When at most one code satisfies the predicate, the order of the codes is irrelevant.\<close>

lemma find_code_order:
  assumes "set xs = set ys"
    and "\<And>c d. c \<in> set xs \<Longrightarrow> d \<in> set xs \<Longrightarrow> P (to_lower c) \<Longrightarrow> P (to_lower d) \<Longrightarrow> c = d"
  shows "find_code P xs = find_code P ys"
proof (cases "find_code P xs")
  case None
  then have "find_code P ys = None" using assms(1) by (simp add: find_code_None)
  then show ?thesis using None by simp
next
  case (Some c)
  then have c: "c \<in> set xs" "P (to_lower c)" using find_code_Some by blast+
  then have "find_code P ys \<noteq> None" using assms(1) by (auto simp: find_code_None)
  then obtain d where d: "find_code P ys = Some d" by blast
  then have "d \<in> set xs" "P (to_lower d)" using find_code_Some assms(1) by blast+
  then show ?thesis using Some d c assms(2) by metis
qed

text \<open>Lower case, letter by letter, and of the codes.\<close>

lemma lower_letters:
  "to_lower_char CHR ''A'' = CHR ''a''" "to_lower_char CHR ''B'' = CHR ''b''" "to_lower_char CHR ''C'' = CHR ''c''"
  "to_lower_char CHR ''D'' = CHR ''d''" "to_lower_char CHR ''E'' = CHR ''e''" "to_lower_char CHR ''F'' = CHR ''f''"
  "to_lower_char CHR ''G'' = CHR ''g''" "to_lower_char CHR ''H'' = CHR ''h''" "to_lower_char CHR ''I'' = CHR ''i''"
  "to_lower_char CHR ''J'' = CHR ''j''" "to_lower_char CHR ''K'' = CHR ''k''" "to_lower_char CHR ''L'' = CHR ''l''"
  "to_lower_char CHR ''M'' = CHR ''m''" "to_lower_char CHR ''N'' = CHR ''n''" "to_lower_char CHR ''O'' = CHR ''o''"
  "to_lower_char CHR ''P'' = CHR ''p''" "to_lower_char CHR ''Q'' = CHR ''q''" "to_lower_char CHR ''R'' = CHR ''r''"
  "to_lower_char CHR ''S'' = CHR ''s''" "to_lower_char CHR ''T'' = CHR ''t''" "to_lower_char CHR ''U'' = CHR ''u''"
  "to_lower_char CHR ''V'' = CHR ''v''" "to_lower_char CHR ''W'' = CHR ''w''" "to_lower_char CHR ''X'' = CHR ''x''"
  "to_lower_char CHR ''Y'' = CHR ''y''" "to_lower_char CHR ''Z'' = CHR ''z''" "to_lower_char CHR ''a'' = CHR ''a''"
  "to_lower_char CHR ''b'' = CHR ''b''" "to_lower_char CHR ''c'' = CHR ''c''" "to_lower_char CHR ''d'' = CHR ''d''"
  "to_lower_char CHR ''e'' = CHR ''e''" "to_lower_char CHR ''f'' = CHR ''f''" "to_lower_char CHR ''g'' = CHR ''g''"
  "to_lower_char CHR ''h'' = CHR ''h''" "to_lower_char CHR ''i'' = CHR ''i''" "to_lower_char CHR ''j'' = CHR ''j''"
  "to_lower_char CHR ''k'' = CHR ''k''" "to_lower_char CHR ''l'' = CHR ''l''" "to_lower_char CHR ''m'' = CHR ''m''"
  "to_lower_char CHR ''n'' = CHR ''n''" "to_lower_char CHR ''o'' = CHR ''o''" "to_lower_char CHR ''p'' = CHR ''p''"
  "to_lower_char CHR ''q'' = CHR ''q''" "to_lower_char CHR ''r'' = CHR ''r''" "to_lower_char CHR ''s'' = CHR ''s''"
  "to_lower_char CHR ''t'' = CHR ''t''" "to_lower_char CHR ''u'' = CHR ''u''" "to_lower_char CHR ''v'' = CHR ''v''"
  "to_lower_char CHR ''w'' = CHR ''w''" "to_lower_char CHR ''x'' = CHR ''x''" "to_lower_char CHR ''y'' = CHR ''y''"
  "to_lower_char CHR ''z'' = CHR ''z''" "to_lower_char CHR ''-'' = CHR ''-''"
  by code_simp+

lemma lower_codes:
  "map to_lower catalog_codes =
     [''en-us'', ''ar-ae'', ''ar-eg'', ''ar-sa'', ''bn-bd'', ''bn-in'', ''cs-cz'', ''da-dk'', ''de-at'', ''de-ch'',
      ''de-de'', ''en-au'', ''en-ca'', ''en-gb'', ''en-in'', ''en-nz'', ''en-za'', ''es-ar'', ''es-es'', ''es-mx'',
      ''fi-fi'', ''fr-be'', ''fr-ca'', ''fr-ch'', ''fr-fr'', ''hi-in'', ''hr-hr'', ''hu-hu'', ''it-it'', ''ja-jp'',
      ''ko-kr'', ''nl-be'', ''nl-nl'', ''pl-pl'', ''pt-br'', ''pt-pt'', ''ro-ro'', ''ru-ru'', ''sa-in'', ''sk-sk'',
      ''sl-si'', ''sv-se'', ''th-th'', ''tr-tr'', ''uk-ua'', ''vi-vn'', ''zh-cn'', ''zh-tw'']"
  by (simp add: catalog_codes_def to_lower_def lower_letters)

lemma lower_codes_distinct: "distinct (map to_lower catalog_codes)"
  unfolding lower_codes by simp

lemma lower_codes_inj: "c \<in> set catalog_codes \<Longrightarrow> d \<in> set catalog_codes \<Longrightarrow> to_lower c = to_lower d \<Longrightarrow> c = d"
  using lower_codes_distinct by (auto simp: distinct_map dest: inj_onD)

text \<open>The languages without a named default have one catalog each.\<close>

lemma single_catalogs:
  "distinct (map (\<lambda>c. primary (to_lower c))
     (filter (\<lambda>c. primary (to_lower c) \<noteq> ''zh'' \<and> languageDefaults (primary (to_lower c)) = None) catalog_codes))"
proof -
  have "distinct (map primary (filter (\<lambda>l. primary l \<noteq> ''zh'' \<and> languageDefaults (primary l) = None) (map to_lower catalog_codes)))"
    unfolding lower_codes by code_simp
  then show ?thesis by (simp add: filter_map comp_def)
qed

lemma single_catalog:
  assumes "c \<in> set catalog_codes" "d \<in> set catalog_codes"
    and "primary (to_lower c) = b" "primary (to_lower d) = b" "b \<noteq> ''zh''" "languageDefaults b = None"
  shows "c = d"
  using single_catalogs assms
  by (auto simp: distinct_map dest!: inj_onD [where x = c and y = d])

lemma defaults_shipped:
  "list_all (\<lambda>(b, c). c \<in> set catalog_codes)
     [(''ar'', ''ar-SA''), (''bn'', ''bn-BD''), (''de'', ''de-DE''), (''en'', ''en-US''),
      (''es'', ''es-ES''), (''fr'', ''fr-FR''), (''nl'', ''nl-NL''), (''pt'', ''pt-BR'')]"
  by code_simp

lemma preferredFallback_shipped:
  assumes "preferredFallback p = Some f"
  shows "f \<in> set catalog_codes \<and> f \<noteq> [] \<and> primary (to_lower f) = primary p"
proof -
  have "(primary p, f) \<in> set [(''es'', ''es-MX''), (''pt'', ''pt-PT''), (''en'', ''en-GB''),
      (''ar'', ''ar-SA''), (''bn'', ''bn-BD''), (''de'', ''de-DE''), (''en'', ''en-US''),
      (''es'', ''es-ES''), (''fr'', ''fr-FR''), (''nl'', ''nl-NL''), (''pt'', ''pt-BR'')]"
    using assms
    by (auto simp: preferredFallback_def regionDefaults_def languageDefaults_def primary_def Let_def
        split: if_splits option.splits list.splits)
  moreover have "list_all (\<lambda>(b, c). c \<in> set catalog_codes \<and> c \<noteq> [] \<and> primary (to_lower c) = b)
     [(''es'', ''es-MX''), (''pt'', ''pt-PT''), (''en'', ''en-GB''),
      (''ar'', ''ar-SA''), (''bn'', ''bn-BD''), (''de'', ''de-DE''), (''en'', ''en-US''),
      (''es'', ''es-ES''), (''fr'', ''fr-FR''), (''nl'', ''nl-NL''), (''pt'', ''pt-BR'')]"
    by code_simp
  ultimately show ?thesis unfolding list_all_iff by fast
qed

lemma preferredFallback_default: "languageDefaults (primary p) \<noteq> None \<Longrightarrow> preferredFallback p \<noteq> None"
  by (auto simp: preferredFallback_def primary_def Let_def split: option.split)

lemma zh_codes: "find_code (\<lambda>l. l = ''zh-tw'') catalog_codes = Some ''zh-TW''"
  "find_code (\<lambda>l. l = ''zh-cn'') catalog_codes = Some ''zh-CN''"
  by (simp_all add: find_code_def catalog_codes_def to_lower_def lower_letters)

lemma find_exact_order:
  "set codes = set catalog_codes \<Longrightarrow>
    find_code (\<lambda>l. l = p) codes = find_code (\<lambda>l. l = p) catalog_codes"
  by (rule find_code_order) (auto intro: lower_codes_inj)

lemma find_exact_shipped:
  "f \<in> set catalog_codes \<Longrightarrow> find_code (\<lambda>l. l = to_lower f) catalog_codes = Some f"
  using lower_codes_inj find_code_Some
  by (metis (mono_tags, lifting) find_code_None not_None_eq)

lemma subtag_match_shipped:
  "set codes = set catalog_codes \<Longrightarrow> subtag_match codes p =
    (if primary p = ''zh'' then Some (if traditional p then ''zh-TW'' else ''zh-CN'')
     else case preferredFallback p of
        Some f \<Rightarrow> Some f
      | None \<Rightarrow> find_code (\<lambda>l. primary l = primary p) catalog_codes)"
proof -
  assume codes: "set codes = set catalog_codes"
  have one: "find_code (\<lambda>l. primary l = primary p) codes = find_code (\<lambda>l. primary l = primary p) catalog_codes"
    if "primary p \<noteq> ''zh''" "preferredFallback p = None"
  proof (rule find_code_order [OF codes])
    have "languageDefaults (primary p) = None" using that(2) preferredFallback_default by blast
    then show "c = d" if "c \<in> set codes" "d \<in> set codes" "primary (to_lower c) = primary p"
      "primary (to_lower d) = primary p" for c d
      using that \<open>primary p \<noteq> ''zh''\<close> codes by (intro single_catalog [of c d "primary p"]) auto
  qed
  show ?thesis
    using one preferredFallback_shipped [of p]
    by (auto simp: subtag_match_def Let_def find_exact_order [OF codes] zh_codes find_exact_shipped
        split: option.split)
qed

section \<open>Lemmas on interpolation\<close>

lemma expand_plain: "CHR ''$'' \<notin> set rep \<Longrightarrow> expand_replacement b m a rep = rep"
  by (induction b m a rep rule: expand_replacement.induct) auto

lemma replaceAll_from_plain: "CHR ''$'' \<notin> set rep \<Longrightarrow> replaceAll_from b pat rep s = replace_all pat rep s"
  by (induction b pat rep s rule: replaceAll_from.induct) (auto simp: expand_plain Let_def)

lemma replaceAll_plain: "CHR ''$'' \<notin> set rep \<Longrightarrow> replaceAll msg pat rep = replace_all pat rep msg"
  by (simp add: replaceAll_def replaceAll_from_plain)

text \<open>A message read as a template: literal text and holes.\<close>

datatype piece = Lit string | Hole string

definition piece_text :: "piece \<Rightarrow> string" where
  "piece_text p = (case p of Lit l \<Rightarrow> l | Hole k \<Rightarrow> placeholder k)"

definition piece_ok :: "piece \<Rightarrow> bool" where
  "piece_ok p \<longleftrightarrow> (case p of Lit l \<Rightarrow> CHR ''{'' \<notin> set l
     | Hole k \<Rightarrow> CHR ''{'' \<notin> set k \<and> CHR ''}'' \<notin> set k)"

definition fill :: "string \<Rightarrow> string \<Rightarrow> piece \<Rightarrow> piece" where
  "fill k v p = (case p of Lit l \<Rightarrow> Lit l | Hole j \<Rightarrow> if j = k then Lit v else Hole j)"

definition fill_all :: "json obj \<Rightarrow> piece \<Rightarrow> piece" where
  "fill_all params p = (case p of Lit l \<Rightarrow> Lit l
     | Hole j \<Rightarrow> (case map_of params j of Some v \<Rightarrow> Lit (js_string v) | None \<Rightarrow> Hole j))"

lemma piece_simps [simp]:
  "piece_text (Lit l) = l" "piece_text (Hole j) = placeholder j"
  "fill k v (Lit l) = Lit l" "fill k v (Hole j) = (if j = k then Lit v else Hole j)"
  by (simp_all add: piece_text_def fill_def)

lemma replace_all_skip:
  "pat \<noteq> [] \<Longrightarrow> hd pat \<notin> set l \<Longrightarrow> replace_all pat v (l @ s) = l @ replace_all pat v s"
  by (induction l) (auto simp: starts_with_iff Cons_eq_append_conv)

lemma placeholder_prefix:
  assumes "CHR ''}'' \<notin> set j" "CHR ''}'' \<notin> set k"
  shows "starts_with (placeholder k) (placeholder j @ s) \<longleftrightarrow> j = k"
proof
  assume "starts_with (placeholder k) (placeholder j @ s)"
  then obtain t where "k @ ''}'' @ t = j @ ''}'' @ s"
    by (auto simp: starts_with_iff placeholder_def)
  then have "takeWhile (\<lambda>c. c \<noteq> CHR ''}'') (k @ ''}'' @ t) = takeWhile (\<lambda>c. c \<noteq> CHR ''}'') (j @ ''}'' @ s)"
    by simp
  moreover have "takeWhile (\<lambda>c. c \<noteq> CHR ''}'') (x @ ''}'' @ y) = x" if "CHR ''}'' \<notin> set x" for x y
    using that by (subst takeWhile_append2) auto
  ultimately show "j = k" using assms by simp
qed (simp add: starts_with_iff placeholder_def)

lemma replace_all_hit:
  "pat \<noteq> [] \<Longrightarrow> replace_all pat v (pat @ s) = v @ replace_all pat v s"
  by (cases pat) (auto simp: starts_with_iff)

lemma replace_all_miss:
  "\<not> starts_with pat (c # s) \<Longrightarrow> replace_all pat v (c # s) = c # replace_all pat v s"
  by simp

lemma replace_all_pieces:
  assumes "CHR ''{'' \<notin> set k" "CHR ''}'' \<notin> set k"
  shows "list_all piece_ok ps \<Longrightarrow>
    replace_all (placeholder k) v (concat (map piece_text ps)) = concat (map (piece_text \<circ> fill k v) ps)"
proof (induction ps)
  case (Cons p ps)
  have ne: "placeholder k \<noteq> []" "hd (placeholder k) = CHR ''{''" by (simp_all add: placeholder_def)
  show ?case
  proof (cases p)
    case (Lit l)
    then show ?thesis
      using Cons ne by (simp add: piece_ok_def replace_all_skip)
  next
    case (Hole j)
    show ?thesis
    proof (cases "j = k")
      case True
      then show ?thesis
        using Cons Hole ne by (simp add: replace_all_hit)
    next
      case False
      let ?rest = "concat (map piece_text ps)"
      have "\<not> starts_with (placeholder k) (placeholder j @ ?rest)"
        using placeholder_prefix [of j k] Cons.prems Hole assms False by (simp add: piece_ok_def)
      then have "replace_all (placeholder k) v (placeholder j @ ?rest)
        = CHR ''{'' # replace_all (placeholder k) v ((j @ ''}'') @ ?rest)"
        by (simp add: placeholder_def)
      also have "\<dots> = CHR ''{'' # (j @ ''}'') @ replace_all (placeholder k) v ?rest"
        using Cons.prems Hole ne by (subst replace_all_skip) (auto simp: piece_ok_def)
      also have "\<dots> = placeholder j @ replace_all (placeholder k) v ?rest"
        by (simp add: placeholder_def)
      finally have "replace_all (placeholder k) v (placeholder j @ ?rest)
        = placeholder j @ replace_all (placeholder k) v ?rest" .
      then show ?thesis
        using Cons Hole False by simp
    qed
  qed
qed simp

lemma fill_ok: "CHR ''{'' \<notin> set v \<Longrightarrow> piece_ok p \<Longrightarrow> piece_ok (fill k v p)"
  by (auto simp: fill_def piece_ok_def split: piece.splits)

lemma fill_all_Cons: "fill_all ((k, v) # params) p = fill_all params (fill k (js_string v) p)"
  by (auto simp: fill_all_def fill_def split: piece.split)

lemma interpolate_pieces:
  "list_all piece_ok ps \<Longrightarrow>
    list_all (\<lambda>(k, v). CHR ''{'' \<notin> set k \<and> CHR ''}'' \<notin> set k \<and>
      CHR ''$'' \<notin> set (js_string v) \<and> CHR ''{'' \<notin> set (js_string v)) params \<Longrightarrow>
    interpolate params (concat (map piece_text ps)) = concat (map (piece_text \<circ> fill_all params) ps)"
proof (induction params arbitrary: ps)
  case Nil
  have "fill_all [] = id" by (auto simp: fill_all_def split: piece.split)
  then show ?case by (simp add: interpolate_def)
next
  case (Cons kv params)
  obtain k v where kv: "kv = (k, v)" by force
  have "replaceAll (concat (map piece_text ps)) (placeholder k) (js_string v)
      = concat (map piece_text (map (fill k (js_string v)) ps))"
    using Cons.prems kv by (simp add: replaceAll_plain replace_all_pieces)
  moreover have "list_all piece_ok (map (fill k (js_string v)) ps)"
    using Cons.prems kv by (auto simp: list_all_iff intro: fill_ok)
  ultimately have "interpolate (kv # params) (concat (map piece_text ps))
      = concat (map (piece_text \<circ> fill_all params) (map (fill k (js_string v)) ps))"
    using Cons.IH [of "map (fill k (js_string v)) ps"] Cons.prems kv
    by (simp add: interpolate_def comp_def)
  then show ?case by (simp add: kv comp_def fill_all_Cons)
qed

section \<open>Properties\<close>

text \<open>An exact match wins: when a preference is the code of a catalog up to case,
  \<open>matchLocale\<close> answers with the catalog of the first such preference, whatever else
  the list offers.\<close>

theorem matchLocale_exact:
  assumes "prefs = before @ pref # after" "set codes = set catalog_codes"
    and "\<forall>p\<in>set before. to_lower p \<notin> to_lower ` set codes"
    and "c \<in> set codes" "to_lower pref = to_lower c"
  shows "matchLocale prefs codes = Some c"
proof -
  have hit: "find_code (\<lambda>l. l = to_lower c) codes = Some c"
    using assms(2,4) by (simp add: find_exact_order [OF assms(2)] find_exact_shipped)
  have "first_hit (\<lambda>p. find_code (\<lambda>l. l = to_lower p) codes) (bs @ pref # after) = Some c"
    if "\<forall>p\<in>set bs. to_lower p \<notin> to_lower ` set codes" for bs
    using that
  proof (induction bs)
    case Nil
    then show ?case using hit assms(5) by simp
  next
    case (Cons b bs)
    then have "find_code (\<lambda>l. l = to_lower b) codes = None" by (auto simp: find_code_None image_iff)
    then show ?case using Cons by simp
  qed
  from this [OF assms(3)] show ?thesis by (simp add: matchLocale_def assms(1))
qed

theorem matchLocale_exact_witness:
  "matchLocale [''de-LU'', ''PT-pt'', ''en-US''] catalog_codes = Some ''pt-PT''"
proof -
  have "to_lower ''de-LU'' \<notin> to_lower ` set catalog_codes" "''pt-PT'' \<in> set catalog_codes"
    "to_lower ''PT-pt'' = to_lower ''pt-PT''"
    by (simp_all add: catalog_codes_def to_lower_def lower_letters)
  then show ?thesis
    using matchLocale_exact [of "[''de-LU'', ''PT-pt'', ''en-US'']" "[''de-LU'']" "''PT-pt''" "[''en-US'']"
        catalog_codes "''pt-PT''"]
    by simp
qed

text \<open>The language is a decision and not a property of the import order: however the
  shipped catalogs are arranged, the same preferences choose the same one.\<close>

theorem matchLocale_order:
  assumes "mset codes = mset catalog_codes"
  shows "matchLocale prefs codes = matchLocale prefs catalog_codes"
proof -
  have codes: "set codes = set catalog_codes" using assms by (rule mset_eq_setD)
  have "first_hit (\<lambda>p. find_code (\<lambda>l. l = to_lower p) codes) prefs
      = first_hit (\<lambda>p. find_code (\<lambda>l. l = to_lower p) catalog_codes) prefs"
    by (simp add: find_exact_order [OF codes])
  moreover have "first_hit (\<lambda>p. subtag_match codes (to_lower p)) prefs
      = first_hit (\<lambda>p. subtag_match catalog_codes (to_lower p)) prefs"
    by (simp add: subtag_match_shipped [OF codes] subtag_match_shipped)
  ultimately show ?thesis by (simp add: matchLocale_def)
qed

theorem matchLocale_order_witness:
  "matchLocale [''es-CO'', ''de''] (rev catalog_codes) = Some ''es-MX''"
proof -
  have "matchLocale [''es-CO'', ''de''] catalog_codes = Some ''es-MX''" by code_simp
  then show ?thesis using matchLocale_order [of "rev catalog_codes" "[''es-CO'', ''de'']"] by simp
qed

text \<open>A match is always a shipped catalog in the language of one of the preferences, and
  there is no match only when no catalog shares a language with any of them.\<close>

theorem matchLocale_language:
  "case matchLocale prefs catalog_codes of
     Some c \<Rightarrow> c \<in> set catalog_codes \<and> (\<exists>p\<in>set prefs. primary (to_lower c) = primary (to_lower p))
   | None \<Rightarrow> \<not> (\<exists>p\<in>set prefs. \<exists>c\<in>set catalog_codes. primary (to_lower c) = primary (to_lower p))"
proof -
  have zh: "''zh-TW'' \<in> set catalog_codes" "''zh-CN'' \<in> set catalog_codes"
    "primary (to_lower ''zh-TW'') = ''zh''" "primary (to_lower ''zh-CN'') = ''zh''"
    by code_simp+
  have sub: "case subtag_match catalog_codes p of
      Some c \<Rightarrow> c \<in> set catalog_codes \<and> primary (to_lower c) = primary p
    | None \<Rightarrow> \<not> (\<exists>c\<in>set catalog_codes. primary (to_lower c) = primary p)" for p
    using preferredFallback_shipped [of p]
    by (auto simp: subtag_match_shipped zh find_code_None split: option.split dest: find_code_Some)
  show ?thesis
  proof (cases "matchLocale prefs catalog_codes")
    case None
    then have "\<forall>p\<in>set prefs. subtag_match catalog_codes (to_lower p) = None"
      by (simp add: matchLocale_def first_hit_None)
    then have "\<not> (\<exists>c\<in>set catalog_codes. primary (to_lower c) = primary (to_lower p))" if "p \<in> set prefs" for p
      using sub [of "to_lower p"] that by simp
    then show ?thesis using None by auto
  next
    case (Some c)
    then consider p where "p \<in> set prefs" "find_code (\<lambda>l. l = to_lower p) catalog_codes = Some c"
      | p where "p \<in> set prefs" "subtag_match catalog_codes (to_lower p) = Some c"
      by (auto simp: matchLocale_def or_else_eq_Some dest!: first_hit_Some)
    then show ?thesis
    proof cases
      case 1
      then show ?thesis using Some find_code_Some by fastforce
    next
      case 2
      then show ?thesis using Some sub [of "to_lower p"] by auto
    qed
  qed
qed

lemma sync_pinned: "in_pinned s \<Longrightarrow> fold syncServerLocale codes s = s"
  by (induction codes) (simp_all add: syncServerLocale_def)

lemma codes_nonempty: "c \<in> set catalog_codes \<Longrightarrow> c \<noteq> []"
proof -
  have "[] \<notin> set catalog_codes" by code_simp
  then show "c \<in> set catalog_codes \<Longrightarrow> c \<noteq> []" by blast
qed

text \<open>A language chosen in the settings is not undone: no later server setting replaces
  it, and the next load in this browser starts with it, pinned, whatever the browser's
  own languages are.\<close>

theorem locale_choice_kept:
  assumes "c \<in> set catalog_codes" "br_storage (in_browser s) \<noteq> None"
  shows "let s' = fold syncServerLocale server (setLocale c s);
      next = i18n_mount None ((in_browser s')\<lparr>br_navigator := nav\<rparr>)
    in in_locale s' = c \<and> in_locale (fold syncServerLocale server' next) = c \<and> in_pinned next"
proof -
  let ?s = "setLocale c s"
  have s: "fold syncServerLocale server ?s = ?s" by (rule sync_pinned) (simp add: setLocale_def)
  have stored: "readStoredLocale ((in_browser ?s)\<lparr>br_navigator := nav\<rparr>) = Some c"
    using assms codes_nonempty
    by (auto simp: readStoredLocale_def setLocale_def writeStoredLocale_def)
  let ?n = "i18n_mount None ((in_browser ?s)\<lparr>br_navigator := nav\<rparr>)"
  have n: "in_locale ?n = c" "in_pinned ?n"
    using stored by (simp_all add: i18n_mount_def resolveInitialLocale_def given_def)
  show ?thesis
    unfolding s Let_def using n sync_pinned [of ?n server'] by (simp add: setLocale_def)
qed

definition german_browser :: browser where
  "german_browser = \<lparr>br_navigator = Some \<lparr>nav_languages = [''de-LU'', ''fr''], nav_language = None\<rparr>,
     br_storage = Some Map.empty\<rparr>"

theorem locale_choice_kept_witness:
  "in_locale (fold syncServerLocale [Some ''fr-FR''] (setLocale ''nl-BE'' (i18n_mount None german_browser))) = ''nl-BE''"
proof -
  have "''nl-BE'' \<in> set catalog_codes" by code_simp
  moreover have "br_storage (in_browser (i18n_mount None german_browser)) \<noteq> None"
    by (simp add: i18n_mount_def german_browser_def split: prod.split)
  ultimately show ?thesis
    using locale_choice_kept [of "''nl-BE''" "i18n_mount None german_browser" "[Some ''fr-FR'']" None "[]"]
    by (simp add: Let_def)
qed

text \<open>A message is filled in completely and only where it has holes: read as literal text
  and \<^verbatim>\<open>{name}\<close> holes, its translation is the text with every hole whose name is a
  parameter replaced by that parameter's string, in any order of the parameters, when
  the values hold no brace and no dollar.\<close>

theorem translate_fills:
  assumes "catalogs locale = Some c" "obj_get c key = Some (concat (map piece_text ps))"
    and "list_all piece_ok ps"
    and "list_all (\<lambda>(k, v). CHR ''{'' \<notin> set k \<and> CHR ''}'' \<notin> set k \<and>
      CHR ''$'' \<notin> set (js_string v) \<and> CHR ''{'' \<notin> set (js_string v)) params"
  shows "translate catalogs locale key params = concat (map (piece_text \<circ> fill_all params) ps)"
  using interpolate_pieces [OF assms(3,4)] assms(1,2) by (simp add: translate_def)

theorem translate_fills_witness:
  "translate [''de-DE'' \<mapsto> [(''boot.label.reconnecting'', ''Neu in {seconds} s'')]] ''de-DE''
     ''boot.label.reconnecting'' [(''seconds'', JNum 4)] = ''Neu in 4 s''"
proof -
  have "piece_ok (Lit ''Neu in '')" "piece_ok (Hole ''seconds'')" "piece_ok (Lit '' s'')"
    "js_string (JNum 4) = ''4''"
    by code_simp+
  then show ?thesis
    using translate_fills [of "[''de-DE'' \<mapsto> [(''boot.label.reconnecting'', ''Neu in {seconds} s'')]]" "''de-DE''"
        "[(''boot.label.reconnecting'', ''Neu in {seconds} s'')]" "''boot.label.reconnecting''"
        "[Lit ''Neu in '', Hole ''seconds'', Lit '' s'']" "[(''seconds'', JNum 4)]"]
    by (simp add: obj_get_def placeholder_def fill_all_def)
qed

text \<open>A value that holds dollars is not inserted as it is: \<open>String.replaceAll\<close> reads it
  as a replacement template, so two dollars show as one.\<close>

theorem translate_dollar:
  assumes "catalogs locale = Some c" "obj_get c key = Some (placeholder k)"
  shows "translate catalogs locale key [(k, JStr ''$$'')] = ''$''"
proof -
  have "replaceAll (placeholder k) (placeholder k) ''$$'' = ''$''"
    using starts_with_iff [of "placeholder k" "placeholder k"]
    by (simp add: replaceAll_def placeholder_def starts_with_iff)
  then show ?thesis using assms by (simp add: translate_def interpolate_def js_string.simps)
qed

theorem translate_dollar_witness:
  "translate [''en-US'' \<mapsto> [(''k'', ''{v}'')]] ''en-US'' ''k'' [(''v'', JStr ''$$'')] = ''$''"
  using translate_dollar [of "[''en-US'' \<mapsto> [(''k'', ''{v}'')]]" "''en-US''" "[(''k'', ''{v}'')]" "''k''" "''v''"]
  by (simp add: obj_get_def placeholder_def)

text \<open>A country catalog is its language plus its departures: every string comes from the
  overrides where they have it and from the base otherwise, and it has exactly the keys
  of the base as long as the overrides invent none.\<close>

theorem derive_inherits:
  assumes "distinct (obj_keys overrides)"
  shows "obj_get (derive base overrides) key = or_else (obj_get overrides key) (obj_get base key) \<and>
    set (obj_keys (derive base overrides)) = set (obj_keys base) \<union> set (obj_keys overrides)"
proof -
  have "fst ` set (obj_spread base overrides) = fst ` set base \<union> fst ` set overrides"
    by (induction overrides arbitrary: base) auto
  then show ?thesis
    using assms
    by (auto simp: derive_def obj_get_def obj_keys_def map_of_obj_spread map_add_def or_else_def
        split: option.splits)
qed

theorem derive_inherits_witness:
  "obj_get (derive [(''a'', ''1''), (''b'', ''2'')] [(''b'', ''3'')]) ''b'' = Some ''3''"
  using derive_inherits [of "[(''b'', ''3'')]" "[(''a'', ''1''), (''b'', ''2'')]" "''b''"]
  by (simp add: obj_keys_def obj_get_def)

end
