(* ===== verification/ChartData.thy ===== *)
theory ChartData
  imports Complex_Main Monitoring I18n QueryString
begin

text \<open>
  What the monitoring charts draw: \<^verbatim>\<open>components/monitoring/UPlotChart.jsx\<close>, which asks Prometheus
  for the queries of a panel, names the series, aligns their samples on one time axis and
  keeps the chart in step with the answers; and the panels of the three dashboards
  (\<^verbatim>\<open>MonitoringCharts.jsx\<close>, \<^verbatim>\<open>DNSCharts.jsx\<close>, \<^verbatim>\<open>ControllerCharts.jsx\<close>).  The drawing itself is the
  library uPlot.
\<close>

section \<open>The texts of values\<close>

text \<open>
  A sample is not a number or a finite one; the arithmetic is exact.  \<open>toFixed\<close> rounds to the
  nearest decimal, a tie away from zero, and keeps the sign.
\<close>

datatype sample = NaN | Fin rat

definition toFixed :: "nat \<Rightarrow> rat \<Rightarrow> string" where
  "toFixed digits x =
     (let n = nat \<lfloor>\<bar>x\<bar> * 10 ^ digits + 1 / 2\<rfloor>
      in (if x < 0 then ''-'' else []) @ (if digits = 0 then nat_str n else frac_str (int n) digits))"

definition fixed :: "nat \<Rightarrow> rat \<Rightarrow> sample \<Rightarrow> string" where
  "fixed digits d v = (case v of NaN \<Rightarrow> ''NaN'' | Fin x \<Rightarrow> toFixed digits (x / d))"

definition at_least :: "sample \<Rightarrow> rat \<Rightarrow> bool" where
  "at_least v bound = (case v of NaN \<Rightarrow> False | Fin x \<Rightarrow> \<bar>x\<bar> \<ge> bound)"

definition formatBytes_value :: "sample option \<Rightarrow> string" where
  "formatBytes_value v =
     (case v of
        None \<Rightarrow> []
      | Some x \<Rightarrow>
          if at_least x (10 ^ 12) then fixed 1 (10 ^ 12) x @ '' TB''
          else if at_least x (10 ^ 9) then fixed 1 (10 ^ 9) x @ '' GB''
          else if at_least x (10 ^ 6) then fixed 1 (10 ^ 6) x @ '' MB''
          else if at_least x (10 ^ 3) then fixed 1 (10 ^ 3) x @ '' KB''
          else fixed 0 1 x @ '' B'')"

definition formatBps :: "sample option \<Rightarrow> string" where
  "formatBps v =
     (case v of
        None \<Rightarrow> []
      | Some x \<Rightarrow>
          if at_least x (10 ^ 9) then fixed 1 (10 ^ 9) x @ '' Gbps''
          else if at_least x (10 ^ 6) then fixed 1 (10 ^ 6) x @ '' Mbps''
          else if at_least x (10 ^ 3) then fixed 1 (10 ^ 3) x @ '' Kbps''
          else fixed 0 1 x @ '' bps'')"

definition formatBytesPerSec :: "sample option \<Rightarrow> string" where
  "formatBytesPerSec v = (case v of None \<Rightarrow> [] | Some x \<Rightarrow> formatBytes_value v @ ''/s'')"

definition formatPercent :: "sample option \<Rightarrow> string" where
  "formatPercent v = (case v of None \<Rightarrow> [] | Some x \<Rightarrow> fixed 1 1 x @ ''%'')"

definition formatRate :: "sample option \<Rightarrow> string" where
  "formatRate v =
     (case v of
        None \<Rightarrow> []
      | Some x \<Rightarrow>
          if at_least x 1000 then fixed 1 1000 x @ ''k/s''
          else if at_least x 100 then fixed 0 1 x @ ''/s''
          else if at_least x 1 then fixed 1 1 x @ ''/s''
          else fixed 2 1 x @ ''/s'')"

text \<open>The micro sign is U+00B5.\<close>

definition formatSeconds :: "sample option \<Rightarrow> string" where
  "formatSeconds v =
     (case v of
        None \<Rightarrow> []
      | Some NaN \<Rightarrow> []
      | Some (Fin x) \<Rightarrow>
          if \<bar>x\<bar> \<ge> 1 then toFixed 2 x @ '' s''
          else if \<bar>x\<bar> \<ge> 1 / 1000 then toFixed 1 (x * 1000) @ '' ms''
          else if \<bar>x\<bar> > 0 then toFixed 0 (x * 1000000) @ '' '' @ [CHR 0xC2, CHR 0xB5] @ ''s''
          else ''0'')"

definition formatShort :: "sample option \<Rightarrow> string" where
  "formatShort v =
     (case v of
        None \<Rightarrow> []
      | Some x \<Rightarrow>
          if at_least x (10 ^ 9) then fixed 1 (10 ^ 9) x @ ''B''
          else if at_least x (10 ^ 6) then fixed 1 (10 ^ 6) x @ ''M''
          else if at_least x (10 ^ 3) then fixed 1 (10 ^ 3) x @ ''k''
          else fixed 0 1 x)"

definition getValueFormatter :: "string \<Rightarrow> sample option \<Rightarrow> string" where
  "getValueFormatter unit =
     (if unit = ''bytes'' then formatBytes_value
      else if unit = ''Bps'' then formatBytesPerSec
      else if unit = ''bps'' then formatBps
      else if unit = ''percent'' then formatPercent
      else if unit = ''reqps'' then formatRate
      else if unit = ''s'' then formatSeconds
      else if unit = ''short'' then formatShort
      else (\<lambda>v. case v of None \<Rightarrow> [] | Some x \<Rightarrow> fixed 2 1 x))"

section \<open>Asking Prometheus\<close>

text \<open>\<open>url_parts\<close> is the \<open>URL\<close> of the browser: protocol and host name, or \<open>None\<close> if it throws.\<close>

definition getMonitoringBaseURL :: "(string \<Rightarrow> (string \<times> string) option) \<Rightarrow> location \<Rightarrow> string" where
  "getMonitoringBaseURL url_parts loc =
     (let own = loc_protocol loc @ ''//'' @ loc_hostname loc @ '':5308'' in
      case loc_vite_api_url loc of
        None \<Rightarrow> own
      | Some url \<Rightarrow>
          if url = [] then own
          else (case url_parts url of
                  Some (protocol, hostname) \<Rightarrow> protocol @ ''//'' @ hostname @ '':5308''
                | None \<Rightarrow> own))"

text \<open>Times are in whole seconds: \<open>start\<close> and \<open>end\<close> are rounded.\<close>

definition range_params :: "string \<Rightarrow> int \<Rightarrow> int \<Rightarrow> int \<Rightarrow> search_params" where
  "range_params expr start stop step =
     [(''query'', expr), (''start'', int_str start), (''end'', int_str stop), (''step'', int_str step @ ''s'')]"

definition range_request :: "string \<Rightarrow> string \<Rightarrow> int \<Rightarrow> int \<Rightarrow> int \<Rightarrow> request" where
  "range_request base expr start stop step =
     \<lparr>rq_method = ''GET'', rq_url = base @ ''/api/v1/query_range?'' @ params_string (range_params expr start stop step),
      rq_headers = [], rq_body = NoBody\<rparr>"

definition queryPrometheus :: "'w net \<Rightarrow> string \<Rightarrow> string \<Rightarrow> int \<Rightarrow> int \<Rightarrow> int \<Rightarrow> ('w, js_error, json) eff" where
  "queryPrometheus net base expr start stop step =
     eff_bind (net (range_request base expr start stop step)) (\<lambda>resp.
       eff_lift (if rs_ok resp then response_json resp
                 else Inl (PlainErr (''Prometheus query failed: '' @ int_str (rs_status resp)))))"

definition range_step :: "int \<Rightarrow> int" where
  "range_step rangeSeconds = max 15 (rangeSeconds div 200)"

section \<open>Naming the series\<close>

text \<open>\<open>replace\<close> with a string replaces the first match; the replacement is a template.\<close>

fun replace_first_from :: "string \<Rightarrow> string \<Rightarrow> string \<Rightarrow> string \<Rightarrow> string" where
  "replace_first_from before pat rep [] = []"
| "replace_first_from before pat rep (c # s) =
     (if pat \<noteq> [] \<and> starts_with pat (c # s)
      then let after = drop (length pat - 1) s in expand_replacement before pat after rep @ after
      else c # replace_first_from (before @ [c]) pat rep s)"

definition template_var :: "string \<Rightarrow> string" where
  "template_var k = ''{{'' @ k @ ''}}''"

definition replace_var :: "string \<times> string \<Rightarrow> string \<Rightarrow> string" where
  "replace_var kv label = replace_first_from [] (template_var (fst kv)) (snd kv) label"

text \<open>\<open>label.replace(/\{\{[^}]+\}\}/g, '')\<close>\<close>

definition unresolved_at :: "string \<Rightarrow> string option" where
  "unresolved_at s =
     (if \<not> starts_with ''{{'' s then None
      else let name = takeWhile (\<lambda>c. c \<noteq> CHR ''}'') (drop 2 s); r = dropWhile (\<lambda>c. c \<noteq> CHR ''}'') (drop 2 s) in
        if name \<noteq> [] \<and> starts_with ''}}'' r then Some (drop 2 r) else None)"

lemma unresolved_shorter [termination_simp]: "unresolved_at (c # s) = Some r \<Longrightarrow> length r < Suc (length s)"
  using length_dropWhile_le [of "\<lambda>c. c \<noteq> CHR ''}''" "drop 2 (c # s)"]
  by (auto simp: unresolved_at_def Let_def split: if_splits)

fun strip_unresolved :: "string \<Rightarrow> string" where
  "strip_unresolved [] = []"
| "strip_unresolved (c # s) =
     (case unresolved_at (c # s) of Some r \<Rightarrow> strip_unresolved r | None \<Rightarrow> c # strip_unresolved s)"

definition series_label :: "string \<Rightarrow> string obj option \<Rightarrow> string" where
  "series_label legendTemplate metric =
     strip_unresolved (case metric of None \<Rightarrow> legendTemplate | Some kvs \<Rightarrow> fold replace_var kvs legendTemplate)"

section \<open>Aligning the samples\<close>

record series_in =
  se_metric :: "string obj option"
  se_values :: "(int \<times> string) list"

text \<open>\<open>vals[ts] = parseFloat(v)\<close> for every sample; \<open>num\<close> is \<open>parseFloat\<close>.\<close>

definition series_vals :: "(string \<Rightarrow> 'v) \<Rightarrow> (int \<times> string) list \<Rightarrow> int \<Rightarrow> 'v option" where
  "series_vals num vals = foldl (\<lambda>m (t, v). m(t \<mapsto> num v)) Map.empty vals"

record 'v series_out =
  so_label :: string
  so_points :: "'v option list"

record 'v chart_data =
  cd_timestamps :: "int list"
  cd_series :: "'v series_out list"

definition all_series :: "panel_query list \<Rightarrow> series_in list list \<Rightarrow> (string \<times> series_in) list" where
  "all_series queries results = concat (map (\<lambda>(q, matrix). map (\<lambda>s. (q_legend q, s)) matrix) (zip queries results))"

definition all_timestamps :: "(string \<times> series_in) list \<Rightarrow> int list" where
  "all_timestamps ss = sort_by (\<le>) (remdups (concat (map (\<lambda>(_, s). map fst (se_values s)) ss)))"

text \<open>\<open>None\<close>: there is no sample at all, and the chart is left as it is.\<close>

definition align_samples :: "(string \<Rightarrow> 'v) \<Rightarrow> panel_query list \<Rightarrow> series_in list list \<Rightarrow> 'v chart_data option" where
  "align_samples num queries results =
     (let ss = all_series queries results; timestamps = all_timestamps ss in
      if timestamps = [] then None
      else Some \<lparr>cd_timestamps = timestamps,
        cd_series = map (\<lambda>(legend, s). \<lparr>so_label = series_label legend (se_metric s),
                                        so_points = map (series_vals num (se_values s)) timestamps\<rparr>) ss\<rparr>)"


section \<open>The chart on the page\<close>

text \<open>
  What an answer to all the queries is: one of them failed, there was no sample, or there is
  something to draw.
\<close>

datatype 'd answer = Failed string | Empty | Data 'd

text \<open>
  The error takes the place of the element the chart is drawn in, which is removed with the
  chart in it; \<open>chartRef\<close> keeps pointing at the chart that is gone.
\<close>

record 'd chart_state =
  ch_error :: "string option"
  ch_drawn :: "'d option"

definition chart_start :: "'d chart_state" where
  "chart_start = \<lparr>ch_error = None, ch_drawn = None\<rparr>"

definition container_there :: "'d chart_state \<Rightarrow> bool" where
  "container_there s \<longleftrightarrow> ch_error s = None"

definition chart_answered :: "'d answer \<Rightarrow> 'd chart_state \<Rightarrow> 'd chart_state" where
  "chart_answered a s =
     (case a of
        Failed message \<Rightarrow> \<lparr>ch_error = Some message, ch_drawn = None\<rparr>
      | Empty \<Rightarrow> s\<lparr>ch_error := None\<rparr>
      | Data d \<Rightarrow> \<lparr>ch_error = None, ch_drawn = (if container_there s then Some d else None)\<rparr>)"

definition chart_run :: "'d answer list \<Rightarrow> 'd chart_state" where
  "chart_run answers = fold chart_answered answers chart_start"

text \<open>The answers to the queries of a panel: one that failed decides, here the first in the order of
  the queries; with several of them the text shown is that of the first in time.\<close>

definition answer_of ::
  "(string \<Rightarrow> 'v) \<Rightarrow> panel_query list \<Rightarrow> (string + series_in list) list \<Rightarrow> 'v chart_data answer"
where
  "answer_of num queries results =
     (case find (\<lambda>r. case r of Inl _ \<Rightarrow> True | Inr _ \<Rightarrow> False) results of
        Some (Inl message) \<Rightarrow> Failed message
      | _ \<Rightarrow>
          (case align_samples num queries (map (\<lambda>r. case r of Inl _ \<Rightarrow> [] | Inr m \<Rightarrow> m) results) of
             None \<Rightarrow> Empty
           | Some d \<Rightarrow> Data d))"

section \<open>The panels\<close>

record panel =
  pn_title :: string
  pn_unit :: string
  pn_stacked :: bool
  pn_min :: "int option"
  pn_max :: "int option"
  pn_queries :: "panel_query list"

definition CPU_QUERIES :: "panel_query list" where
  "CPU_QUERIES =
     [\<lparr>q_expr = ''sum by (mode) (rate(node_cpu_seconds_total{mode=~\"user|system|iowait|irq|softirq|steal|nice\"}['' @ RATE_INTERVAL @
         ''])) * 100 / scalar(count(node_cpu_seconds_total{mode=\"user\"}))'', q_legend = ''{{mode}}''\<rparr>,
      \<lparr>q_expr = ''(1 - sum(rate(node_cpu_seconds_total{mode=\"idle\"}['' @ RATE_INTERVAL @
         ''])) / scalar(count(node_cpu_seconds_total{mode=\"user\"}))) * 100'', q_legend = ''Total''\<rparr>]"

definition MEMORY_QUERIES :: "panel_query list" where
  "MEMORY_QUERIES =
     [\<lparr>q_expr = ''node_memory_MemTotal_bytes'', q_legend = ''Total''\<rparr>,
      \<lparr>q_expr = ''node_memory_MemTotal_bytes - node_memory_MemAvailable_bytes'', q_legend = ''Used''\<rparr>,
      \<lparr>q_expr = ''node_memory_MemAvailable_bytes'', q_legend = ''Available''\<rparr>]"

definition panel_of :: "string \<Rightarrow> string \<Rightarrow> bool \<Rightarrow> int option \<Rightarrow> int option \<Rightarrow> panel_query list \<Rightarrow> panel" where
  "panel_of title unit stacked lo hi queries =
     \<lparr>pn_title = title, pn_unit = unit, pn_stacked = stacked, pn_min = lo, pn_max = hi, pn_queries = queries\<rparr>"

definition MonitoringCharts :: "string list \<Rightarrow> panel list" where
  "MonitoringCharts diskDevices =
     [panel_of ''Disk I/O (/town-os)'' ''Bps'' False None None (buildDiskIOQueries (Some diskDevices)),
      panel_of ''Network (External)'' ''bps'' False None None NETWORK_QUERIES,
      panel_of ''CPU Usage'' ''percent'' True (Some 0) (Some 100) CPU_QUERIES,
      panel_of ''Memory Usage'' ''bytes'' False None None MEMORY_QUERIES]"

definition DNS_PANELS :: "panel list" where
  "DNS_PANELS =
     [panel_of ''DNS Queries by Response Code'' ''reqps'' True None None DNS_QUERY_RCODE_QUERIES,
      panel_of ''Query Latency'' ''s'' False None None DNS_LATENCY_QUERIES,
      panel_of ''Answers by Source'' ''reqps'' True None None DNS_ANSWER_SOURCE_QUERIES,
      panel_of ''Cache Hit Ratio'' ''percent'' False (Some 0) (Some 100) DNS_CACHE_RATIO_QUERIES,
      panel_of ''Cache Entries'' ''short'' False None None DNS_CACHE_ENTRY_QUERIES,
      panel_of ''Blocklist Activity'' ''reqps'' False None None DNS_BLOCKLIST_QUERIES,
      panel_of ''Upstream Tier Outcomes'' ''reqps'' False None None DNS_UPSTREAM_TIER_QUERIES,
      panel_of ''DNS Traffic'' ''Bps'' False None None DNS_TRAFFIC_QUERIES]"

definition CONTROLLER_PANELS :: "panel list" where
  "CONTROLLER_PANELS =
     [panel_of ''Service Health'' ''short'' False (Some 0) (Some 1) CONTROLLER_UNIT_HEALTH_QUERIES,
      panel_of ''Service Units by State'' ''short'' False None None CONTROLLER_UNIT_STATE_QUERIES,
      panel_of ''API Requests by Status'' ''reqps'' True None None CONTROLLER_HTTP_QUERIES,
      panel_of ''API Latency'' ''s'' False None None CONTROLLER_LATENCY_QUERIES,
      panel_of ''Recent Failures'' ''short'' False None None CONTROLLER_FAILURE_QUERIES,
      panel_of ''Audit Events'' ''reqps'' True None None CONTROLLER_AUDIT_QUERIES,
      panel_of ''Town OS Disk Usage'' ''bytes'' True None None CONTROLLER_DISK_QUERIES,
      panel_of ''Town OS Disk Fill'' ''percent'' False (Some 0) (Some 100) CONTROLLER_DISK_FILL_QUERIES,
      panel_of ''Controller CPU'' ''percent'' False (Some 0) None CONTROLLER_CPU_QUERIES,
      panel_of ''Controller Memory'' ''bytes'' False None None CONTROLLER_MEMORY_QUERIES,
      panel_of ''Controller Concurrency'' ''short'' False None None CONTROLLER_CONCURRENCY_QUERIES,
      panel_of ''Controller Uptime'' ''s'' False None None CONTROLLER_UPTIME_QUERIES,
      panel_of ''Inventory'' ''short'' False None None CONTROLLER_INVENTORY_QUERIES,
      panel_of ''Accounts'' ''short'' False None None CONTROLLER_ACCOUNT_QUERIES]"


section \<open>Theorems\<close>

lemma series_vals_map_of: "series_vals num vals = map_of (rev (map (\<lambda>(t, v). (t, num v)) vals))"
proof -
  have "foldl (\<lambda>m (t, v). m(t \<mapsto> num v)) m vals = m ++ map_of (rev (map (\<lambda>(t, v). (t, num v)) vals))" for m
    by (induction vals arbitrary: m) (auto simp: map_add_def fun_eq_iff split: option.split)
  then show ?thesis by (simp add: series_vals_def)
qed

lemma series_vals_sample:
  assumes "distinct (map fst vals)"
  shows "series_vals num vals t = Some x \<longleftrightarrow> (\<exists>v. (t, v) \<in> set vals \<and> x = num v)"
proof -
  have "distinct (map fst (rev (map (\<lambda>(t, v). (t, num v)) vals)))"
    using assms by (simp add: rev_map [symmetric] comp_def split_def)
  then show ?thesis unfolding series_vals_map_of by (subst map_of_eq_Some_iff) force+
qed

lemma sorted_insert_by: "sorted xs \<Longrightarrow> sorted (insert_by (\<le>) x xs)" for x :: "'a :: linorder"
  by (induction xs) auto

lemma distinct_insert_by: "distinct xs \<Longrightarrow> x \<notin> set xs \<Longrightarrow> distinct (insert_by le x xs)"
  by (induction xs) auto

lemma sort_by_le: "sorted (sort_by (\<le>) xs)" "distinct xs \<Longrightarrow> distinct (sort_by (\<le>) xs)" for xs :: "int list"
proof -
  show "sorted (sort_by (\<le>) xs)" unfolding sort_by_def by (induction xs) (simp_all add: sorted_insert_by)
  have "distinct (foldr (insert_by (\<le>)) ys []) \<and> set (foldr (insert_by (\<le>)) ys []) = set ys" if "distinct ys" for ys :: "int list"
    using that by (induction ys) (auto intro!: distinct_insert_by)
  then show "distinct xs \<Longrightarrow> distinct (sort_by (\<le>) xs)" by (simp add: sort_by_def)
qed

lemma set_all_timestamps: "set (all_timestamps ss) = (\<Union>(_, s) \<in> set ss. fst ` set (se_values s))"
  by (auto simp: all_timestamps_def)

text \<open>C33: the samples are drawn where they belong: the time axis is strictly increasing and has a
  point exactly where some series has a sample; there is one row per series answered, in
  order, under its name; a row has one entry for every point, and the entry is the value of
  the sample the series has at that time, and empty where it has none.\<close>

theorem samples_aligned:
  assumes "align_samples num queries results = Some d"
    and "list_all (\<lambda>(_, s). distinct (map fst (se_values s))) (all_series queries results)"
  shows "sorted (cd_timestamps d) \<and> distinct (cd_timestamps d) \<and>
    set (cd_timestamps d) = (\<Union>(_, s) \<in> set (all_series queries results). fst ` set (se_values s)) \<and>
    list_all2 (\<lambda>(legend, s) row. so_label row = series_label legend (se_metric s) \<and>
        list_all2 (\<lambda>t y. \<forall>x. y = Some x \<longleftrightarrow> (\<exists>v. (t, v) \<in> set (se_values s) \<and> x = num v)) (cd_timestamps d) (so_points row))
      (all_series queries results) (cd_series d)"
proof -
  let ?ss = "all_series queries results"
  have d: "cd_timestamps d = all_timestamps ?ss"
    "cd_series d = map (\<lambda>(legend, s). \<lparr>so_label = series_label legend (se_metric s),
        so_points = map (series_vals num (se_values s)) (all_timestamps ?ss)\<rparr>) ?ss"
    using assms(1) by (auto simp: align_samples_def Let_def split: if_splits)
  have "sorted (all_timestamps ?ss)" "distinct (all_timestamps ?ss)"
    by (simp_all add: all_timestamps_def sort_by_le)
  moreover have "list_all2 (\<lambda>(legend, s) row. so_label row = series_label legend (se_metric s) \<and>
        list_all2 (\<lambda>t y. \<forall>x. y = Some x \<longleftrightarrow> (\<exists>v. (t, v) \<in> set (se_values s) \<and> x = num v)) (all_timestamps ?ss) (so_points row))
      ?ss (cd_series d)"
    unfolding d(2) list.rel_map list_all2_same
    using assms(2) by (auto simp: list_all_iff list.rel_map list_all2_same series_vals_sample)
  ultimately show ?thesis unfolding d(1) set_all_timestamps [symmetric] by simp
qed


theorem samples_aligned_witness:
  "sorted (cd_timestamps \<lparr>cd_timestamps = [15, 30], cd_series =
     [\<lparr>so_label = ''user'', so_points = [None, Some ''2'']\<rparr>, \<lparr>so_label = ''Total'', so_points = [Some ''4'', Some ''3'']\<rparr>]\<rparr>)"
proof -
  have "align_samples (\<lambda>v. v) CPU_QUERIES
      [[\<lparr>se_metric = Some [(''mode'', ''user'')], se_values = [(30, ''2'')]\<rparr>], [\<lparr>se_metric = None, se_values = [(30, ''3''), (15, ''4'')]\<rparr>]]
      = Some \<lparr>cd_timestamps = [15, 30], cd_series =
     [\<lparr>so_label = ''user'', so_points = [None, Some ''2'']\<rparr>, \<lparr>so_label = ''Total'', so_points = [Some ''4'', Some ''3'']\<rparr>]\<rparr>" by code_simp
  from samples_aligned [OF this] show ?thesis by (simp add: all_series_def CPU_QUERIES_def)
qed

text \<open>No name of a variable, and nothing a metric has for one, has braces or dollars.\<close>

definition plain_label :: "string \<Rightarrow> bool" where
  "plain_label s \<longleftrightarrow> CHR ''{'' \<notin> set s \<and> CHR ''}'' \<notin> set s \<and> CHR ''$'' \<notin> set s"

lemma starts_with_brace: "CHR ''{'' \<notin> set s \<Longrightarrow> \<not> starts_with ''{{'' (s @ t) \<or> s = []"
  by (cases s) auto

lemma replace_first_none: "CHR ''{'' \<notin> set s \<Longrightarrow> replace_first_from b (template_var k) v s = s"
  by (induction s arbitrary: b) (auto simp: template_var_def)

lemma replace_first_skip:
  "CHR ''{'' \<notin> set pre \<Longrightarrow> replace_first_from b (template_var k) v (pre @ s) = pre @ replace_first_from (b @ pre) (template_var k) v s"
  by (induction pre arbitrary: b) (auto simp: template_var_def)

lemma replace_first_hit:
  assumes "CHR ''$'' \<notin> set v"
  shows "replace_first_from b (template_var k) v (template_var k @ s) = v @ s"
  using assms starts_with_append [of "template_var k" s]
  by (simp add: template_var_def expand_plain Let_def)

text \<open>A variable is not taken for another one.\<close>

lemma template_var_other:
  assumes "plain_label k" "plain_label l" "k \<noteq> l"
  shows "\<not> starts_with (template_var k) (template_var l @ s)"
proof
  assume "starts_with (template_var k) (template_var l @ s)"
  then obtain t where "l @ CHR ''}'' # (''}'' @ s) = k @ CHR ''}'' # (''}'' @ t)"
    by (auto simp: template_var_def starts_with_iff)
  then show False using assms by (simp add: plain_label_def cut_unique)
qed

text \<open>Scanning over the braces of a variable does not find another one inside it.\<close>

lemma replace_first_other:
  assumes "plain_label k" "plain_label l" "k \<noteq> l" "CHR ''{'' \<notin> set suf"
  shows "replace_first_from b (template_var k) v (template_var l @ suf) = template_var l @ suf"
proof -
  have tail: "replace_first_from b (template_var k) v (l @ ''}}'' @ suf) = l @ ''}}'' @ suf" for b
    using assms by (intro replace_first_none) (auto simp: plain_label_def)
  have step: "\<not> starts_with (template_var k) (CHR ''{'' # l @ ''}}'' @ suf)"
    using assms(2) by (cases l) (auto simp: template_var_def plain_label_def)
  show ?thesis
    using template_var_other [OF assms(1-3), of suf] step tail [of "b @ ''{{''"]
    by (simp add: template_var_def)
qed

lemma strip_plain: "CHR ''{'' \<notin> set s \<Longrightarrow> strip_unresolved s = s"
  by (induction s rule: strip_unresolved.induct) (auto simp: unresolved_at_def split: option.split)

lemma strip_plain_append: "CHR ''{'' \<notin> set s \<Longrightarrow> strip_unresolved (s @ t) = s @ strip_unresolved t"
  by (induction s) (auto simp: unresolved_at_def split: option.split)

lemma strip_var: "plain_label k \<Longrightarrow> k \<noteq> [] \<Longrightarrow> strip_unresolved (template_var k @ s) = strip_unresolved s"
proof -
  assume k: "plain_label k" "k \<noteq> []"
  have "takeWhile (\<lambda>c. c \<noteq> CHR ''}'') (k @ ''}}'' @ s) = k" "dropWhile (\<lambda>c. c \<noteq> CHR ''}'') (k @ ''}}'' @ s) = ''}}'' @ s"
    using k by (auto simp: plain_label_def takeWhile_append dropWhile_append takeWhile_eq_all_conv [THEN iffD2])
  then have "unresolved_at (template_var k @ s) = Some s"
    using k by (simp add: unresolved_at_def template_var_def Let_def)
  then show ?thesis by (simp add: template_var_def)
qed

lemma fold_replace_none: "CHR ''{'' \<notin> set s \<Longrightarrow> fold replace_var kvs s = s"
  by (induction kvs) (auto simp: replace_var_def replace_first_none)

lemma fold_replace_var:
  assumes "plain_label pre" "plain_label k" "plain_label suf" "list_all (\<lambda>(l, v). plain_label l \<and> plain_label v) kvs"
  shows "fold replace_var kvs (pre @ template_var k @ suf) =
    (case map_of kvs k of Some v \<Rightarrow> pre @ v @ suf | None \<Rightarrow> pre @ template_var k @ suf)"
  using assms(4)
proof (induction kvs)
  case (Cons kv kvs)
  obtain l v where kv: "kv = (l, v)" by fastforce
  have plain: "plain_label l" "plain_label v" using Cons.prems by (auto simp: kv)
  have skip: "replace_first_from [] (template_var l) v (pre @ template_var k @ suf) =
      pre @ replace_first_from pre (template_var l) v (template_var k @ suf)"
    using assms(1) replace_first_skip [of pre "[]"] by (simp add: plain_label_def)
  show ?case
  proof (cases "l = k")
    case True
    have "replace_var kv (pre @ template_var k @ suf) = pre @ v @ suf"
      using skip plain(2) True by (simp add: kv replace_var_def replace_first_hit plain_label_def)
    moreover have "CHR ''{'' \<notin> set (pre @ v @ suf)" using assms plain by (simp add: plain_label_def)
    ultimately show ?thesis using True by (simp add: kv fold_replace_none)
  next
    case False
    have "replace_var kv (pre @ template_var k @ suf) = pre @ template_var k @ suf"
      using skip assms plain False by (simp add: kv replace_var_def replace_first_other plain_label_def)
    then show ?thesis using Cons False by (simp add: kv)
  qed
qed simp

text \<open>What a series is called: a legend without a variable is its name; one with a variable has the
  value of that label of the metric in its place, wherever among the labels it stands, and
  nothing where the metric has no such label.\<close>

theorem legend_filled:
  assumes "plain_label pre" "plain_label k" "k \<noteq> []" "plain_label suf"
    and "list_all (\<lambda>(l, v). plain_label l \<and> plain_label v) kvs"
  shows "series_label (pre @ template_var k @ suf) (Some kvs) =
      pre @ (case map_of kvs k of Some v \<Rightarrow> v | None \<Rightarrow> []) @ suf \<and>
    series_label pre (Some kvs) = pre"
proof -
  have stripped: "strip_unresolved (pre @ template_var k @ suf) = pre @ suf"
    using assms by (simp add: strip_plain_append strip_var strip_plain plain_label_def)
  have "plain_label v" if "map_of kvs k = Some v" for v
    using map_of_SomeD [OF that] assms(5) by (auto simp: list_all_iff)
  then have "strip_unresolved (case map_of kvs k of Some v \<Rightarrow> pre @ v @ suf | None \<Rightarrow> pre @ template_var k @ suf)
      = pre @ (case map_of kvs k of Some v \<Rightarrow> v | None \<Rightarrow> []) @ suf"
    using assms stripped by (auto simp: strip_plain plain_label_def split: option.split)
  moreover have "series_label pre (Some kvs) = pre"
    using assms(1) by (simp add: series_label_def fold_replace_none strip_plain plain_label_def)
  ultimately show ?thesis
    using fold_replace_var [OF assms(1,2,4,5)] by (simp add: series_label_def)
qed

theorem legend_filled_witness:
  "series_label ''{{device}} Rx'' (Some [(''job'', ''node''), (''device'', ''eth0'')]) = ''eth0 Rx''"
  using legend_filled [of "[]" "''device''" "'' Rx''" "[(''job'', ''node''), (''device'', ''eth0'')]"]
  by (simp add: plain_label_def template_var_def)


text \<open>C34: after a query failed, the next answer removes the error and draws nothing, although it has
  the samples: the element to draw in is not there yet.  The chart is back one refresh
  later.  As long as nothing fails, the chart is always that of the latest samples.\<close>

theorem chart_back_late:
  "ch_drawn (chart_run (answers @ [Failed e, Data d])) = None \<and>
   ch_error (chart_run (answers @ [Failed e, Data d])) = None \<and>
   ch_drawn (chart_run (answers @ [Failed e, Data d, Data d'])) = Some d' \<and>
   (list_all (\<lambda>a. \<not> (\<exists>e. a = Failed e)) answers \<longrightarrow> ch_drawn (chart_run (answers @ [Data d])) = Some d)"
proof -
  have "list_all (\<lambda>a. \<not> (\<exists>e. a = Failed e)) as \<Longrightarrow> ch_error s = None \<Longrightarrow> ch_error (fold chart_answered as s) = None" for as s
    by (induction as arbitrary: s) (auto simp: chart_answered_def split: answer.split)
  from this [of answers chart_start] show ?thesis
    by (auto simp: chart_run_def chart_answered_def container_there_def chart_start_def)
qed

theorem chart_back_late_witness:
  "ch_drawn (chart_run [Empty, Data (7 :: nat)]) = Some 7"
  using chart_back_late [of "[Empty]" "''e''" "7 :: nat" 7] by simp

text \<open>With a development address configured, the charts ask port 5308 of its host while the frame
  of Grafana is taken from the address as it stands, port and all.\<close>

theorem monitoring_bases_differ:
  assumes "loc_vite_api_url loc = Some url" "url \<noteq> []" "url_parts url = Some (protocol, hostname)"
  shows "getMonitoringBaseURL url_parts loc = protocol @ ''//'' @ hostname @ '':5308'' \<and>
    getBaseURLForPort loc 5308 = url \<and> getBaseURLForPort loc 5308 = getBaseURLForPort loc 5309"
  using assms by (simp add: getMonitoringBaseURL_def getBaseURLForPort_def Let_def)

theorem monitoring_bases_differ_witness:
  "getBaseURLForPort \<lparr>loc_protocol = ''http:'', loc_hostname = ''ui'', loc_vite_api_url = Some ''http://box:5309''\<rparr> 5308 \<noteq>
   getMonitoringBaseURL (\<lambda>_. Some (''http:'', ''box'')) \<lparr>loc_protocol = ''http:'', loc_hostname = ''ui'', loc_vite_api_url = Some ''http://box:5309''\<rparr>"
  using monitoring_bases_differ [of "\<lparr>loc_protocol = ''http:'', loc_hostname = ''ui'', loc_vite_api_url = Some ''http://box:5309''\<rparr>"
      "''http://box:5309''" "\<lambda>_. Some (''http:'', ''box'')" "''http:''" "''box''"] by simp

text \<open>A query reaches Prometheus as it is written: what follows the question mark is read as
  the query, the two times and the step, whatever brackets, quotes and ampersands it has.\<close>

theorem range_query_roundtrip:
  "\<exists>qs. rq_url (range_request base expr start stop step) = base @ ''/api/v1/query_range?'' @ qs \<and>
     parse_query qs = Some [(''query'', expr), (''start'', int_str start), (''end'', int_str stop), (''step'', int_str step @ ''s'')] \<and>
     CHR ''#'' \<notin> set qs"
proof (intro exI conjI)
  show "parse_query (params_string (range_params expr start stop step)) =
      Some [(''query'', expr), (''start'', int_str start), (''end'', int_str stop), (''step'', int_str step @ ''s'')]"
    by (simp add: parse_params_string range_params_def)
  have "CHR ''#'' \<notin> set (form_encode x)" for x using form_encode_safe [of "CHR ''#''" x] by blast
  then show "CHR ''#'' \<notin> set (params_string (range_params expr start stop step))"
    by (simp add: params_string_def range_params_def)
qed (simp add: range_request_def)

text \<open>No panel of the DNS and the controller dashboards is missing its queries: together they draw
  exactly the queries that are defined for them, under titles of their own, each in a unit
  that has a format and with bounds that are not reversed.\<close>

theorem panels_complete:
  "set (concat (map pn_queries DNS_PANELS)) = set dns_queries \<and>
   set (concat (map pn_queries CONTROLLER_PANELS)) = set controller_queries \<and>
   distinct (map pn_title DNS_PANELS) \<and> distinct (map pn_title CONTROLLER_PANELS) \<and>
   list_all (\<lambda>p. pn_unit p \<in> {''bytes'', ''Bps'', ''bps'', ''percent'', ''reqps'', ''s'', ''short''} \<and>
      (case (pn_min p, pn_max p) of (Some lo, Some hi) \<Rightarrow> lo < hi | _ \<Rightarrow> True))
     (MonitoringCharts devices @ DNS_PANELS @ CONTROLLER_PANELS)"
proof (intro conjI)
  show "set (concat (map pn_queries DNS_PANELS)) = set dns_queries"
    by (auto simp: DNS_PANELS_def panel_of_def dns_queries_def)
  show "set (concat (map pn_queries CONTROLLER_PANELS)) = set controller_queries"
    by (auto simp: CONTROLLER_PANELS_def panel_of_def controller_queries_def)
  show "distinct (map pn_title DNS_PANELS)" "distinct (map pn_title CONTROLLER_PANELS)"
    by (simp_all add: DNS_PANELS_def CONTROLLER_PANELS_def panel_of_def)
  show "list_all (\<lambda>p. pn_unit p \<in> {''bytes'', ''Bps'', ''bps'', ''percent'', ''reqps'', ''s'', ''short''} \<and>
      (case (pn_min p, pn_max p) of (Some lo, Some hi) \<Rightarrow> lo < hi | _ \<Rightarrow> True))
     (MonitoringCharts devices @ DNS_PANELS @ CONTROLLER_PANELS)"
    by (simp add: MonitoringCharts_def DNS_PANELS_def CONTROLLER_PANELS_def panel_of_def)
qed

end
