(* ===== verification/PageEffects.thy ===== *)
theory PageEffects
  imports Session SseStream
begin

text \<open>
  What the event handlers of the route components share: the state a page carries
  beside its own dialogs (the toasts shown, the API client and the network behind it,
  the refresh counter), the effects a handler is composed of, and the weakest
  preconditions by which the component theories run a handler symbolically.

  A handler is an asynchronous function of the source.  It is modelled as one effect
  on the page: what the user does while it awaits an answer is modelled where the
  order matters (\<^verbatim>\<open>manifest\<close> in \<^verbatim>\<open>InstallFlow\<close>, the unit document in \<^verbatim>\<open>RefreshFlow\<close>).
\<close>

section \<open>The page\<close>

text \<open>
  The toasts, newest last.  \<open>toast.loading\<close> and \<open>toast.dismiss\<close> of a page always use one
  and the same id, so a \<open>Loading\<close> replaces the one before it.
\<close>

datatype toast =
    Loading string "string option"
  | Dismissed
  | Success string
  | Failure json
  | FailureKey string
  | Warning string
  | Info string

record 'w page =
  pg_net :: 'w
  pg_storage :: storage
  pg_client :: client
  pg_log :: "toast list"
  pg_refreshKey :: nat

text \<open>The network, and the texts the engine gives the errors it throws itself.\<close>

record 'w env =
  en_net :: "'w net"
  en_message :: "js_error \<Rightarrow> string"

definition progress_after :: "bool \<Rightarrow> toast list \<Rightarrow> bool" where
  "progress_after = foldl (\<lambda>b x. case x of Loading _ _ \<Rightarrow> True | Dismissed \<Rightarrow> False | _ \<Rightarrow> b)"

definition progress_shown :: "('w, 'm) page_scheme \<Rightarrow> bool" where
  "progress_shown pg = progress_after False (pg_log pg)"

section \<open>Objects of unknown shape\<close>

text \<open>The own enumerable properties of a value: what \<open>...v\<close> copies and \<open>Object.keys\<close> lists.\<close>

definition own_fields :: "json \<Rightarrow> json obj" where
  "own_fields v =
     (case v of
        JObj kvs \<Rightarrow> kvs
      | JArr xs \<Rightarrow> map (\<lambda>i. (nat_str i, xs ! i)) [0..<length xs]
      | JStr s \<Rightarrow> map (\<lambda>i. (nat_str i, JStr [s ! i])) [0..<length s]
      | _ \<Rightarrow> [])"

definition js_keys :: "json \<Rightarrow> string list" where
  "js_keys v = map fst (own_fields v)"

text \<open>\<open>Object.keys\<close> throws on \<open>null\<close> and \<open>undefined\<close>.\<close>

definition object_keys :: "json \<Rightarrow> js_error + string list" where
  "object_keys v = (if js_nullish v then Inl TypeErr else Inr (js_keys v))"

text \<open>The elements of an iterable answer, for \<open>.length\<close> and \<open>for ... of\<close>.\<close>

definition elements :: "json \<Rightarrow> json list" where
  "elements v = (case v of JArr xs \<Rightarrow> xs | JStr s \<Rightarrow> map (\<lambda>c. JStr [c]) s | _ \<Rightarrow> [])"

definition json_or :: "json \<Rightarrow> json \<Rightarrow> json" where
  "json_or a b = (if truthy a then a else b)"

section \<open>Effects\<close>

definition eff_finally :: "('w, 'e, 'a) eff \<Rightarrow> ('w, 'e, unit) eff \<Rightarrow> ('w, 'e, 'a) eff" where
  "eff_finally m c =
     (\<lambda>w. let (r, w') = m w
          in (case c w' of (Inl e, w'') \<Rightarrow> (Inl e, w'') | (Inr _, w'') \<Rightarrow> (r, w'')))"

definition eff_seq :: "('w, 'e, 'a) eff \<Rightarrow> ('w, 'e, 'b) eff \<Rightarrow> ('w, 'e, 'b) eff" where
  "eff_seq m n = eff_bind m (\<lambda>_. n)"

text \<open>The statements of a block.\<close>

fun block :: "('w, 'e, unit) eff list \<Rightarrow> ('w, 'e, unit) eff" where
  "block [] = eff_return ()"
| "block [m] = m"
| "block (m # ms) = eff_seq m (block ms)"

definition page_set :: "('s \<Rightarrow> 's) \<Rightarrow> ('s, 'e, unit) eff" where
  "page_set f = (\<lambda>s. (Inr (), f s))"

definition page_read :: "('s \<Rightarrow> 'a) \<Rightarrow> ('s, 'e, 'a) eff" where
  "page_read f = (\<lambda>s. (Inr (f s), s))"

text \<open>\<open>await getClient().method(...)\<close>\<close>

definition api ::
  "(client \<Rightarrow> ('w, js_error, 'a) eff) \<Rightarrow> (('w, 'm) page_scheme, js_error, 'a) eff"
where
  "api f =
     (\<lambda>pg. let c = getClient (pg_storage pg) (pg_client pg);
               (r, w) = f c (pg_net pg)
           in (r, pg\<lparr>pg_client := c, pg_net := w\<rparr>))"

definition show_toast :: "toast \<Rightarrow> (('w, 'm) page_scheme, 'e, unit) eff" where
  "show_toast x = page_set (\<lambda>pg. pg\<lparr>pg_log := pg_log pg @ [x]\<rparr>)"

text \<open>\<open>err.detail || err.message\<close>\<close>

definition error_text :: "(js_error \<Rightarrow> string) \<Rightarrow> js_error \<Rightarrow> json" where
  "error_text engine err =
     (case err of
        ApiErr e \<Rightarrow> if truthy (ae_detail e) then ae_detail e else JStr (ae_message e)
      | NetworkErr m \<Rightarrow> JStr m
      | PlainErr m \<Rightarrow> JStr m
      | other \<Rightarrow> JStr (engine other))"

definition toast_error :: "'w env \<Rightarrow> js_error \<Rightarrow> (('w, 'm) page_scheme, 'e, unit) eff" where
  "toast_error env err = show_toast (Failure (error_text (en_message env) err))"

definition doRefresh :: "(('w, 'm) page_scheme, 'e, unit) eff" where
  "doRefresh = page_set (\<lambda>pg. pg\<lparr>pg_refreshKey := pg_refreshKey pg + 1\<rparr>)"

section \<open>The clipboard\<close>

text \<open>
  What the browser offers for copying a text: whether there is a \<open>navigator.clipboard\<close> (there
  is none on a page loaded over plain HTTP), whether the page is a secure context, whether
  \<open>writeText\<close> succeeds, and what \<open>execCommand\<close> returns (\<open>None\<close>: it throws).
\<close>

record clipboard =
  cb_api :: bool
  cb_secure :: bool
  cb_written :: bool
  cb_exec :: "bool option"

text \<open>\<^verbatim>\<open>lib/utils.js\<close>\<close>

definition copyToClipboard :: "clipboard \<Rightarrow> js_error + unit" where
  "copyToClipboard c =
     (if cb_api c \<and> cb_secure c then (if cb_written c then Inr () else Inl TypeErr)
      else (case cb_exec c of
              None \<Rightarrow> Inl TypeErr
            | Some b \<Rightarrow> if b then Inr () else Inl (PlainErr ''clipboard copy failed'')))"

text \<open>Whether the text has reached the clipboard.\<close>

definition text_copied :: "clipboard \<Rightarrow> bool" where
  "text_copied c \<longleftrightarrow> (if cb_api c \<and> cb_secure c then cb_written c else cb_exec c = Some True)"

section \<open>Weakest preconditions\<close>

definition wp :: "('w, 'e, 'a) eff \<Rightarrow> ('e + 'a \<Rightarrow> 'w \<Rightarrow> bool) \<Rightarrow> 'w \<Rightarrow> bool" where
  "wp m Q s = Q (fst (m s)) (snd (m s))"

named_theorems wp_simps \<open>weakest preconditions of the page effects\<close>

lemma wpD: "wp m Q s \<Longrightarrow> m s = (r, s') \<Longrightarrow> Q r s'"
  by (simp add: wp_def)

lemma wp_weaken: "wp m Q s \<Longrightarrow> (\<And>r s'. Q r s' \<Longrightarrow> R r s') \<Longrightarrow> wp m R s"
  by (simp add: wp_def)

lemma wp_conj: "wp m (\<lambda>r s. Q r s \<and> R r s) s \<longleftrightarrow> wp m Q s \<and> wp m R s"
  by (simp add: wp_def)

lemma wp_return [wp_simps]: "wp (eff_return x) Q s = Q (Inr x) s"
  by (simp add: wp_def eff_simps)

lemma wp_throw [wp_simps]: "wp (eff_throw e) Q s = Q (Inl e) s"
  by (simp add: wp_def eff_simps)

lemma wp_lift [wp_simps]: "wp (eff_lift r) Q s = Q r s"
  by (simp add: wp_def eff_simps)

lemma wp_bind [wp_simps]:
  "wp (eff_bind m f) Q s
   = wp m (\<lambda>r s. case r of Inl e \<Rightarrow> Q (Inl e) s | Inr x \<Rightarrow> wp (f x) Q s) s"
  by (simp add: wp_def eff_bind_def split: prod.split sum.split)

lemma wp_seq [wp_simps]:
  "wp (eff_seq m n) Q s = wp m (\<lambda>r s. case r of Inl e \<Rightarrow> Q (Inl e) s | Inr x \<Rightarrow> wp n Q s) s"
  by (simp add: eff_seq_def wp_bind)

lemma wp_catch [wp_simps]:
  "wp (eff_catch m h) Q s
   = wp m (\<lambda>r s. case r of Inl e \<Rightarrow> wp (h e) Q s | Inr x \<Rightarrow> Q (Inr x) s) s"
  by (simp add: wp_def eff_catch_def split: prod.split sum.split)

lemma wp_finally [wp_simps]:
  "wp (eff_finally m c) Q s
   = wp m (\<lambda>r s. wp c (\<lambda>r' s. case r' of Inl e \<Rightarrow> Q (Inl e) s | Inr _ \<Rightarrow> Q r s) s) s"
  by (simp add: wp_def eff_finally_def Let_def split: prod.split sum.split)

lemma wp_set [wp_simps]: "wp (page_set f) Q s = Q (Inr ()) (f s)"
  by (simp add: wp_def page_set_def)

lemma wp_read [wp_simps]: "wp (page_read f) Q s = Q (Inr (f s)) s"
  by (simp add: wp_def page_read_def)

lemma wp_toast [wp_simps]: "wp (show_toast x) Q s = Q (Inr ()) (s\<lparr>pg_log := pg_log s @ [x]\<rparr>)"
  by (simp add: show_toast_def wp_set)

lemma wp_toast_error [wp_simps]:
  "wp (toast_error env e) Q s
   = Q (Inr ()) (s\<lparr>pg_log := pg_log s @ [Failure (error_text (en_message env) e)]\<rparr>)"
  by (simp add: toast_error_def wp_toast)

lemma wp_doRefresh [wp_simps]: "wp doRefresh Q s = Q (Inr ()) (s\<lparr>pg_refreshKey := pg_refreshKey s + 1\<rparr>)"
  by (simp add: doRefresh_def wp_set)

lemmas wp_block [wp_simps] = block.simps

text \<open>An API call may answer anything; all it leaves on the page is the network's state.\<close>

lemma wp_api: "(\<And>r c w. Q r (s\<lparr>pg_client := c, pg_net := w\<rparr>)) \<Longrightarrow> wp (api f) Q s"
  by (simp add: wp_def api_def Let_def split: prod.split)

lemma wp_api_exact:
  "f (getClient (pg_storage s) (pg_client s)) (pg_net s) = (r, w) \<Longrightarrow>
   wp (api f) Q s = Q r (s\<lparr>pg_client := getClient (pg_storage s) (pg_client s), pg_net := w\<rparr>)"
  by (simp add: wp_def api_def Let_def)

text \<open>Running the statements that cannot fail.\<close>

lemma run_simps:
  "page_set f s = (Inr (), f s)"
  "show_toast x s = (Inr (), s\<lparr>pg_log := pg_log s @ [x]\<rparr>)"
  "toast_error env e s = (Inr (), s\<lparr>pg_log := pg_log s @ [Failure (error_text (en_message env) e)]\<rparr>)"
  "doRefresh s = (Inr (), s\<lparr>pg_refreshKey := pg_refreshKey s + 1\<rparr>)"
  "eff_seq (page_set f) m s = m (f s)"
  "eff_seq (show_toast x) m s = m (s\<lparr>pg_log := pg_log s @ [x]\<rparr>)"
  "eff_seq (toast_error env e) m s = m (s\<lparr>pg_log := pg_log s @ [Failure (error_text (en_message env) e)]\<rparr>)"
  "eff_seq doRefresh m s = m (s\<lparr>pg_refreshKey := pg_refreshKey s + 1\<rparr>)"
  by (simp_all add: page_set_def show_toast_def toast_error_def doRefresh_def eff_seq_def eff_bind_def)

text \<open>What a change of the server leaves on the page: it was accepted, or the error is shown.\<close>

definition accepted :: "('w, 'm) page_scheme \<Rightarrow> ('w, 'm) page_scheme \<Rightarrow> bool" where
  "accepted pg pg' \<longleftrightarrow> pg_refreshKey pg' = pg_refreshKey pg + 1 \<and> (\<exists>t. pg_log pg' = pg_log pg @ [Success t])"

definition refused :: "('w, 'm) page_scheme \<Rightarrow> ('w, 'm) page_scheme \<Rightarrow> bool" where
  "refused pg pg' \<longleftrightarrow> pg_refreshKey pg' = pg_refreshKey pg \<and> (\<exists>e. pg_log pg' = pg_log pg @ [Failure e])"

lemmas change_simps = accepted_def refused_def wp_simps

section \<open>A network that keeps the requests\<close>

text \<open>
  Every deterministic network: the answer to a request may depend on all the requests
  before it.
\<close>

definition recording :: "(request list \<Rightarrow> request \<Rightarrow> js_error + response) \<Rightarrow> request list net" where
  "recording answer rq = (\<lambda>sent. (answer sent rq, sent @ [rq]))"

lemma recording_post:
  "post (recording a) c path body w
   = (case a w (post_request c path body) of
        Inl e \<Rightarrow> Inl e | Inr resp \<Rightarrow> check_status ''POST'' path resp, w @ [post_request c path body])"
  by (simp add: post_def recording_def eff_bind_def eff_lift_def split: sum.split)

lemma wp_recording_post:
  "(\<And>r c. c = getClient (pg_storage s) (pg_client s) \<Longrightarrow>
      Q r (s\<lparr>pg_client := c, pg_net := pg_net s @ [post_request c path body]\<rparr>)) \<Longrightarrow>
   wp (api (\<lambda>c. post (recording a) c path body)) Q s"
  by (simp add: wp_def api_def Let_def recording_post)

lemma wp_recording_ignore:
  "(\<And>r c. c = getClient (pg_storage s) (pg_client s) \<Longrightarrow>
      Q r (s\<lparr>pg_client := c, pg_net := pg_net s @ [post_request c path body]\<rparr>)) \<Longrightarrow>
   wp (api (\<lambda>c. ignore_result (post (recording a) c path body))) Q s"
  by (auto simp: wp_def api_def Let_def ignore_result_def eff_bind_def eff_return_def recording_post
      split: sum.split)

lemma wp_recording_postJSON:
  "(\<And>r c. c = getClient (pg_storage s) (pg_client s) \<Longrightarrow>
      Q r (s\<lparr>pg_client := c, pg_net := pg_net s @ [post_request c path body]\<rparr>)) \<Longrightarrow>
   wp (api (\<lambda>c. postJSON (recording a) c path body)) Q s"
  by (auto simp: wp_def api_def Let_def postJSON_def eff_bind_def eff_lift_def recording_post
      split: sum.split)

lemma wp_recording_ignore_json:
  "(\<And>r c. c = getClient (pg_storage s) (pg_client s) \<Longrightarrow>
      Q r (s\<lparr>pg_client := c, pg_net := pg_net s @ [post_request c path body]\<rparr>)) \<Longrightarrow>
   wp (api (\<lambda>c. ignore_result (postJSON (recording a) c path body))) Q s"
  by (auto simp: wp_def api_def Let_def ignore_result_def postJSON_def eff_bind_def eff_return_def eff_lift_def
      recording_post split: sum.split)

lemmas wp_recording = wp_recording_post wp_recording_ignore wp_recording_postJSON wp_recording_ignore_json

lemma getClient_same [simp]:
  "baseURL (getClient st c) = baseURL c" "getClient st (getClient st c) = getClient st c"
  by (auto simp: getClient_def setToken_def split: option.split)

lemma post_request_url [simp]: "rq_url (post_request c path body) = baseURL c @ path"
  by (simp add: post_request_def)

section \<open>The progress toast\<close>

lemma progress_after_append [simp]:
  "progress_after b (xs @ ys) = progress_after (progress_after b xs) ys"
  "progress_after b [] = b"
  "progress_after b (x # ys)
   = progress_after (case x of Loading _ _ \<Rightarrow> True | Dismissed \<Rightarrow> False | _ \<Rightarrow> b) ys"
  by (simp_all add: progress_after_def)

end
