(* ===== verification/InstallFlow.thy ===== *)
theory InstallFlow
  imports PageEffects ClientPackage ClientStorage
begin

text \<open>
  \<^verbatim>\<open>routes/PackageManagement.jsx\<close>: the handlers of the package page.  An install goes
  from the version choice over the preview, the kept volumes and the questions to the
  streamed install; each dialog is a field of the page, a handler one effect on it.
\<close>

section \<open>The state of the page\<close>

record questions_dialog =
  qd_repo :: string
  qd_name :: string
  qd_version :: string
  qd_questions :: json
  qd_responses :: "json obj"
  qd_fieldErrors :: "json obj"
  qd_clearedFields :: "bool obj"
  qd_reuseVolumes :: bool
  qd_importFrom :: "string option"

record volume_dialog =
  vd_repo :: string
  vd_name :: string
  vd_version :: string
  vd_importFrom :: "string option"
  vd_uninstalled :: json

record version_dialog =
  sd_repo :: string
  sd_name :: string
  sd_versions :: json
  sd_selected :: string

record manifest_dialog =
  mf_open :: bool
  mf_identity :: "(string \<times> string \<times> string) option"
  mf_content :: json

text \<open>
  A dialog whose state is \<open>{ open: false }\<close> is \<open>None\<close>; the two that are filled by spreading
  an answer of the server into their state are dictionaries.
\<close>

record 'w packages_page = "'w page" +
  pk_uninstallConfirm :: "(string \<times> string \<times> string) option"
  pk_purgeVolumes :: bool
  pk_questions :: "questions_dialog option"
  pk_info :: "json obj"
  pk_manifest :: manifest_dialog
  pk_versionSelect :: "version_dialog option"
  pk_volumeReuse :: "volume_dialog option"
  pk_preview :: "json obj"
  pk_repoDialog :: bool
  pk_deleteRepoConfirm :: "string option"
  pk_refreshing :: bool

type_synonym 'w handler = "('w packages_page, js_error, unit) eff"

section \<open>The progress toast\<close>

definition showProgress :: "string \<Rightarrow> 'w handler" where
  "showProgress action =
     (let title = (if action = ''install'' then ''progress.title_installing''
                   else if action = ''uninstall'' then ''progress.title_uninstalling''
                   else ''progress.title_refreshing'')
      in show_toast (Loading ''progress.starting'' (Some title)))"

definition updateProgress :: "json \<Rightarrow> toast" where
  "updateProgress step = Loading (''progress.'' @ js_string step) None"

definition dismissProgress :: "'w handler" where
  "dismissProgress = show_toast Dismissed"

text \<open>\<open>await readProgressStream(resp, updateProgress)\<close>\<close>

definition follow_progress :: "response \<Rightarrow> 'w handler" where
  "follow_progress resp =
     (let (steps, r) = readProgressStream resp
      in eff_seq (page_set (\<lambda>pg. pg\<lparr>pg_log := pg_log pg @ map updateProgress steps\<rparr>)) (eff_lift r))"

section \<open>What is installed\<close>

definition package_key :: "json \<Rightarrow> string" where
  "package_key pkg = js_string (js_opt_prop pkg ''repo'') @ ''/'' @ js_string (js_opt_prop pkg ''name'')"

definition installedMap :: "json list \<Rightarrow> json obj" where
  "installedMap packages =
     foldl (\<lambda>m pkg. if truthy (js_opt_prop pkg ''installed'')
                    then obj_set m (package_key pkg) (json_or (js_opt_prop pkg ''installed_version'') (JStr []))
                    else m) [] packages"

definition installedVersion :: "json list \<Rightarrow> json \<Rightarrow> json" where
  "installedVersion packages row =
     (if js_opt_prop row ''installed'' \<noteq> JUndefined
      then (if \<not> truthy (js_opt_prop row ''installed'') then JNull
            else json_or (js_opt_prop row ''installed_version'') (JStr []))
      else (case obj_get (installedMap packages) (package_key row) of Some v \<Rightarrow> v | None \<Rightarrow> JNull))"

definition hasUpgrade :: "json list \<Rightarrow> json \<Rightarrow> bool" where
  "hasUpgrade packages row =
     (let instVer = installedVersion packages row
      in instVer \<noteq> JNull \<and> instVer \<noteq> JStr [] \<and> instVer \<noteq> js_opt_prop row ''version'')"

section \<open>Installing\<close>

definition handleInstall ::
  "'w env \<Rightarrow> string \<Rightarrow> string \<Rightarrow> string \<Rightarrow> bool \<Rightarrow> string option \<Rightarrow> 'w handler"
where
  "handleInstall env repo name version reuseVolumes importFromVersion =
     eff_catch
       (eff_bind (api (\<lambda>c. getPackageQuestionsByIdentity (en_net env) c repo name version)) (\<lambda>questions.
        eff_bind (eff_catch (api (\<lambda>c. getResponses (en_net env) c repo name version))
                    (\<lambda>_. eff_return (JObj []))) (\<lambda>existingResponses.
        eff_bind (if \<not> truthy existingResponses \<or> js_keys existingResponses = []
                  then eff_catch (api (\<lambda>c. getLastResponses (en_net env) c repo name))
                         (\<lambda>_. eff_return (JObj []))
                  else eff_return (JObj [])) (\<lambda>lastResponses.
        let mergedResponses = obj_spread (obj_spread [] (own_fields lastResponses)) (own_fields existingResponses)
        in if truthy questions \<and> js_keys questions \<noteq> []
           then page_set (\<lambda>pg. pg\<lparr>pk_questions := Some
                  \<lparr>qd_repo = repo, qd_name = name, qd_version = version, qd_questions = questions,
                   qd_responses = mergedResponses, qd_fieldErrors = [], qd_clearedFields = [],
                   qd_reuseVolumes = reuseVolumes, qd_importFrom = importFromVersion\<rparr>\<rparr>)
           else block
             [showProgress ''install'',
              eff_finally
                (eff_bind (api (\<lambda>c. installPackageStream (en_net env) c repo name version (JObj [])
                    reuseVolumes importFromVersion None)) (\<lambda>resp.
                 block [follow_progress resp, dismissProgress,
                        show_toast (Success ''packages.toast_installed''), doRefresh]))
                dismissProgress]))))
       (toast_error env)"

definition handleCheckVolumes ::
  "'w env \<Rightarrow> string \<Rightarrow> string \<Rightarrow> string \<Rightarrow> string option \<Rightarrow> 'w handler"
where
  "handleCheckVolumes env repo name version importFromVersion =
     eff_catch
       (eff_bind (api (\<lambda>c. listUninstalledVolumes (en_net env) c repo name)) (\<lambda>volInfo.
        eff_bind (case js_prop volInfo ''has_uninstalled_volumes'' of
                    None \<Rightarrow> eff_throw TypeErr | Some v \<Rightarrow> eff_return (truthy v)) (\<lambda>has.
        if has
        then page_set (\<lambda>pg. pg\<lparr>pk_volumeReuse := Some
               \<lparr>vd_repo = repo, vd_name = name, vd_version = version, vd_importFrom = importFromVersion,
                vd_uninstalled = json_or (js_opt_prop volInfo ''uninstalled_versions'') (JArr [])\<rparr>\<rparr>)
        else handleInstall env repo name version False importFromVersion)))
       (\<lambda>_. handleInstall env repo name version False importFromVersion)"

definition handleShowPreview :: "'w env \<Rightarrow> string \<Rightarrow> string \<Rightarrow> string \<Rightarrow> 'w handler" where
  "handleShowPreview env repo name version =
     eff_catch
       (eff_bind (api (\<lambda>c. installPreview (en_net env) c repo name version)) (\<lambda>preview.
        page_set (\<lambda>pg. pg\<lparr>pk_preview := obj_spread [(''open'', JBool True)] (own_fields preview)\<rparr>)))
       (\<lambda>_. handleCheckVolumes env repo name version None)"

definition handleStartInstall :: "'w env \<Rightarrow> string \<Rightarrow> string \<Rightarrow> string \<Rightarrow> 'w handler" where
  "handleStartInstall env repo name latestVersion =
     eff_catch
       (eff_bind (api (\<lambda>c. listPackageVersions (en_net env) c name)) (\<lambda>versions.
        if length (elements versions) > 1
        then page_set (\<lambda>pg. pg\<lparr>pk_versionSelect := Some
               \<lparr>sd_repo = repo, sd_name = name, sd_versions = versions, sd_selected = latestVersion\<rparr>\<rparr>)
        else handleShowPreview env repo name latestVersion))
       (toast_error env)"

text \<open>The buttons of the dialogs; their arguments are the fields of the dialog they close.\<close>

definition onSelectVersion :: "string \<Rightarrow> 'w handler" where
  "onSelectVersion v =
     page_set (\<lambda>pg. pg\<lparr>pk_versionSelect := map_option (\<lambda>d. d\<lparr>sd_selected := v\<rparr>) (pk_versionSelect pg)\<rparr>)"





definition onClearField :: "string \<Rightarrow> 'w handler" where
  "onClearField key =
     page_set (\<lambda>pg. pg\<lparr>pk_questions :=
       map_option (\<lambda>d. d\<lparr>qd_clearedFields := obj_set (qd_clearedFields d) key True\<rparr>) (pk_questions pg)\<rparr>)"

section \<open>Installing with answers\<close>

text \<open>\<open>form\<close> is \<open>form[key]?.value\<close> of the submitted form.\<close>

definition collect_responses :: "(string \<Rightarrow> string option) \<Rightarrow> string list \<Rightarrow> json obj" where
  "collect_responses form keys = foldl (\<lambda>m key. obj_set m key (JStr (str_or (form key) []))) [] keys"

definition field_errors :: "json list \<Rightarrow> js_error + json obj" where
  "field_errors verrs =
     foldl (\<lambda>acc ve. case acc of Inl e \<Rightarrow> Inl e | Inr m \<Rightarrow>
              (case (js_prop ve ''name'', js_prop ve ''error'') of
                 (Some n, Some e) \<Rightarrow> Inr (obj_set m (js_string n) e)
               | _ \<Rightarrow> Inl TypeErr)) (Inr []) verrs"

definition validation_errors :: "js_error \<Rightarrow> json list" where
  "validation_errors err =
     (case err of ApiErr e \<Rightarrow> elements (js_opt_prop (ae_problem e) ''validation_errors'') | _ \<Rightarrow> [])"

definition handleInstallWithResponses :: "'w env \<Rightarrow> (string \<Rightarrow> string option) \<Rightarrow> 'w handler" where
  "handleInstallWithResponses env form =
     eff_bind (page_read pk_questions) (\<lambda>questionsDialog.
       case questionsDialog of
         None \<Rightarrow> eff_throw TypeErr
       | Some savedDialog \<Rightarrow>
           eff_bind (eff_lift (object_keys (qd_questions savedDialog))) (\<lambda>keys.
           let responses = collect_responses form keys;
               network = str_or (form ''__network__'') []
           in block
             [page_set (\<lambda>pg. pg\<lparr>pk_questions := None\<rparr>),
              showProgress ''install'',
              eff_finally
                (eff_catch
                  (eff_bind (api (\<lambda>c. installPackageStream (en_net env) c (qd_repo savedDialog)
                      (qd_name savedDialog) (qd_version savedDialog) (JObj responses)
                      (qd_reuseVolumes savedDialog) (qd_importFrom savedDialog) (Some network))) (\<lambda>resp.
                   block [follow_progress resp, dismissProgress,
                          show_toast (Success ''packages.toast_installed''), doRefresh]))
                  (\<lambda>err. eff_seq dismissProgress
                     (let verrs = validation_errors err
                      in if verrs \<noteq> []
                         then eff_bind (eff_lift (field_errors verrs)) (\<lambda>fieldErrors.
                           block [page_set (\<lambda>pg. pg\<lparr>pk_questions := Some (savedDialog\<lparr>qd_fieldErrors := fieldErrors\<rparr>)\<rparr>),
                                  show_toast (FailureKey ''packages.toast_fix_fields'')])
                         else toast_error env err)))
                dismissProgress]))"

definition handleUninstall :: "'w env \<Rightarrow> 'w handler" where
  "handleUninstall env =
     eff_bind (page_read (\<lambda>pg. (pk_uninstallConfirm pg, pk_purgeVolumes pg))) (\<lambda>(confirm, shouldPurge).
       case confirm of
         None \<Rightarrow> eff_throw TypeErr
       | Some (repo, name, version) \<Rightarrow>
           block
             [page_set (\<lambda>pg. pg\<lparr>pk_uninstallConfirm := None\<rparr>),
              showProgress ''uninstall'',
              eff_finally
                (eff_catch
                  (eff_bind (api (\<lambda>c. uninstallPackageStream (en_net env) c repo name version shouldPurge)) (\<lambda>resp.
                   block [follow_progress resp, dismissProgress,
                          show_toast (Success (if shouldPurge then ''packages.toast_uninstalled_purged''
                                               else ''packages.toast_uninstalled'')), doRefresh]))
                  (toast_error env))
                dismissProgress])"

text \<open>A click on the status badge of a row, and on the uninstall entry of its menu.\<close>

definition askUninstall :: "json list \<Rightarrow> json \<Rightarrow> 'w handler" where
  "askUninstall packages row =
     page_set (\<lambda>pg. pg\<lparr>pk_purgeVolumes := False,
       pk_uninstallConfirm := Some
         (js_string (js_opt_prop row ''repo''), js_string (js_opt_prop row ''name''),
          js_string (json_or (installedVersion packages row) (js_opt_prop row ''version'')))\<rparr>)"

definition clickStatus :: "'w env \<Rightarrow> json list \<Rightarrow> json \<Rightarrow> 'w handler" where
  "clickStatus env packages row =
     (if installedVersion packages row \<noteq> JNull then askUninstall packages row
      else handleStartInstall env (js_string (js_opt_prop row ''repo''))
             (js_string (js_opt_prop row ''name'')) (js_string (js_opt_prop row ''version'')))"

section \<open>Information and manifest\<close>


definition closed_manifest :: manifest_dialog where
  "closed_manifest = \<lparr>mf_open = False, mf_identity = None, mf_content = JUndefined\<rparr>"

definition manifest_requested :: "string \<Rightarrow> string \<Rightarrow> string \<Rightarrow> 'w handler" where
  "manifest_requested repo name version =
     page_set (\<lambda>pg. pg\<lparr>pk_manifest :=
       \<lparr>mf_open = True, mf_identity = Some (repo, name, version), mf_content = JNull\<rparr>\<rparr>)"

definition manifest_answered :: "'w env \<Rightarrow> js_error + string \<Rightarrow> 'w handler" where
  "manifest_answered env r =
     (case r of
        Inr content \<Rightarrow> page_set (\<lambda>pg. pg\<lparr>pk_manifest := (pk_manifest pg)\<lparr>mf_content := JStr content\<rparr>\<rparr>)
      | Inl err \<Rightarrow> block [toast_error env err, page_set (\<lambda>pg. pg\<lparr>pk_manifest := closed_manifest\<rparr>)])"

definition manifest_closed :: "'w handler" where
  "manifest_closed = page_set (\<lambda>pg. pg\<lparr>pk_manifest := closed_manifest\<rparr>)"


section \<open>Repositories\<close>




definition handleMoveRepo :: "'w env \<Rightarrow> string \<Rightarrow> int \<Rightarrow> 'w handler" where
  "handleMoveRepo env name position =
     eff_catch (block [api (\<lambda>c. moveRepository (en_net env) c name position), doRefresh]) (toast_error env)"

text \<open>
  The two arrows of a row of the repository table: the position sent is counted in the
  repositories of the page shown.  The table lists them in reverse, so the arrow up
  moves a repository towards the end of the list.
\<close>

definition find_index :: "('a \<Rightarrow> bool) \<Rightarrow> 'a list \<Rightarrow> int" where
  "find_index p xs = (let n = length (takeWhile (Not \<circ> p) xs) in if n < length xs then int n else -1)"

definition displayRepos :: "'a list \<Rightarrow> 'a list" where
  "displayRepos repositories = rev repositories"

definition move_up_enabled :: "string list \<Rightarrow> string \<Rightarrow> bool" where
  "move_up_enabled repositories name \<longleftrightarrow>
     \<not> (find_index (\<lambda>r. r = name) repositories \<ge> int (length repositories) - 1)"

definition move_up :: "'w env \<Rightarrow> string list \<Rightarrow> string \<Rightarrow> 'w handler" where
  "move_up env repositories name =
     handleMoveRepo env name (find_index (\<lambda>r. r = name) repositories + 1)"

definition move_down_enabled :: "string list \<Rightarrow> string \<Rightarrow> bool" where
  "move_down_enabled repositories name \<longleftrightarrow> \<not> (find_index (\<lambda>r. r = name) repositories \<le> 0)"

definition move_down :: "'w env \<Rightarrow> string list \<Rightarrow> string \<Rightarrow> 'w handler" where
  "move_down env repositories name =
     handleMoveRepo env name (find_index (\<lambda>r. r = name) repositories - 1)"

text \<open>What the server does with the position (\<^verbatim>\<open>RepositoryRoot.Move\<close>).\<close>

definition repository_Move :: "string \<Rightarrow> int \<Rightarrow> string list \<Rightarrow> string list option" where
  "repository_Move name position items =
     (let idx = find_index (\<lambda>r. r = name) items
      in if idx = -1 then None
         else let rest = take (nat idx) items @ drop (nat idx + 1) items;
                  p = (if position < 0 then 0
                       else if position > int (length rest) then length rest else nat position)
              in Some (take p rest @ [name] @ drop p rest))"

section \<open>Lemmas\<close>

lemma wp_follow_progress [wp_simps]:
  "wp (follow_progress resp) Q s
   = Q (snd (readProgressStream resp))
       (s\<lparr>pg_log := pg_log s @ map updateProgress (fst (readProgressStream resp))\<rparr>)"
  by (simp add: follow_progress_def wp_simps split: prod.split)

lemma wp_dismissProgress [wp_simps]:
  "wp dismissProgress Q s = Q (Inr ()) (s\<lparr>pg_log := pg_log s @ [Dismissed]\<rparr>)"
  by (simp add: dismissProgress_def wp_simps)



lemmas run_handler = wp_simps progress_shown_def showProgress_def Let_def







lemma progress_updates [simp]: "progress_after True (map updateProgress xs) = True"
  by (induction xs) (simp_all add: updateProgress_def)


definition is_install :: "string \<Rightarrow> request \<Rightarrow> bool" where
  "is_install base rq \<longleftrightarrow> rq_url rq = base @ ''/packages/install''"

definition body_text :: "json \<Rightarrow> body" where
  "body_text v = (case json_stringify v of None \<Rightarrow> NoBody | Some s \<Rightarrow> TextBody s)"

text \<open>Nothing but the last of the requests installs, and if it does, it has this body.\<close>

fun installs_last :: "string \<Rightarrow> json \<Rightarrow> request list \<Rightarrow> bool" where
  "installs_last base body [] = True"
| "installs_last base body [rq] = (is_install base rq \<longrightarrow> rq_body rq = body_text body)"
| "installs_last base body (rq # rqs) = (\<not> is_install base rq \<and> installs_last base body rqs)"

lemma is_install_post [simp]:
  "is_install base (post_request c path body) = (baseURL c @ path = base @ ''/packages/install'')"
  by (simp add: is_install_def)

lemma post_request_body [simp]: "rq_body (post_request c path body) = body_text body"
  by (simp add: post_request_def body_text_def)

text \<open>The handler extends the history, and what it adds installs at most once and last.\<close>

definition history :: "(request list \<Rightarrow> bool) \<Rightarrow> request list packages_page \<Rightarrow> request list packages_page \<Rightarrow> bool" where
  "history P pg pg' \<longleftrightarrow>
     baseURL (pg_client pg') = baseURL (pg_client pg) \<and> (\<exists>new. pg_net pg' = pg_net pg @ new \<and> P new)"

definition prepares :: "request list packages_page \<Rightarrow> request list packages_page \<Rightarrow> bool" where
  "prepares pg = history (list_all (\<lambda>rq. \<not> is_install (baseURL (pg_client pg)) rq)) pg"

definition adds_install :: "json \<Rightarrow> request list packages_page \<Rightarrow> request list packages_page \<Rightarrow> bool" where
  "adds_install body pg = history (installs_last (baseURL (pg_client pg)) body) pg"

lemma history_frame:
  "pg_net s = pg_net s' \<Longrightarrow> pg_client s = pg_client s' \<Longrightarrow> history P pg s = history P pg s'"
  by (simp add: history_def)

lemma history_updates [simp]:
  "history P pg (s\<lparr>pg_log := x\<rparr>) = history P pg s"
  "history P pg (s\<lparr>pg_refreshKey := n\<rparr>) = history P pg s"
  "history P pg (s\<lparr>pk_questions := q\<rparr>) = history P pg s"
  "history P pg (s\<lparr>pk_preview := p\<rparr>) = history P pg s"
  "history P pg (s\<lparr>pk_versionSelect := v\<rparr>) = history P pg s"
  "history P pg (s\<lparr>pk_volumeReuse := u\<rparr>) = history P pg s"
  by (simp_all add: history_def)

lemma prepares_refl [simp]: "prepares pg pg"
  by (simp add: prepares_def history_def)









lemma frame_prepares [simp]:
  "prepares pg (s\<lparr>pg_log := x\<rparr>) = prepares pg s" "prepares pg (s\<lparr>pk_preview := p\<rparr>) = prepares pg s"
  "prepares pg (s\<lparr>pk_versionSelect := v\<rparr>) = prepares pg s"
  "prepares pg (s\<lparr>pk_volumeReuse := u\<rparr>) = prepares pg s"
  "prepares pg (s\<lparr>pk_questions := q\<rparr>) = prepares pg s"
  by (simp_all add: prepares_def)

lemma frame_installs [simp]:
  "adds_install b pg (s\<lparr>pg_log := x\<rparr>) = adds_install b pg s"
  "adds_install b pg (s\<lparr>pg_refreshKey := n\<rparr>) = adds_install b pg s"
  by (simp_all add: adds_install_def)











text \<open>A call that answers the same in every state of the network.\<close>

definition answers :: "('w, js_error, 'a) eff \<Rightarrow> js_error + 'a \<Rightarrow> bool" where
  "answers m r \<longleftrightarrow> (\<forall>w. fst (m w) = r)"

lemma wp_answers:
  assumes "getClient (pg_storage s) (pg_client s) = c" "answers (f c) r"
    and "\<And>w. Q r (s\<lparr>pg_client := c, pg_net := w\<rparr>)"
  shows "wp (api f) Q s"
proof -
  have "fst (f (getClient (pg_storage s) (pg_client s)) (pg_net s)) = r"
    using assms(1,2) by (simp add: answers_def)
  then show ?thesis
    using assms(1,3) by (auto simp: wp_def api_def Let_def split: prod.split)
qed

definition answer_fields :: "js_error + json \<Rightarrow> json obj" where
  "answer_fields r = (case r of Inl _ \<Rightarrow> [] | Inr v \<Rightarrow> own_fields v)"

text \<open>A page for the examples.\<close>

definition sample_page :: "'w \<Rightarrow> 'w packages_page" where
  "sample_page w =
     \<lparr>pg_net = w, pg_storage = \<lparr>st_local = Map.empty, st_session = Map.empty\<rparr>, pg_client = newClient ''http://box:5309'', pg_log = [],
      pg_refreshKey = 0, pk_uninstallConfirm = None, pk_purgeVolumes = False, pk_questions = None,
      pk_info = [(''open'', JBool False)], pk_manifest = closed_manifest, pk_versionSelect = None,
      pk_volumeReuse = None, pk_preview = [(''open'', JBool False)], pk_repoDialog = False,
      pk_deleteRepoConfirm = None, pk_refreshing = False\<rparr>"

section \<open>Properties\<close>







text \<open>The questions dialog opens on what is known: on the answers of the current install when
  there are any, and else on the last answers given, each question under its own key; an
  answer the server cannot give is as good as none.\<close>

theorem questions_prefilled:
  assumes "c = getClient (pg_storage pg) (pg_client pg)"
    and "answers (getPackageQuestionsByIdentity (en_net env) c repo name version) (Inr questions)"
    and "answers (getResponses (en_net env) c repo name version) current"
    and "answers (getLastResponses (en_net env) c repo name) former"
    and "truthy questions" "js_keys questions \<noteq> []"
    and "distinct (map fst (answer_fields current))" "distinct (map fst (answer_fields former))"
    and "handleInstall env repo name version reuse importFrom pg = (r, pg')"
  shows "\<exists>d. pk_questions pg' = Some d \<and> qd_questions d = questions \<and> qd_fieldErrors d = [] \<and>
    (qd_repo d, qd_name d, qd_version d, qd_reuseVolumes d, qd_importFrom d)
      = (repo, name, version, reuse, importFrom) \<and>
    map_of (qd_responses d)
      = map_of (if answer_fields current \<noteq> [] then answer_fields current else answer_fields former) \<and>
    pg_log pg' = pg_log pg"
proof -
  note calls =
    wp_answers [where c = c and f = "\<lambda>c. getPackageQuestionsByIdentity (en_net env) c repo name version", OF _ assms(2)]
    wp_answers [where c = c and f = "\<lambda>c. getResponses (en_net env) c repo name version", OF _ assms(3)]
    wp_answers [where c = c and f = "\<lambda>c. getLastResponses (en_net env) c repo name", OF _ assms(4)]
  have same: "getClient (pg_storage pg) c = c" using assms(1) by simp
  have own: "answer_fields (Inr v) = own_fields v" "answer_fields (Inl e) = []" "own_fields (JObj []) = []" for v e
    by (simp_all add: answer_fields_def own_fields_def)
  have keys: "js_keys v = [] \<longleftrightarrow> own_fields v = []" for v
    by (simp add: js_keys_def)
  have falsy: "\<not> truthy v \<Longrightarrow> own_fields v = []" for v
    by (cases v) (auto simp: own_fields_def)
  have "wp (handleInstall env repo name version reuse importFrom) (\<lambda>r pg'. \<exists>d. pk_questions pg' = Some d \<and>
    qd_questions d = questions \<and> qd_fieldErrors d = [] \<and>
    (qd_repo d, qd_name d, qd_version d, qd_reuseVolumes d, qd_importFrom d)
      = (repo, name, version, reuse, importFrom) \<and>
    map_of (qd_responses d)
      = map_of (if answer_fields current \<noteq> [] then answer_fields current else answer_fields former) \<and>
    pg_log pg' = pg_log pg) pg"
    unfolding handleInstall_def
    using assms(5-8) assms(1) [symmetric] same
    by (cases current; cases former)
      (auto simp: wp_simps Let_def own keys falsy map_of_obj_spread intro!: calls split: sum.split)
  then show ?thesis using assms(9) by (rule wpD)
qed

definition sample_client :: client where
  "sample_client = newClient ''http://box:5309''"

definition sample_env :: "unit env" where
  "sample_env =
     \<lparr>en_net = (\<lambda>rq w. (Inr \<lparr>rs_status = 200,
        rs_chunks = [if rq_url rq = ''http://box:5309/packages/questions/identity'' then ''{\"port\":{}}''
                     else if rq_url rq = ''http://box:5309/packages/responses'' then ''{}''
                     else ''{\"port\":\"8080\"}''], rs_broken = False\<rparr>, w)),
      en_message = (\<lambda>_. [])\<rparr>"

lemma sample_answers:
  "answers (getPackageQuestionsByIdentity (en_net sample_env) sample_client ''core'' ''nginx'' ''1.2'')
     (Inr (JObj [(''port'', JObj [])]))"
  "answers (getResponses (en_net sample_env) sample_client ''core'' ''nginx'' ''1.2'') (Inr (JObj []))"
  "answers (getLastResponses (en_net sample_env) sample_client ''core'' ''nginx'')
     (Inr (JObj [(''port'', JStr ''8080'')]))"
  unfolding answers_def by code_simp+

theorem questions_prefilled_witness:
  "\<exists>d. pk_questions (snd (handleInstall sample_env ''core'' ''nginx'' ''1.2'' False None (sample_page ()))) = Some d \<and>
     map_of (qd_responses d) ''port'' = Some (JStr ''8080'')"
proof -
  have c: "sample_client = getClient (pg_storage (sample_page ())) (pg_client (sample_page ()))"
    by (simp add: sample_client_def sample_page_def getClient_def getToken_def)
  show ?thesis
    using questions_prefilled [OF c sample_answers _ _ _ _ prod.collapse [symmetric],
        where reuse = False and importFrom = None]
    by (fastforce simp: js_keys_def own_fields_def answer_fields_def)
qed

text \<open>C9: The answers given in the questions dialog are installed with; when the server finds
  faults in them the dialog opens again, as it was before they were given, with the error
  of each field and the answers lost; any other error is shown; and only a completed
  install is reported as one.\<close>

theorem submit_outcome:
  assumes "pk_questions pg = Some d" "object_keys (qd_questions d) = Inr keys"
    and "c = getClient (pg_storage pg) (pg_client pg)"
    and "installPackageStream (en_net env) c (qd_repo d) (qd_name d) (qd_version d)
      (JObj (collect_responses form keys)) (qd_reuseVolumes d) (qd_importFrom d)
      (Some (str_or (form ''__network__'') [])) (pg_net pg) = (resp, w)"
    and "handleInstallWithResponses env form pg = (r, pg')"
    and "outcome = (case resp of Inl e \<Rightarrow> Inl e | Inr rs \<Rightarrow> snd (readProgressStream rs))"
  shows "(outcome = Inr () \<longrightarrow> r = Inr () \<and> pk_questions pg' = None \<and>
      pg_refreshKey pg' = pg_refreshKey pg + 1 \<and> Success ''packages.toast_installed'' \<in> set (pg_log pg')) \<and>
    (\<forall>err fe. outcome = Inl err \<and> validation_errors err \<noteq> [] \<and> field_errors (validation_errors err) = Inr fe
      \<longrightarrow> r = Inr () \<and> pk_questions pg' = Some (d\<lparr>qd_fieldErrors := fe\<rparr>) \<and> pg_refreshKey pg' = pg_refreshKey pg) \<and>
    (\<forall>err. outcome = Inl err \<and> validation_errors err = []
      \<longrightarrow> r = Inr () \<and> pk_questions pg' = None \<and> pg_refreshKey pg' = pg_refreshKey pg \<and>
        Failure (error_text (en_message env) err) \<in> set (pg_log pg')) \<and>
    \<not> progress_shown pg'"
proof -
  note call = wp_api_exact [where f = "\<lambda>c. installPackageStream (en_net env) c (qd_repo d) (qd_name d) (qd_version d)
      (JObj (collect_responses form keys)) (qd_reuseVolumes d) (qd_importFrom d)
      (Some (str_or (form ''__network__'') []))" and r = resp and w = w, THEN iffD2]
  have "wp (handleInstallWithResponses env form) (\<lambda>r pg'.
    (outcome = Inr () \<longrightarrow> r = Inr () \<and> pk_questions pg' = None \<and>
      pg_refreshKey pg' = pg_refreshKey pg + 1 \<and> Success ''packages.toast_installed'' \<in> set (pg_log pg')) \<and>
    (\<forall>err fe. outcome = Inl err \<and> validation_errors err \<noteq> [] \<and> field_errors (validation_errors err) = Inr fe
      \<longrightarrow> r = Inr () \<and> pk_questions pg' = Some (d\<lparr>qd_fieldErrors := fe\<rparr>) \<and> pg_refreshKey pg' = pg_refreshKey pg) \<and>
    (\<forall>err. outcome = Inl err \<and> validation_errors err = []
      \<longrightarrow> r = Inr () \<and> pk_questions pg' = None \<and> pg_refreshKey pg' = pg_refreshKey pg \<and>
        Failure (error_text (en_message env) err) \<in> set (pg_log pg')) \<and>
    \<not> progress_shown pg') pg"
    unfolding handleInstallWithResponses_def
    using assms(1,2,3,4,6)
    by (cases resp) (auto simp: run_handler intro!: call split: sum.split)
  then show ?thesis using assms(5) by (rule wpD)
qed

definition rejecting_env :: "unit env" where
  "rejecting_env =
     \<lparr>en_net = (\<lambda>rq w. (Inr \<lparr>rs_status = 422,
        rs_chunks = [''{\"type\":\"v\",\"status\":422,\"validation_errors\":[{\"name\":\"port\",\"error\":\"busy\"}]}''],
        rs_broken = False\<rparr>, w)),
      en_message = (\<lambda>_. [])\<rparr>"

definition sample_dialog :: questions_dialog where
  "sample_dialog =
     \<lparr>qd_repo = ''core'', qd_name = ''nginx'', qd_version = ''1.2'', qd_questions = JObj [(''port'', JObj [])],
      qd_responses = [], qd_fieldErrors = [], qd_clearedFields = [], qd_reuseVolumes = False,
      qd_importFrom = None\<rparr>"

definition rejection :: js_error where
  "rejection = ApiErr (makeApiError ''POST'' ''/packages/install'' 422
     ''{\"type\":\"v\",\"status\":422,\"validation_errors\":[{\"name\":\"port\",\"error\":\"busy\"}]}'')"

lemma rejection_errors:
  "validation_errors rejection = [JObj [(''name'', JStr ''port''), (''error'', JStr ''busy'')]]"
  by code_simp

lemma rejecting_install:
  "installPackageStream (en_net rejecting_env) c repo name version responses reuse importFrom network ()
   = (Inl rejection, ())"
  by (simp add: installPackageStream_def post_def rejecting_env_def eff_bind_def eff_lift_def check_status_def
      rejection_def response_text_or_empty_def response_text_def)

theorem submit_outcome_witness:
  "pk_questions (snd (handleInstallWithResponses rejecting_env (\<lambda>k. Some ''8080'')
       ((sample_page ())\<lparr>pk_questions := Some sample_dialog\<rparr>)))
   = Some (sample_dialog\<lparr>qd_fieldErrors := [(''port'', JStr ''busy'')]\<rparr>)"
  using submit_outcome [OF _ _ refl _ prod.collapse [symmetric] refl,
      of "(sample_page ())\<lparr>pk_questions := Some sample_dialog\<rparr>" sample_dialog "[''port'']" rejecting_env
        "\<lambda>k. Some ''8080''" "Inl rejection" "()"]
  by (simp add: rejecting_install rejection_errors sample_dialog_def object_keys_def js_nullish_def js_keys_def
      own_fields_def field_errors_def js_prop_def)

text \<open>A manifest that arrives late is not told from the one being waited for: when the dialog
  was closed and opened again for another package meanwhile, the late answer is shown
  under that package's name, and a late failure closes its dialog.\<close>

theorem late_manifest_misplaced:
  assumes "block [manifest_requested r1 n1 v1, manifest_closed, manifest_requested r2 n2 v2,
      manifest_answered env (Inr own), manifest_answered env late] pg = (r, pg')"
  shows "r = Inr () \<and>
    (case late of
       Inr other \<Rightarrow> pk_manifest pg' = \<lparr>mf_open = True, mf_identity = Some (r2, n2, v2), mf_content = JStr other\<rparr>
     | Inl err \<Rightarrow> pk_manifest pg' = closed_manifest)"
proof -
  have "wp (block [manifest_requested r1 n1 v1, manifest_closed, manifest_requested r2 n2 v2,
      manifest_answered env (Inr own), manifest_answered env late])
    (\<lambda>r pg'. r = Inr () \<and>
    (case late of
       Inr other \<Rightarrow> pk_manifest pg' = \<lparr>mf_open = True, mf_identity = Some (r2, n2, v2), mf_content = JStr other\<rparr>
     | Inl err \<Rightarrow> pk_manifest pg' = closed_manifest)) pg"
    by (cases late) (simp_all add: wp_simps manifest_requested_def manifest_closed_def manifest_answered_def)
  then show ?thesis using assms by (rule wpD)
qed

theorem late_manifest_misplaced_witness:
  "pk_manifest (snd (block [manifest_requested ''a'' ''x'' ''1'', manifest_closed, manifest_requested ''b'' ''y'' ''2'',
      manifest_answered sample_env (Inr ''of y''), manifest_answered sample_env (Inr ''of x'')] (sample_page ())))
   = \<lparr>mf_open = True, mf_identity = Some (''b'', ''y'', ''2''), mf_content = JStr ''of x''\<rparr>"
  using late_manifest_misplaced [OF prod.collapse [symmetric], where late = "Inr ''of x''"] by fastforce

lemma find_index_nth:
  assumes "distinct xs" "k < length xs"
  shows "find_index (\<lambda>r. r = xs ! k) xs = int k"
proof -
  have "takeWhile (Not \<circ> (\<lambda>r. r = xs ! k)) xs = take k xs"
    using assms by (intro takeWhile_eq_take_P_nth) (auto simp: nth_eq_iff_index_eq)
  then show ?thesis using assms(2) by (simp add: find_index_def)
qed

lemma Move_nth:
  assumes "distinct items" "k < length items" "p < length items"
  shows "repository_Move (items ! k) (int p) items
    = Some (let rest = take k items @ drop (Suc k) items in take p rest @ [items ! k] @ drop p rest)"
proof -
  have "length (take k items @ drop (Suc k) items) = length items - 1" using assms(2) by simp
  then show ?thesis
    using assms by (auto simp: repository_Move_def find_index_nth Let_def Suc_nat_eq_nat_zadd1 nat_add_distrib)
qed

lemma swap_next:
  assumes "Suc k < length xs"
  shows "(let rest = take k xs @ drop (Suc k) xs in take (Suc k) rest @ [xs ! k] @ drop (Suc k) rest)
    = xs[k := xs ! Suc k, Suc k := xs ! k]"
proof -
  have "drop (Suc k) xs = xs ! Suc k # drop (Suc (Suc k)) xs"
    using assms by (simp add: Cons_nth_drop_Suc)
  moreover have "xs[k := xs ! Suc k, Suc k := xs ! k] = take k xs @ [xs ! Suc k, xs ! k] @ drop (Suc (Suc k)) xs"
    using assms by (simp add: upd_conv_take_nth_drop take_update_swap min_def nth_append Cons_nth_drop_Suc)
  ultimately show ?thesis using assms by (simp add: Let_def)
qed

text \<open>The arrow up of a repository moves it one place on the first page of the unsorted
  table; on a later page the place sent is still counted from the top of the page, so the
  repository jumps to that place of the whole list.\<close>

theorem move_up_effect:
  assumes "distinct items" "shown = take 20 (drop (20 * p) items)" "Suc k < length shown"
    and "name = shown ! k"
  shows "move_up_enabled shown name \<and> move_up env shown name = handleMoveRepo env name (int (Suc k)) \<and>
    (p = 0 \<longrightarrow> repository_Move name (int (Suc k)) items
       = Some (items[k := items ! Suc k, Suc k := items ! k])) \<and>
    (\<exists>items'. repository_Move name (int (Suc k)) items = Some items' \<and> items' ! Suc k = name)"
proof -
  have d: "distinct shown" using assms(1,2) by simp
  then have f: "find_index (\<lambda>r. r = name) shown = int k"
    using assms(3,4) find_index_nth [of shown k] by simp
  have k: "20 * p + Suc k < length items" and n: "name = items ! (20 * p + k)"
    using assms by (auto simp: nth_append)
  have m: "repository_Move name (int (Suc k)) items
      = Some (let rest = take (20 * p + k) items @ drop (Suc (20 * p + k)) items
              in take (Suc k) rest @ [name] @ drop (Suc k) rest)"
    using Move_nth [OF assms(1), of "20 * p + k" "Suc k"] k n by simp
  have len: "Suc k \<le> length (take (20 * p + k) items @ drop (Suc (20 * p + k)) items)"
    using k by simp
  show ?thesis
    using f m len k n assms(3) swap_next [of k items]
    by (auto simp: move_up_enabled_def move_up_def Let_def nth_append add.commute [of "int k"])
qed

theorem move_up_effect_witness:
  "repository_Move ''k1'' 1 (map (\<lambda>i. CHR ''k'' # nat_str i) [0..<25])
     \<noteq> None \<and>
   move_up_enabled (take 20 (drop 20 (map (\<lambda>i. CHR ''k'' # nat_str i) [0..<25]))) ''k20''"
proof -
  let ?items = "map (\<lambda>i. CHR ''k'' # nat_str i) [0..<25]"
  have d: "distinct ?items" by (simp add: distinct_map inj_on_def)
  have n: "''k20'' = take 20 (drop (20 * 1) ?items) ! 0" "''k1'' = take 20 (drop (20 * 0) ?items) ! 1"
    by code_simp+
  show ?thesis
    using move_up_effect [OF d refl _ n(1)] move_up_effect [OF d refl _ n(2)] Move_nth [OF d, of 1 1]
    by (auto simp: repository_Move_def Let_def split: if_splits)
qed

lemma key_filtered: "distinct (map f xs) \<Longrightarrow> x \<in> set xs \<Longrightarrow> \<not> P x \<Longrightarrow> f x \<notin> f ` set (filter P xs)"
  by (induction xs) (auto simp: rev_image_eqI)

lemma installedMap_snoc:
  "map_of (installedMap (packages @ [pkg]))
   = (if truthy (js_opt_prop pkg ''installed'')
      then (map_of (installedMap packages))(package_key pkg \<mapsto> json_or (js_opt_prop pkg ''installed_version'') (JStr []))
      else map_of (installedMap packages))"
  by (simp add: installedMap_def)

lemma installedMap_off:
  "k \<notin> package_key ` set (filter (\<lambda>pkg. truthy (js_opt_prop pkg ''installed'')) packages) \<Longrightarrow>
   map_of (installedMap packages) k = None"
proof (induction packages rule: rev_induct)
  case (snoc pkg packages)
  then show ?case by (auto simp: installedMap_snoc split: if_splits)
qed (simp add: installedMap_def)

lemma installedMap_on:
  "distinct (map package_key packages) \<Longrightarrow> pkg \<in> set packages \<Longrightarrow> truthy (js_opt_prop pkg ''installed'') \<Longrightarrow>
   map_of (installedMap packages) (package_key pkg) = Some (json_or (js_opt_prop pkg ''installed_version'') (JStr []))"
proof (induction packages rule: rev_induct)
  case (snoc q packages)
  then show ?case by (auto simp: installedMap_snoc image_iff)
qed simp

text \<open>In the grouped view, whose rows do not say what is installed, a row shows the installed
  version the flat list gives its package, and nothing for a package that list does not
  show as installed.\<close>

theorem installed_version_grouped:
  assumes "distinct (map package_key packages)" "js_opt_prop row ''installed'' = JUndefined"
  shows "(\<forall>pkg\<in>set packages. package_key pkg = package_key row \<and> js_opt_prop pkg ''installed'' \<noteq> JUndefined \<longrightarrow>
      installedVersion packages row = installedVersion packages pkg) \<and>
    (package_key row \<notin> package_key ` set (filter (\<lambda>pkg. truthy (js_opt_prop pkg ''installed'')) packages)
      \<longrightarrow> installedVersion packages row = JNull)"
proof -
  have "installedVersion packages row = installedVersion packages pkg"
    if "pkg \<in> set packages" "package_key pkg = package_key row" "js_opt_prop pkg ''installed'' \<noteq> JUndefined" for pkg
  proof (cases "truthy (js_opt_prop pkg ''installed'')")
    case True
    then show ?thesis
      using installedMap_on [OF assms(1) that(1)] that assms(2) by (simp add: installedVersion_def obj_get_def)
  next
    case False
    then have "package_key row \<notin> package_key ` set (filter (\<lambda>pkg. truthy (js_opt_prop pkg ''installed'')) packages)"
      unfolding that(2) [symmetric] by (intro key_filtered assms(1) that(1))
    then show ?thesis
      using installedMap_off that(3) False assms(2) by (simp add: installedVersion_def obj_get_def)
  qed
  then show ?thesis
    using installedMap_off assms(2) by (auto simp: installedVersion_def obj_get_def)
qed

theorem installed_version_grouped_witness:
  "installedVersion [JObj [(''repo'', JStr ''core''), (''name'', JStr ''nginx''), (''installed'', JBool True),
       (''installed_version'', JStr ''1.2'')]]
     (JObj [(''repo'', JStr ''core''), (''name'', JStr ''nginx'')])
   = JStr ''1.2''"
  using installed_version_grouped
    [of "[JObj [(''repo'', JStr ''core''), (''name'', JStr ''nginx''), (''installed'', JBool True),
           (''installed_version'', JStr ''1.2'')]]" "JObj [(''repo'', JStr ''core''), (''name'', JStr ''nginx'')]"]
  by (simp add: js_opt_prop_def js_prop_def package_key_def installedVersion_def [of _ "JObj (_ # _ # _ # _)"] json_or_def)

end
