(* ===== verification/InstallQuestions.thy ===== *)
theory InstallQuestions
  imports InstallFlow ClientNetwork
begin

text \<open>
  \<^verbatim>\<open>components/packages/InstallQuestionsDialog.jsx\<close>: the dialog that asks a package's
  questions.  Its state beside the page's is a record; the effects that run when the
  dialog opens, the OAuth device flow, and the value every field submits are
  definitions.  Question objects are JSON objects, as the server sends them.
\<close>

section \<open>State\<close>

text \<open>The OAuth flow of a question is the object the source keeps: status, token and so on.\<close>

record 'w question_page = "'w page" +
  iq_networks :: "json list"
  iq_exported :: "json list"
  iq_shared :: "string obj"
  iq_booleans :: "bool obj"
  iq_oauth :: "json obj obj"
  iq_cancelled :: bool
  iq_page :: nat
  iq_opened :: "json list"

definition QUESTIONS_PER_PAGE :: nat where "QUESTIONS_PER_PAGE = 5"

definition parseBoolean :: "json \<Rightarrow> bool" where
  "parseBoolean value =
     (to_lower (js_trim (if js_nullish value then [] else js_string value)) \<in> {''true'', ''t'', ''1''})"

definition question_type :: "json \<Rightarrow> json" where
  "question_type q = js_opt_prop q ''type''"

definition question_entries :: "questions_dialog \<Rightarrow> json obj" where
  "question_entries d = own_fields (json_or (qd_questions d) (JObj []))"

definition cached_answer :: "questions_dialog \<Rightarrow> string \<Rightarrow> json" where
  "cached_answer d key = (case obj_get (qd_responses d) key of Some v \<Rightarrow> v | None \<Rightarrow> JUndefined)"

section \<open>Pages of questions\<close>

fun slices :: "nat \<Rightarrow> 'a list \<Rightarrow> 'a list list" where
  "slices n xs = (if n = 0 \<or> xs = [] then [] else take n xs # slices n (drop n xs))"

declare slices.simps [simp del]

definition question_pages :: "questions_dialog \<Rightarrow> json obj list" where
  "question_pages d =
     (let ps = slices QUESTIONS_PER_PAGE (question_entries d) in if ps = [] then [[]] else ps)"

definition isLastPage :: "questions_dialog \<Rightarrow> nat \<Rightarrow> bool" where
  "isLastPage d page \<longleftrightarrow> int page \<ge> int (length (question_pages d)) - 1"

definition previous_page :: "nat \<Rightarrow> nat" where
  "previous_page p = nat (max 0 (int p - 1))"

definition next_page :: "questions_dialog \<Rightarrow> nat \<Rightarrow> nat" where
  "next_page d p = nat (min (int (length (question_pages d)) - 1) (int p + 1))"

text \<open>The page of the first question with an error.\<close>

definition error_page :: "questions_dialog \<Rightarrow> nat option" where
  "error_page d =
     (if qd_fieldErrors d = [] then None
      else (let idx = find_index (\<lambda>k. case obj_get (qd_fieldErrors d) k of Some e \<Rightarrow> truthy e | None \<Rightarrow> False)
                        (map fst (question_entries d))
            in if idx \<ge> 0 then Some (nat idx div QUESTIONS_PER_PAGE) else None))"

section \<open>Opening the dialog\<close>

definition initial_oauth :: "questions_dialog \<Rightarrow> json obj obj" where
  "initial_oauth d =
     foldl (\<lambda>m (key, question).
        if question_type question \<noteq> JStr ''oauth'' then m
        else (let cached = cached_answer d key
              in obj_set m key
                   (if truthy cached then [(''status'', JStr ''connected''), (''token'', cached)]
                    else [(''status'', JStr ''idle''), (''token'', JStr [])])))
       [] (question_entries d)"

definition initial_shared :: "questions_dialog \<Rightarrow> string obj" where
  "initial_shared d =
     foldl (\<lambda>m (key, question).
        if question_type question \<noteq> JStr ''shared_volume'' then m
        else obj_set m key (js_string (json_or (cached_answer d key) (JStr [])))) [] (question_entries d)"

definition initial_booleans :: "questions_dialog \<Rightarrow> bool obj" where
  "initial_booleans d =
     foldl (\<lambda>m (key, question).
        if question_type question \<noteq> JStr ''boolean'' then m
        else (let cached = cached_answer d key
              in obj_set m key (parseBoolean
                   (if cached = JUndefined \<or> cached = JStr [] then js_opt_prop question ''default'' else cached))))
       [] (question_entries d)"

text \<open>The effects on \<open>dialog.open\<close> and \<open>dialog.fieldErrors\<close>, in the order of the source.\<close>

definition dialog_opened :: "questions_dialog \<Rightarrow> ('w question_page, js_error, unit) eff" where
  "dialog_opened d = page_set (\<lambda>pg. pg\<lparr>iq_cancelled := False,
     iq_page := (case error_page d of Some p \<Rightarrow> p | None \<Rightarrow> 0),
     iq_oauth := initial_oauth d, iq_shared := initial_shared d, iq_booleans := initial_booleans d\<rparr>)"

definition dialog_closed :: "('w question_page, js_error, unit) eff" where
  "dialog_closed = page_set (\<lambda>pg. pg\<lparr>iq_cancelled := True\<rparr>)"

text \<open>
  The two fetches: \<open>cancelled\<close> is the variable of the effect, set when the dialog was
  closed before the answer came.
\<close>

definition load_networks :: "'w env \<Rightarrow> bool \<Rightarrow> ('w question_page, js_error, unit) eff" where
  "load_networks env cancelled =
     eff_catch
       (eff_bind (api (\<lambda>c. listNetworks (en_net env) c)) (\<lambda>list.
        if cancelled then eff_return ()
        else page_set (\<lambda>pg. pg\<lparr>iq_networks :=
          filter (\<lambda>n. truthy (js_opt_prop n ''enabled'')) (elements (json_or list (JArr [])))\<rparr>)))
       (\<lambda>_. eff_return ())"

definition wants_shared :: "questions_dialog \<Rightarrow> bool" where
  "wants_shared d \<longleftrightarrow> list_ex (\<lambda>(_, q). question_type q = JStr ''shared_volume'') (question_entries d)"

definition load_exported :: "'w env \<Rightarrow> questions_dialog \<Rightarrow> bool \<Rightarrow> ('w question_page, js_error, unit) eff" where
  "load_exported env d cancelled =
     (if \<not> wants_shared d then eff_return ()
      else eff_catch
        (eff_bind (api (\<lambda>c. listExportedVolumes (en_net env) c)) (\<lambda>list.
         if cancelled then eff_return ()
         else page_set (\<lambda>pg. pg\<lparr>iq_exported := elements (json_or list (JArr []))\<rparr>)))
        (\<lambda>_. eff_return ()))"

definition network_options :: "('w, 'm) question_page_scheme \<Rightarrow> json list" where
  "network_options pg =
     (if iq_networks pg \<noteq> [] then map (\<lambda>n. js_opt_prop n ''name'') (iq_networks pg) else [JStr ''home''])"

section \<open>The OAuth device flow\<close>

definition setFlow :: "string \<Rightarrow> json obj \<Rightarrow> ('w question_page, js_error, unit) eff" where
  "setFlow key patch = page_set (\<lambda>pg. pg\<lparr>iq_oauth := obj_set (iq_oauth pg) key
     (obj_spread (obj_spread [] (case obj_get (iq_oauth pg) key of Some f \<Rightarrow> f | None \<Rightarrow> [])) patch)\<rparr>)"

definition flow_error :: "string \<Rightarrow> json \<Rightarrow> ('w question_page, js_error, unit) eff" where
  "flow_error key text = setFlow key [(''status'', JStr ''error''), (''error'', text)]"

text \<open>
  \<open>during\<close> is what happens to the page while the loop sleeps, for the milliseconds it is
  given: anything the user does, and the other effects.  The loop ends or runs out of
  the rounds it is given; the result says which.
\<close>

fun oauth_rounds ::
  "nat \<Rightarrow> 'w env \<Rightarrow> (int \<Rightarrow> 'w question_page \<Rightarrow> 'w question_page) \<Rightarrow> int \<Rightarrow> string \<Rightarrow> json \<Rightarrow>
   ('w question_page, js_error, bool) eff"
where
  "oauth_rounds 0 env during interval key flow_id = eff_return False"
| "oauth_rounds (Suc n) env during interval key flow_id =
     eff_bind (page_read iq_cancelled) (\<lambda>cancelled.
     if cancelled then eff_return True
     else
       eff_bind (page_set (during interval)) (\<lambda>_.
       eff_bind (page_read iq_cancelled) (\<lambda>cancelled.
       if cancelled then eff_return True
       else
         eff_bind (api (\<lambda>c. pollOAuth (en_net env) c flow_id)) (\<lambda>polled.
         eff_bind (case js_prop polled ''status'' of None \<Rightarrow> eff_throw TypeErr | Some v \<Rightarrow> eff_return v) (\<lambda>status.
         let token = js_opt_prop polled ''token'' in
         if status = JStr ''approved'' then
           (if \<not> truthy token
            then eff_bind (flow_error key (JStr ''install_questions.oauth_no_token'')) (\<lambda>_. eff_return True)
            else eff_bind (setFlow key [(''status'', JStr ''connected''), (''token'', token), (''error'', JStr [])])
                   (\<lambda>_. eff_return True))
         else if status = JStr ''expired'' then
           eff_bind (flow_error key (JStr ''install_questions.oauth_expired'')) (\<lambda>_. eff_return True)
         else oauth_rounds n env during interval key flow_id)))))"

text \<open>\<open>Math.max(1000, started.interval_ms || 5000)\<close> for the integers the server sends.\<close>

definition oauth_interval :: "json \<Rightarrow> int" where
  "oauth_interval interval_ms =
     (case json_or interval_ms (JNum 5000) of JNum n \<Rightarrow> max 1000 n | _ \<Rightarrow> 5000)"

definition runOAuth ::
  "nat \<Rightarrow> 'w env \<Rightarrow> (int \<Rightarrow> 'w question_page \<Rightarrow> 'w question_page) \<Rightarrow> questions_dialog \<Rightarrow> string \<Rightarrow>
   ('w question_page, js_error, bool) eff"
where
  "runOAuth fuel env during d key =
     eff_bind (setFlow key [(''status'', JStr ''starting''), (''error'', JStr []),
                            (''approveUrl'', JStr []), (''userCode'', JStr [])]) (\<lambda>_.
     eff_catch
       (eff_bind (api (\<lambda>c. startOAuth (en_net env) c (qd_repo d) (qd_name d) (qd_version d) key)) (\<lambda>started.
        eff_bind (case js_prop started ''approve_url'' of None \<Rightarrow> eff_throw TypeErr | Some v \<Rightarrow> eff_return v) (\<lambda>url.
        eff_bind (setFlow key [(''status'', JStr ''waiting''), (''approveUrl'', url),
                               (''userCode'', json_or (js_opt_prop started ''user_code'') (JStr []))]) (\<lambda>_.
        eff_bind (page_set (\<lambda>pg. pg\<lparr>iq_opened := iq_opened pg @ [url]\<rparr>)) (\<lambda>_.
        oauth_rounds fuel env during (oauth_interval (js_opt_prop started ''interval_ms'')) key
          (js_opt_prop started ''flow_id''))))))
       (\<lambda>err. eff_bind (flow_error key (error_text (en_message env) err)) (\<lambda>_. eff_return True)))"

section \<open>What a field shows and submits\<close>

definition oauth_flow :: "('w, 'm) question_page_scheme \<Rightarrow> string \<Rightarrow> json obj" where
  "oauth_flow pg key =
     (case obj_get (iq_oauth pg) key of Some f \<Rightarrow> f | None \<Rightarrow> [(''status'', JStr ''idle''), (''token'', JStr [])])"

definition flow_field :: "json obj \<Rightarrow> string \<Rightarrow> json" where
  "flow_field f k = (case obj_get f k of Some v \<Rightarrow> v | None \<Rightarrow> JUndefined)"

record oauth_view =
  ov_value :: json
  ov_busy :: bool
  ov_button :: string
  ov_badges :: "string list"
  ov_user_code :: "json option"
  ov_link :: "json option"
  ov_error :: "json option"

definition render_oauth :: "json obj \<Rightarrow> oauth_view" where
  "render_oauth flow =
     (let status = flow_field flow ''status'';
          token = json_or (flow_field flow ''token'') (JStr []);
          waiting = (status = JStr ''waiting'')
      in \<lparr>ov_value = token,
          ov_busy = (status = JStr ''starting'' \<or> waiting),
          ov_button = (if truthy token then ''install_questions.oauth_reconnect'' else ''install_questions.oauth_connect''),
          ov_badges =
            (if status = JStr ''connected'' then [''install_questions.oauth_connected''] else []) @
            (if status = JStr ''starting'' then [''install_questions.oauth_starting''] else []) @
            (if waiting then [''install_questions.oauth_waiting''] else []),
          ov_user_code = (if waiting \<and> truthy (flow_field flow ''userCode'')
                          then Some (flow_field flow ''userCode'') else None),
          ov_link = (if waiting \<and> truthy (flow_field flow ''approveUrl'')
                     then Some (flow_field flow ''approveUrl'') else None),
          ov_error = (if status = JStr ''error'' then Some (flow_field flow ''error'') else None)\<rparr>)"

definition shared_value :: "json list \<Rightarrow> string \<Rightarrow> string" where
  "shared_value exported kept =
     (if list_ex (\<lambda>v. js_opt_prop v ''reference'' = JStr kept) exported then kept else [])"

definition boolean_on :: "('w, 'm) question_page_scheme \<Rightarrow> string \<Rightarrow> bool" where
  "boolean_on pg key = (case obj_get (iq_booleans pg) key of Some b \<Rightarrow> b | None \<Rightarrow> False)"

definition hasCachedValue :: "questions_dialog \<Rightarrow> string \<Rightarrow> bool" where
  "hasCachedValue d key \<longleftrightarrow> truthy (cached_answer d key) \<and> obj_get (qd_clearedFields d) key \<noteq> Some True"

text \<open>
  The value of the form element named after a question; \<open>typed\<close> is the text in its input
  when it has one.
\<close>

definition field_value ::
  "('w, 'm) question_page_scheme \<Rightarrow> questions_dialog \<Rightarrow> (string \<Rightarrow> string) \<Rightarrow> string \<Rightarrow> json \<Rightarrow> string"
where
  "field_value pg d typed key question =
     (if question_type question = JStr ''oauth'' then js_string (ov_value (render_oauth (oauth_flow pg key)))
      else if question_type question = JStr ''shared_volume'' then
        shared_value (iq_exported pg) (case obj_get (iq_shared pg) key of Some h \<Rightarrow> h | None \<Rightarrow> [])
      else if question_type question = JStr ''boolean'' then
        (if boolean_on pg key then ''true'' else ''false'')
      else if hasCachedValue d key then js_string (cached_answer d key)
      else typed key)"


definition question_hidden :: "('w, 'm) question_page_scheme \<Rightarrow> json \<Rightarrow> bool" where
  "question_hidden pg question \<longleftrightarrow>
     truthy (js_opt_prop question ''show_if'') \<and>
     \<not> boolean_on pg (js_string (js_opt_prop question ''show_if''))"

definition question_placeholder :: "json \<Rightarrow> string option" where
  "question_placeholder question =
     (if truthy (js_opt_prop question ''default'') then Some ''install_questions.default_hint''
      else if question_type question = JStr ''duration'' then Some ''install_questions.placeholder_duration''
      else if question_type question = JStr ''port'' then Some ''install_questions.placeholder_port''
      else if question_type question = JStr ''hostname'' then Some ''install_questions.placeholder_hostname''
      else if question_type question = JStr ''secret'' then Some ''install_questions.placeholder_secret''
      else if truthy (js_opt_prop question ''optional'') then Some ''install_questions.placeholder_optional''
      else None)"

section \<open>Lemmas on pages\<close>

lemma slices_step: "0 < n \<Longrightarrow> xs \<noteq> [] \<Longrightarrow> slices n xs = take n xs # slices n (drop n xs)"
  by (simp add: slices.simps)

lemma slices_Nil [simp]: "slices n [] = []"
  by (simp add: slices.simps)

lemma concat_slices: "0 < n \<Longrightarrow> concat (slices n xs) = xs"
proof (induction n xs rule: slices.induct)
  case (1 n xs)
  then show ?case by (cases "xs = []") (simp_all add: slices_step)
qed

lemma slices_length: "0 < n \<Longrightarrow> list_all (\<lambda>ys. length ys \<le> n) (slices n xs)"
proof (induction n xs rule: slices.induct)
  case (1 n xs)
  then show ?case by (cases "xs = []") (simp_all add: slices_step)
qed

lemma slices_nth: "0 < n \<Longrightarrow> i * n < length xs \<Longrightarrow> i < length (slices n xs) \<and> slices n xs ! i = take n (drop (i * n) xs)"
proof (induction i arbitrary: xs)
  case 0
  then show ?case by (simp add: slices_step)
next
  case (Suc i)
  then have "i * n < length (drop n xs)" "xs \<noteq> []" by auto
  then show ?case using Suc.IH [of "drop n xs"] Suc.prems by (simp add: slices_step add.commute)
qed

lemma find_index_found:
  assumes "find_index P xs = int i"
  shows "i < length xs \<and> P (xs ! i) \<and> list_all (\<lambda>x. \<not> P x) (take i xs)"
proof -
  let ?n = "length (takeWhile (Not \<circ> P) xs)"
  have n: "?n < length xs" "i = ?n"
    using assms by (auto simp: find_index_def Let_def split: if_splits)
  have "P (xs ! i)" using nth_length_takeWhile [of "Not \<circ> P" xs] n by simp
  moreover have "take i xs = takeWhile (Not \<circ> P) xs" using takeWhile_eq_take [of "Not \<circ> P" xs] unfolding n(2) by (rule sym)
  then have "list_all (\<lambda>x. \<not> P x) (take i xs)" by (auto simp: list_all_iff dest: set_takeWhileD)
  ultimately show ?thesis using n by simp
qed

lemma find_index_none: "find_index P xs < 0 \<Longrightarrow> list_all (\<lambda>x. \<not> P x) xs"
proof -
  assume "find_index P xs < 0"
  then have "\<not> length (takeWhile (Not \<circ> P) xs) < length xs" by (auto simp: find_index_def Let_def split: if_splits)
  then have "takeWhile (Not \<circ> P) xs = xs"
    by (metis length_takeWhile_le nat_less_le takeWhile_eq_take take_all_iff order.refl)
  then show ?thesis by (simp add: takeWhile_eq_all_conv list_all_iff)
qed

definition field_has_error :: "questions_dialog \<Rightarrow> string \<Rightarrow> bool" where
  "field_has_error d k \<longleftrightarrow> (case obj_get (qd_fieldErrors d) k of Some e \<Rightarrow> truthy e | None \<Rightarrow> False)"

definition page_has_error :: "questions_dialog \<Rightarrow> nat \<Rightarrow> bool" where
  "page_has_error d p = list_ex (\<lambda>(k, _). field_has_error d k) (question_pages d ! p)"

lemma question_pages_nth:
  assumes "i < length (question_entries d)"
  shows "i div QUESTIONS_PER_PAGE < length (question_pages d)"
    "question_pages d ! (i div QUESTIONS_PER_PAGE)
     = take QUESTIONS_PER_PAGE (drop (i div QUESTIONS_PER_PAGE * QUESTIONS_PER_PAGE) (question_entries d))"
proof -
  have "i div QUESTIONS_PER_PAGE * QUESTIONS_PER_PAGE < length (question_entries d)"
    using assms by (meson div_times_less_eq_dividend order.strict_trans1)
  then have "i div QUESTIONS_PER_PAGE < length (slices QUESTIONS_PER_PAGE (question_entries d)) \<and>
      slices QUESTIONS_PER_PAGE (question_entries d) ! (i div QUESTIONS_PER_PAGE)
        = take QUESTIONS_PER_PAGE (drop (i div QUESTIONS_PER_PAGE * QUESTIONS_PER_PAGE) (question_entries d))"
    by (intro slices_nth) (simp_all add: QUESTIONS_PER_PAGE_def)
  then show "i div QUESTIONS_PER_PAGE < length (question_pages d)"
    "question_pages d ! (i div QUESTIONS_PER_PAGE)
     = take QUESTIONS_PER_PAGE (drop (i div QUESTIONS_PER_PAGE * QUESTIONS_PER_PAGE) (question_entries d))"
    by (auto simp: question_pages_def Let_def)
qed

lemma error_page_shows:
  assumes "error_page d = Some p"
  shows "p < length (question_pages d)" "page_has_error d p"
    "list_all (\<lambda>(k, _). \<not> field_has_error d k) (take (p * QUESTIONS_PER_PAGE) (question_entries d))"
proof -
  let ?es = "question_entries d"
  let ?E = "\<lambda>k. case obj_get (qd_fieldErrors d) k of Some e \<Rightarrow> truthy e | None \<Rightarrow> False"
  obtain i where i: "find_index ?E (map fst ?es) = int i" "p = i div QUESTIONS_PER_PAGE"
    using assms by (auto simp: error_page_def Let_def split: if_splits) (metis nonneg_int_cases nat_int)
  then have f: "i < length ?es" "field_has_error d (fst (?es ! i))" "list_all (\<lambda>k. \<not> field_has_error d k) (take i (map fst ?es))"
    using find_index_found [OF i(1)] by (auto simp: field_has_error_def)
  show "p < length (question_pages d)" using question_pages_nth [OF f(1)] i(2) by simp
  have q: "0 < QUESTIONS_PER_PAGE" by (simp add: QUESTIONS_PER_PAGE_def)
  have "i - p * QUESTIONS_PER_PAGE < QUESTIONS_PER_PAGE" "p * QUESTIONS_PER_PAGE \<le> i"
    using i(2) q by (auto simp: minus_div_mult_eq_mod)
  moreover have "drop (p * QUESTIONS_PER_PAGE) ?es ! (i - p * QUESTIONS_PER_PAGE) = ?es ! i"
    using \<open>p * QUESTIONS_PER_PAGE \<le> i\<close> f(1) by (subst nth_drop) simp_all
  ultimately have "question_pages d ! p ! (i - p * QUESTIONS_PER_PAGE) = ?es ! i"
    "i - p * QUESTIONS_PER_PAGE < length (question_pages d ! p)"
    using question_pages_nth [OF f(1)] f(1) unfolding i(2) [symmetric] by (simp_all add: less_diff_conv2)
  then show "page_has_error d p"
    using f(2) by (auto simp: page_has_error_def list_ex_iff case_prod_beta intro!: bexI [of _ "?es ! i"] dest: nth_mem)
  have "take (p * QUESTIONS_PER_PAGE) ?es = take (p * QUESTIONS_PER_PAGE) (take i ?es)"
    using \<open>p * QUESTIONS_PER_PAGE \<le> i\<close> by simp
  moreover have "list_all (\<lambda>(k, _). \<not> field_has_error d k) (take i ?es)"
    using f(3) by (simp add: take_map list_all_iff case_prod_beta)
  ultimately show "list_all (\<lambda>(k, _). \<not> field_has_error d k) (take (p * QUESTIONS_PER_PAGE) ?es)"
    by (metis (no_types, lifting) list_all_iff set_take_subset subsetD)
qed

section \<open>Lemmas on the device flow\<close>

definition flow_ok :: "json obj \<Rightarrow> bool" where
  "flow_ok f \<longleftrightarrow> obj_ok f \<and> (flow_field f ''status'' = JStr ''connected'' \<longrightarrow> truthy (flow_field f ''token''))"

definition flows_ok :: "('w, 'm) question_page_scheme \<Rightarrow> bool" where
  "flows_ok pg = list_all (\<lambda>key. flow_ok (oauth_flow pg key)) (map fst (iq_oauth pg))"

lemma flow_ok_idle: "flow_ok [(''status'', JStr ''idle''), (''token'', JStr [])]"
  by code_simp

lemma flows_ok_iff: "flows_ok pg \<longleftrightarrow> (\<forall>key. flow_ok (oauth_flow pg key))"
proof -
  have "flow_ok (oauth_flow pg key)" if "key \<notin> fst ` set (iq_oauth pg)" for key
  proof -
    have "map_of (iq_oauth pg) key = None" using that by (simp add: map_of_eq_None_iff)
    then show ?thesis using flow_ok_idle by (simp add: oauth_flow_def obj_get_def)
  qed
  then show ?thesis by (force simp: flows_ok_def list_all_iff)
qed

lemma flow_field_spread:
  "obj_ok f \<Longrightarrow> distinct (map fst patch) \<Longrightarrow>
   flow_field (obj_spread (obj_spread [] f) patch) k
   = (case map_of patch k of Some v \<Rightarrow> v | None \<Rightarrow> flow_field f k)"
  by (auto simp: flow_field_def obj_get_def map_of_obj_spread obj_ok_distinct map_add_def obj_spread_id
      split: option.split)

text \<open>The flow of a key after a patch.\<close>

definition kept_flow :: "('w, 'm) question_page_scheme \<Rightarrow> string \<Rightarrow> json obj" where
  "kept_flow pg key = (case obj_get (iq_oauth pg) key of Some f \<Rightarrow> f | None \<Rightarrow> [])"

definition patched :: "string \<Rightarrow> json obj \<Rightarrow> 'w question_page \<Rightarrow> 'w question_page" where
  "patched key patch pg =
     pg\<lparr>iq_oauth := obj_set (iq_oauth pg) key (obj_spread (obj_spread [] (kept_flow pg key)) patch)\<rparr>"

lemma wp_setFlow [wp_simps]: "wp (setFlow key patch) Q s = Q (Inr ()) (patched key patch s)"
  by (simp add: setFlow_def kept_flow_def patched_def wp_simps)

lemma wp_flow_error [wp_simps]:
  "wp (flow_error key text) Q s = Q (Inr ()) (patched key [(''status'', JStr ''error''), (''error'', text)] s)"
  by (simp add: flow_error_def wp_simps)

lemma patched_frame [simp]:
  "iq_cancelled (patched key patch s) = iq_cancelled s" "pg_net (patched key patch s) = pg_net s"
  "pg_client (patched key patch s) = pg_client s" "pg_storage (patched key patch s) = pg_storage s"
  by (simp_all add: patched_def)

lemma oauth_flow_patched:
  "oauth_flow (patched key patch s) k
   = (if k = key then obj_spread (obj_spread [] (kept_flow s key)) patch else oauth_flow s k)"
  by (simp add: oauth_flow_def obj_get_def patched_def)

lemma flows_ok_kept: "flows_ok s \<Longrightarrow> obj_ok (kept_flow s key)"
  unfolding flows_ok_iff
  by (auto simp: flow_ok_def oauth_flow_def kept_flow_def split: option.splits dest!: spec [of _ key])

lemma flows_ok_patched:
  assumes "flows_ok s" "distinct (map fst patch)" "map_of patch ''status'' \<noteq> None"
    and "map_of patch ''status'' = Some (JStr ''connected'') \<Longrightarrow> \<exists>v. map_of patch ''token'' = Some v \<and> truthy v"
  shows "flows_ok (patched key patch s)"
proof -
  have "flow_ok (obj_spread (obj_spread [] (kept_flow s key)) patch)"
    using assms(2,3,4) flows_ok_kept [OF assms(1)]
    by (auto simp: flow_ok_def flow_field_spread simp del: map_of_eq_Some_iff intro!: obj_spread_ok
        split: option.split)
  then show ?thesis using assms(1) by (auto simp: flows_ok_iff oauth_flow_patched)
qed

lemma flows_ok_frame [simp]:
  "flows_ok (s\<lparr>pg_client := c, pg_net := w\<rparr>) = flows_ok s"
  "flows_ok (s\<lparr>iq_opened := xs\<rparr>) = flows_ok s"
  by (simp_all add: flows_ok_def oauth_flow_def)

text \<open>One turn of the loop keeps what every patch and every wait keeps.\<close>

definition patch_ok :: "json obj \<Rightarrow> bool" where
  "patch_ok patch \<longleftrightarrow>
     distinct (map fst patch) \<and> map_of patch ''status'' \<noteq> None \<and>
     (map_of patch ''status'' = Some (JStr ''connected'')
        \<longleftrightarrow> (case map_of patch ''token'' of Some v \<Rightarrow> True | None \<Rightarrow> False)) \<and>
     (case map_of patch ''token'' of Some v \<Rightarrow> truthy v | None \<Rightarrow> True)"

lemma patches_ok:
  "patch_ok [(''status'', JStr ''error''), (''error'', e)]"
  "truthy v \<Longrightarrow> patch_ok [(''status'', JStr ''connected''), (''token'', v), (''error'', e)]"
  "patch_ok [(''status'', JStr ''waiting''), (''approveUrl'', u), (''userCode'', c)]"
  "patch_ok [(''status'', JStr ''starting''), (''error'', e), (''approveUrl'', u), (''userCode'', c)]"
  by (simp_all add: patch_ok_def)

lemma oauth_rounds_keeps:
  assumes wait: "\<And>s. I s \<Longrightarrow> I (during interval s)"
    and net: "\<And>s c w. I s \<Longrightarrow> I (s\<lparr>pg_client := c, pg_net := w\<rparr>)"
    and patch: "\<And>s p. I s \<Longrightarrow> patch_ok p \<Longrightarrow> I (patched key p s)"
  shows "I s \<Longrightarrow> wp (oauth_rounds n env during interval key flow_id) (\<lambda>r. I) s"
proof (induction n arbitrary: s)
  case 0
  then show ?case by (simp add: wp_simps)
next
  case (Suc n)
  show ?case using Suc
    by (auto simp: wp_simps Let_def intro!: wp_api wait net patch patches_ok split: sum.split option.split)
qed

lemma runOAuth_keeps:
  assumes wait: "\<And>i s. I s \<Longrightarrow> I (during i s)"
    and net: "\<And>s c w. I s \<Longrightarrow> I (s\<lparr>pg_client := c, pg_net := w\<rparr>)"
    and opened: "\<And>s xs. I s \<Longrightarrow> I (s\<lparr>iq_opened := xs\<rparr>)"
    and patch: "\<And>s p. I s \<Longrightarrow> patch_ok p \<Longrightarrow> I (patched key p s)"
  assumes "I s"
  shows "wp (runOAuth n env during d key) (\<lambda>r. I) s"
proof -
  have rounds: "wp (oauth_rounds n env during i key flow_id) Q s'"
    if "I s'" "\<And>r s''. I s'' \<Longrightarrow> Q r s''" for s' i flow_id Q
    using oauth_rounds_keeps [where I = I, OF wait net patch that(1)] that(2) by (rule wp_weaken)
  show ?thesis
    using assms(5) unfolding runOAuth_def
    by (auto simp: wp_simps Let_def intro!: wp_api rounds net opened patch patches_ok split: sum.split option.split)
qed

definition open_step :: "questions_dialog \<Rightarrow> json obj obj \<Rightarrow> string \<times> json \<Rightarrow> json obj obj" where
  "open_step d m kq =
     (if question_type (snd kq) \<noteq> JStr ''oauth'' then m
      else obj_set m (fst kq)
             (if truthy (cached_answer d (fst kq)) then [(''status'', JStr ''connected''), (''token'', cached_answer d (fst kq))]
              else [(''status'', JStr ''idle''), (''token'', JStr [])]))"

lemma initial_oauth_fold: "initial_oauth d = foldl (open_step d) [] (question_entries d)"
  unfolding initial_oauth_def
  by (intro arg_cong [where f = "\<lambda>h. foldl h [] (question_entries d)"])
    (simp add: open_step_def Let_def case_prod_beta fun_eq_iff)

lemma opened_flow_ok:
  "truthy c \<Longrightarrow> flow_ok [(''status'', JStr ''connected''), (''token'', c)]"
  "flow_ok [(''status'', JStr ''idle''), (''token'', JStr [])]"
  using flow_ok_idle by (simp_all add: flow_ok_def flow_field_def obj_get_def key_before_def is_index_key_def is_digit_def)

lemma open_steps_ok:
  "(\<And>k f. map_of m k = Some f \<Longrightarrow> flow_ok f) \<Longrightarrow> map_of (foldl (open_step d) m qs) k = Some f \<Longrightarrow> flow_ok f"
proof (induction qs arbitrary: m)
  case (Cons q qs)
  have "flow_ok f" if "map_of (open_step d m q) k = Some f" for k f
    using that Cons.prems(1) opened_flow_ok by (auto simp: open_step_def split: if_splits)
  then show ?case using Cons by fastforce
qed simp

lemma flows_ok_opened: "wp (dialog_opened d) (\<lambda>r pg. r = Inr () \<and> flows_ok pg) pg"
  using open_steps_ok [of "[]" d "question_entries d"] flow_ok_idle
  by (auto simp: dialog_opened_def wp_simps flows_ok_iff oauth_flow_def obj_get_def initial_oauth_fold split: option.split)

section \<open>Properties\<close>

text \<open>The questions are split into pages in their order, at most five to a page, and when the
  server has found faults the page shown is the first one with a faulty question.\<close>

theorem question_paging:
  "concat (question_pages d) = question_entries d \<and>
   list_all (\<lambda>ps. length ps \<le> 5) (question_pages d) \<and> question_pages d \<noteq> [] \<and>
   (case error_page d of
      Some p \<Rightarrow> p < length (question_pages d) \<and> page_has_error d p \<and>
        list_all (\<lambda>(k, _). \<not> field_has_error d k) (take (p * 5) (question_entries d))
    | None \<Rightarrow> list_all (\<lambda>(k, _). \<not> field_has_error d k) (question_entries d))"
proof -
  have q: "0 < QUESTIONS_PER_PAGE" "QUESTIONS_PER_PAGE = 5" by (simp_all add: QUESTIONS_PER_PAGE_def)
  have pages: "concat (question_pages d) = question_entries d"
    "list_all (\<lambda>ps. length ps \<le> 5) (question_pages d)" "question_pages d \<noteq> []"
    using concat_slices [OF q(1), of "question_entries d"] slices_length [OF q(1), of "question_entries d"] q(2)
    by (auto simp: question_pages_def Let_def)
  moreover have "list_all (\<lambda>(k, _). \<not> field_has_error d k) (question_entries d)" if "error_page d = None"
    using that find_index_none [of "field_has_error d" "map fst (question_entries d)"]
    by (auto simp: error_page_def Let_def field_has_error_def [abs_def] obj_get_def list_all_iff split: if_splits)
  ultimately show ?thesis
    using error_page_shows [of d] unfolding q(2) by (auto split: option.split)
qed

text \<open>C7: A question that shows Connected has a token to submit: it holds when the dialog opens,
  and the device flow keeps it whatever the server answers, as long as what happens
  between its polls does.\<close>

theorem connected_means_token:
  assumes "\<And>i s. flows_ok s \<Longrightarrow> flows_ok (during i s)" "flows_ok pg"
  shows "flows_ok (snd (dialog_opened d pg')) \<and> flows_ok (snd (runOAuth n env during d key pg))"
proof -
  have "wp (runOAuth n env during d key) (\<lambda>r. flows_ok) pg"
    using assms by (intro runOAuth_keeps) (auto intro!: flows_ok_patched simp: patch_ok_def split: option.splits)
  then show ?thesis using flows_ok_opened [of d pg'] by (simp add: wp_def)
qed

definition oauth_dialog :: questions_dialog where
  "oauth_dialog =
     \<lparr>qd_repo = ''core'', qd_name = ''backup'', qd_version = ''1.0'',
      qd_questions = JObj [(''drive'', JObj [(''type'', JStr ''oauth'')])],
      qd_responses = [], qd_fieldErrors = [], qd_clearedFields = [], qd_reuseVolumes = False,
      qd_importFrom = None\<rparr>"

definition blank_questions :: "'w \<Rightarrow> 'w question_page" where
  "blank_questions w =
     \<lparr>pg_net = w, pg_storage = \<lparr>st_local = Map.empty, st_session = Map.empty\<rparr>,
      pg_client = newClient ''http://box:5309'', pg_log = [], pg_refreshKey = 0,
      iq_networks = [], iq_exported = [], iq_shared = [], iq_booleans = [], iq_oauth = [],
      iq_cancelled = False, iq_page = 0, iq_opened = []\<rparr>"

theorem connected_means_token_witness:
  "flows_ok (snd (runOAuth 3 sample_env (\<lambda>_ s. s) oauth_dialog ''drive'' (blank_questions ())))"
proof -
  have "flows_ok (blank_questions ())" by (simp add: flows_ok_def blank_questions_def)
  then show ?thesis by (intro conjunct2 [OF connected_means_token]) simp
qed

text \<open>The token a key holds, and the states of a flow that has not connected since.\<close>

definition held_token :: "'w question_page \<Rightarrow> string \<Rightarrow> json" where
  "held_token s key = ov_value (render_oauth (oauth_flow s key))"

definition flow_status :: "'w question_page \<Rightarrow> string \<Rightarrow> json" where
  "flow_status s key = flow_field (oauth_flow s key) ''status''"

definition still_holds :: "string \<Rightarrow> json \<Rightarrow> 'w question_page \<Rightarrow> bool" where
  "still_holds key t s \<longleftrightarrow> obj_ok (kept_flow s key) \<and> held_token s key = t"

lemma held_token_kept: "held_token s key = json_or (flow_field (kept_flow s key) ''token'') (JStr [])"
  by (simp add: held_token_def render_oauth_def Let_def oauth_flow_def kept_flow_def flow_field_def obj_get_def json_or_def
      split: option.split)

lemma kept_flow_patched:
  "kept_flow (patched key p s) key = obj_spread (obj_spread [] (kept_flow s key)) p"
  by (simp add: kept_flow_def patched_def obj_get_def)

lemma still_holds_patched:
  assumes "still_holds key t s" "distinct (map fst p)" "map_of p ''token'' = None"
  shows "still_holds key t (patched key p s)"
  using assms
  by (auto simp: still_holds_def held_token_kept kept_flow_patched flow_field_spread intro!: obj_spread_ok)

lemma still_holds_frame [simp]:
  "still_holds key t (s\<lparr>pg_client := c, pg_net := w\<rparr>) = still_holds key t s"
  "still_holds key t (s\<lparr>iq_opened := xs\<rparr>) = still_holds key t s"
  by (simp_all add: still_holds_def held_token_kept kept_flow_def)

lemma flow_status_patched:
  "still_holds key t s \<Longrightarrow> distinct (map fst p) \<Longrightarrow> map_of p ''status'' = Some v \<Longrightarrow>
   flow_status (patched key p s) key = v"
  by (simp add: flow_status_def oauth_flow_patched flow_field_spread still_holds_def)

lemma rounds_hold:
  assumes "\<And>i s. iq_oauth (during i s) = iq_oauth s"
  shows "still_holds key t s \<Longrightarrow> wp (oauth_rounds n env during interval key flow_id)
    (\<lambda>r s'. still_holds key t s' \<or> ((\<exists>b. r = Inr b) \<and> flow_status s' key = JStr ''connected'')) s"
proof (induction n arbitrary: s)
  case 0
  then show ?case by (simp add: wp_simps)
next
  case (Suc n)
  have wait: "still_holds key t (during interval s)"
    using Suc.prems assms by (simp add: still_holds_def held_token_kept kept_flow_def)
  show ?case using Suc.IH Suc.prems wait
    by (auto simp: wp_simps Let_def intro!: wp_api still_holds_patched
        intro: flow_status_patched [OF _ _ map_of_Cons_code(2) [THEN trans]]
        split: sum.split option.split)
qed

text \<open>C15: An attempt to connect that fails, is cancelled or never ends takes no token away: when
  it has not connected, the field still submits the token it held.\<close>

theorem failed_attempt_keeps_token:
  assumes "\<And>i s. iq_oauth (during i s) = iq_oauth s" "flows_ok pg"
    and "runOAuth n env during d key pg = (r, pg')"
  shows "flow_field (oauth_flow pg' key) ''status'' = JStr ''connected'' \<or>
    ov_value (render_oauth (oauth_flow pg' key)) = ov_value (render_oauth (oauth_flow pg key))"
proof -
  have start: "still_holds key (held_token pg key) pg"
    using assms(2) by (simp add: still_holds_def flows_ok_kept)
  have rounds: "wp (oauth_rounds n env during i key flow_id) Q s"
    if "still_holds key t s"
      "\<And>r s'. still_holds key t s' \<or> ((\<exists>b. r = Inr b) \<and> flow_status s' key = JStr ''connected'') \<Longrightarrow> Q r s'"
    for i flow_id Q s t
    using rounds_hold [where during = during, OF assms(1) that(1)] that(2) by (rule wp_weaken)
  have "wp (runOAuth n env during d key) (\<lambda>r s'. still_holds key (held_token pg key) s' \<or>
      flow_status s' key = JStr ''connected'') pg"
    unfolding runOAuth_def
    using start
    by (auto simp: wp_simps intro!: wp_api rounds still_holds_patched split: sum.split option.split)
  then show ?thesis
    using assms(3) by (auto simp: still_holds_def held_token_def flow_status_def dest: wpD)
qed

theorem failed_attempt_keeps_token_witness:
  "let pg' = snd (runOAuth 3 sample_env (\<lambda>_ s. s) oauth_dialog ''drive'' (blank_questions ()))
   in flow_field (oauth_flow pg' ''drive'') ''status'' = JStr ''connected'' \<or>
      ov_value (render_oauth (oauth_flow pg' ''drive'')) = JStr []"
proof -
  have ok: "flows_ok (blank_questions ())" by (simp add: flows_ok_def blank_questions_def)
  have "ov_value (render_oauth (oauth_flow (blank_questions ()) ''drive'')) = JStr []" by code_simp
  then show ?thesis
    using failed_attempt_keeps_token [OF _ ok prod.collapse [symmetric], of "\<lambda>_ s. s" 3 sample_env oauth_dialog "''drive''"]
    unfolding Let_def by simp
qed

lemma kept_flow_frame [simp]:
  "kept_flow (s\<lparr>pg_client := c, pg_net := w\<rparr>) key = kept_flow s key"
  by (simp add: kept_flow_def)

lemma connected_patch:
  assumes "obj_ok (kept_flow s key)" "truthy v"
  shows "flow_status (patched key [(''status'', JStr ''connected''), (''token'', v), (''error'', e)] s) key = JStr ''connected''"
    "held_token (patched key [(''status'', JStr ''connected''), (''token'', v), (''error'', e)] s) key = v"
  using assms
  by (simp_all add: flow_status_def oauth_flow_patched held_token_kept kept_flow_patched flow_field_spread json_or_def
      del: obj_spread_Cons)

text \<open>C17: An operator who approves is served: when the wait lets the dialog stand and the server
  first reports the flow as pending and then, at the poll with number \<open>n\<close>, as approved
  with a token, the loop ends with the question connected and the token in its field.\<close>

theorem oauth_completes:
  assumes "\<And>i s. (pg_net (during i s), pg_client (during i s), pg_storage (during i s), iq_cancelled (during i s))
      = (pg_net s, pg_client s, pg_storage s, iq_cancelled s)"
    and "\<And>i s. flows_ok s \<Longrightarrow> flows_ok (during i s)"
    and "flows_ok pg" "\<not> iq_cancelled pg" "n < fuel" "nw 0 = pg_net pg"
    and "\<And>i. i < n \<Longrightarrow> \<exists>v st. pollOAuth (en_net env) (getClient (pg_storage pg) (pg_client pg)) flow_id (nw i)
        = (Inr v, nw (Suc i)) \<and> js_prop v ''status'' = Some st \<and> st \<notin> {JStr ''approved'', JStr ''expired''}"
    and "pollOAuth (en_net env) (getClient (pg_storage pg) (pg_client pg)) flow_id (nw n) = (Inr done_reply, nw (Suc n))"
    and "js_prop done_reply ''status'' = Some (JStr ''approved'')" "truthy (js_opt_prop done_reply ''token'')"
  shows "wp (oauth_rounds fuel env during interval key flow_id)
    (\<lambda>r pg'. r = Inr True \<and> flow_status pg' key = JStr ''connected'' \<and>
       held_token pg' key = js_opt_prop done_reply ''token'') pg"
  using assms(3-8)
proof (induction n arbitrary: pg nw fuel)
  case 0
  obtain m where m: "fuel = Suc m" using 0(3) by (cases fuel) auto
  let ?s = "during interval pg"
  have w: "pg_net ?s = nw 0" "pg_client ?s = pg_client pg" "pg_storage ?s = pg_storage pg" "\<not> iq_cancelled ?s"
    using assms(1) [of interval pg] 0(2,4) by auto
  have h: "still_holds key (held_token ?s key) ?s"
    using assms(2) 0(1) by (simp add: still_holds_def flows_ok_kept)
  show ?case
    using 0(2,6) w h assms(9,10) unfolding m
    by (auto simp: wp_simps Let_def wp_api_exact [where r = "Inr done_reply" and w = "nw (Suc 0)"]
        connected_patch still_holds_def)
next
  case (Suc n)
  obtain m where m: "fuel = Suc m" "n < m" using Suc(4) by (cases fuel) auto
  let ?s = "during interval pg"
  have w: "pg_net ?s = nw 0" "pg_client ?s = pg_client pg" "pg_storage ?s = pg_storage pg" "\<not> iq_cancelled ?s"
    using assms(1) [of interval pg] Suc(3,5) by auto
  obtain v st where v: "pollOAuth (en_net env) (getClient (pg_storage pg) (pg_client pg)) flow_id (nw 0) = (Inr v, nw 1)"
    "js_prop v ''status'' = Some st" "st \<noteq> JStr ''approved''" "st \<noteq> JStr ''expired''"
    using Suc(6) [of 0] by auto
  have "wp (oauth_rounds m env during interval key flow_id)
    (\<lambda>r pg'. r = Inr True \<and> flow_status pg' key = JStr ''connected'' \<and>
       held_token pg' key = js_opt_prop done_reply ''token'')
    (?s\<lparr>pg_client := getClient (pg_storage pg) (pg_client pg), pg_net := nw 1\<rparr>)"
    using Suc(2,7) Suc(6) [of "Suc _"] w assms(2) m(2)
    by (intro Suc.IH [where nw = "\<lambda>i. nw (Suc i)"]) auto
  then show ?case
    using Suc(3) w v unfolding m(1)
    by (simp add: wp_simps Let_def wp_api_exact [where r = "Inr v" and w = "nw (Suc 0)"])
qed

definition approving_env :: "nat env" where
  "approving_env =
     \<lparr>en_net = (\<lambda>rq n. (Inr \<lparr>rs_status = 200,
        rs_chunks = [if n < 2 then ''{\"status\":\"pending\"}'' else ''{\"status\":\"approved\",\"token\":\"t\"}''],
        rs_broken = False\<rparr>, Suc n)),
      en_message = (\<lambda>_. [])\<rparr>"

lemma approving_poll:
  "pollOAuth (en_net approving_env) c flow_id n
   = (Inr (if n < 2 then JObj [(''status'', JStr ''pending'')]
           else JObj [(''status'', JStr ''approved''), (''token'', JStr ''t'')]), Suc n)"
proof -
  have p: "parse_json ''{\"status\":\"pending\"}'' = Some (JObj [(''status'', JStr ''pending'')])"
    "parse_json ''{\"status\":\"approved\",\"token\":\"t\"}''
     = Some (JObj [(''status'', JStr ''approved''), (''token'', JStr ''t'')])"
    by code_simp+
  show ?thesis
    by (simp add: pollOAuth_def postJSON_def post_def approving_env_def eff_bind_def eff_lift_def check_status_def
        response_json_def response_text_def p)
qed

theorem oauth_completes_witness:
  "wp (oauth_rounds 5 approving_env (\<lambda>_ s. s) 5000 ''drive'' (JStr ''f''))
     (\<lambda>r pg'. r = Inr True \<and> flow_status pg' ''drive'' = JStr ''connected'' \<and> held_token pg' ''drive'' = JStr ''t'')
     (blank_questions 0)"
proof -
  have ok: "flows_ok (blank_questions (0::nat))" "\<not> iq_cancelled (blank_questions (0::nat))"
    "id 0 = pg_net (blank_questions (0::nat))"
    by (simp_all add: flows_ok_def blank_questions_def)
  have reply: "js_prop (JObj [(''status'', JStr ''approved''), (''token'', JStr ''t'')]) ''status'' = Some (JStr ''approved'')"
    "js_opt_prop (JObj [(''status'', JStr ''approved''), (''token'', JStr ''t'')]) ''token'' = JStr ''t''"
    by (simp_all add: js_prop_def js_opt_prop_def)
  show ?thesis
    using oauth_completes [where during = "\<lambda>_ s. s" and pg = "blank_questions 0" and n = 2 and fuel = 5
        and nw = id and env = approving_env and flow_id = "JStr ''f''" and interval = 5000 and key = "''drive''"
        and done_reply = "JObj [(''status'', JStr ''approved''), (''token'', JStr ''t'')]"]
      ok reply
    by (simp add: approving_poll js_prop_def [of "JObj [(''status'', JStr ''pending'')]"])
qed

text \<open>Closing the dialog does not end the device flow when it is opened again before the next
  poll: the loop goes on, and the token approved for the first package is what the field
  of the same name then submits for the other one.\<close>

theorem oauth_survives_reopening:
  assumes "\<not> iq_cancelled pg"
    and "answers (pollOAuth (en_net env) (getClient (pg_storage pg) (pg_client pg)) flow_id) (Inr polled)"
    and "js_prop polled ''status'' = Some (JStr ''approved'')" "truthy (js_opt_prop polled ''token'')"
    and "oauth_rounds (Suc n) env (\<lambda>_ s. snd (block [dialog_closed, dialog_opened other] s))
      interval key flow_id pg = (r, pg')"
    and "question_type question = JStr ''oauth''"
  shows "r = Inr True \<and> field_value pg' other typed key question = js_string (js_opt_prop polled ''token'')"
proof -
  let ?s = "snd (block [dialog_closed, dialog_opened other] pg)"
  have s: "pg_client ?s = pg_client pg" "pg_storage ?s = pg_storage pg" "\<not> iq_cancelled ?s" "obj_ok (kept_flow ?s key)"
  proof -
    have "wp (block [dialog_closed, dialog_opened other]) (\<lambda>r s. pg_client s = pg_client pg \<and>
        pg_storage s = pg_storage pg \<and> \<not> iq_cancelled s) pg"
      by (simp add: wp_simps dialog_closed_def dialog_opened_def)
    then show "pg_client ?s = pg_client pg" "pg_storage ?s = pg_storage pg" "\<not> iq_cancelled ?s"
      by (simp_all add: wp_def)
    have "wp (block [dialog_closed, dialog_opened other]) (\<lambda>r s. flows_ok s) pg"
      by (auto simp: wp_simps dialog_closed_def intro: wp_weaken [OF flows_ok_opened])
    then show "obj_ok (kept_flow ?s key)" by (simp add: wp_def flows_ok_kept)
  qed
  have poll: "wp (api (\<lambda>c. pollOAuth (en_net env) c flow_id)) Q ?s"
    if "\<And>w. Q (Inr polled) (?s\<lparr>pg_client := getClient (pg_storage pg) (pg_client pg), pg_net := w\<rparr>)" for Q
    by (rule wp_answers [where f = "\<lambda>c. pollOAuth (en_net env) c flow_id", OF _ assms(2)])
      (simp_all only: s that)
  have "wp (oauth_rounds (Suc n) env (\<lambda>_ s. snd (block [dialog_closed, dialog_opened other] s)) interval key flow_id)
      (\<lambda>r pg'. r = Inr True \<and> held_token pg' key = js_opt_prop polled ''token'') pg"
    using assms(1,3,4) s by (simp add: wp_simps Let_def) (rule poll [unfolded block.simps], simp add: wp_simps connected_patch)
  then have "r = Inr True" "held_token pg' key = js_opt_prop polled ''token''"
    using assms(5) by (auto dest: wpD)
  then show ?thesis using assms(6) by (simp add: field_value_def held_token_def)
qed

definition approved_env :: "unit env" where
  "approved_env =
     \<lparr>en_net = (\<lambda>rq w. (Inr \<lparr>rs_status = 200, rs_chunks = [''{\"status\":\"approved\",\"token\":\"t\"}''],
        rs_broken = False\<rparr>, w)),
      en_message = (\<lambda>_. [])\<rparr>"

lemma approved_poll:
  "answers (pollOAuth (en_net approved_env) c flow_id) (Inr (JObj [(''status'', JStr ''approved''), (''token'', JStr ''t'')]))"
proof -
  have "parse_json ''{\"status\":\"approved\",\"token\":\"t\"}''
     = Some (JObj [(''status'', JStr ''approved''), (''token'', JStr ''t'')])"
    by code_simp
  then show ?thesis
    by (simp add: answers_def pollOAuth_def postJSON_def post_def approved_env_def eff_bind_def eff_lift_def
        check_status_def response_json_def response_text_def)
qed

theorem oauth_survives_reopening_witness:
  "field_value (snd (oauth_rounds 1 approved_env (\<lambda>_ s. snd (block [dialog_closed, dialog_opened oauth_dialog] s))
       5000 ''drive'' (JStr ''f'') (blank_questions ()))) oauth_dialog (\<lambda>_. []) ''drive''
       (JObj [(''type'', JStr ''oauth'')])
   = ''t''"
proof -
  have "\<not> iq_cancelled (blank_questions ())" by (simp add: blank_questions_def)
  note r = oauth_survives_reopening [OF this approved_poll _ _ prod.collapse [symmetric],
      where n = 0 and question = "JObj [(''type'', JStr ''oauth'')]" and other = oauth_dialog
        and typed = "\<lambda>_. []" and key = "''drive''" and interval = 5000]
  show ?thesis
    using r [of "JStr ''f''"] by (simp add: js_prop_def js_opt_prop_def question_type_def)
qed




end
