(* ===== verification/RefreshFlow.thy ===== *)
theory RefreshFlow
  imports PageEffects ClientUnit ClientAccount
begin

text \<open>
  \<^verbatim>\<open>routes/SystemManagement.jsx\<close>: the restart of the system services, which holds the
  session poll down while it runs, the probe for the restarted user interface, the
  actions on a unit with the poll for its new state, and the unit tree.

  The restart is a state machine: what its asynchronous functions do between two
  awaits is one step, and steps of the session poll come in between.
\<close>

section \<open>The restart of the system services\<close>

record refresh =
  rf_session :: session
  rf_release :: "nat option"
  rf_probe :: "nat option"
  rf_aborted :: "bool list"
  rf_dialog :: bool
  rf_refreshing :: bool
  rf_controllerBack :: bool
  rf_uiBack :: bool
  rf_previousBootID :: json
  rf_toasts :: "toast list"
  rf_sent :: nat
  rf_mounted :: bool

text \<open>
  \<open>rf_release\<close> is \<open>releaseSessionChecksRef\<close>, \<open>rf_aborted\<close> the signals of the abort
  controllers made so far and \<open>rf_probe\<close> the one in \<open>uiProbeRef\<close>; \<open>rf_sent\<close> counts the restart
  requests.
\<close>

definition run_release :: "refresh \<Rightarrow> refresh" where
  "run_release s =
     (case rf_release s of
        None \<Rightarrow> s
      | Some k \<Rightarrow> s\<lparr>rf_session := (rf_session s)\<lparr>ss_guard := release k (ss_guard (rf_session s))\<rparr>\<rparr>)"

definition abort_probe :: "refresh \<Rightarrow> refresh" where
  "abort_probe s = (case rf_probe s of None \<Rightarrow> s | Some k \<Rightarrow> s\<lparr>rf_aborted := (rf_aborted s)[k := True]\<rparr>)"

definition take_suspension :: "refresh \<Rightarrow> refresh" where
  "take_suspension s =
     (case rf_release s of
        Some k \<Rightarrow> s
      | None \<Rightarrow> let (k, g) = suspendSessionChecks (ss_guard (rf_session s))
                in s\<lparr>rf_session := (rf_session s)\<lparr>ss_guard := g\<rparr>, rf_release := Some k\<rparr>)"

definition refresh_failed :: "json \<Rightarrow> refresh \<Rightarrow> refresh" where
  "refresh_failed text s =
     (let s1 = (run_release (s\<lparr>rf_refreshing := False\<rparr>))\<lparr>rf_release := None\<rparr>
      in s1\<lparr>rf_toasts := rf_toasts s1 @ [Failure text]\<rparr>)"

definition ping_answered :: "(js_error \<Rightarrow> string) \<Rightarrow> js_error + json \<Rightarrow> refresh \<Rightarrow> refresh" where
  "ping_answered engine r s =
     (case r of
        Inl err \<Rightarrow> refresh_failed (error_text engine err) s
      | Inr before \<Rightarrow>
          (let id = js_opt_prop before ''boot_id'';
               s1 = take_suspension (s\<lparr>rf_previousBootID := (if truthy id then id else JNull)\<rparr>)
           in s1\<lparr>rf_controllerBack := False, rf_uiBack := False, rf_refreshing := True,
                 rf_sent := rf_sent s1 + 1\<rparr>))"

definition refresh_answered :: "(js_error \<Rightarrow> string) \<Rightarrow> js_error + unit \<Rightarrow> refresh \<Rightarrow> refresh" where
  "refresh_answered engine r s =
     (case r of
        Inl err \<Rightarrow> refresh_failed (error_text engine err) s
      | Inr _ \<Rightarrow> s\<lparr>rf_toasts := rf_toasts s @ [Success ''system.refresh_toast_started'']\<rparr>)"

definition handleRefreshComplete :: "refresh \<Rightarrow> refresh" where
  "handleRefreshComplete s =
     s\<lparr>rf_controllerBack := True, rf_toasts := rf_toasts s @ [Success ''system.refresh_toast_complete''],
       rf_probe := Some (length (rf_aborted s)), rf_aborted := rf_aborted s @ [False]\<rparr>"

definition probe_settled :: "nat \<Rightarrow> bool \<Rightarrow> refresh \<Rightarrow> refresh" where
  "probe_settled ctrl reached s = (if rf_aborted s ! ctrl then s else s\<lparr>rf_uiBack := reached\<rparr>)"

definition closeRefreshDialog :: "refresh \<Rightarrow> refresh" where
  "closeRefreshDialog s =
     (let s1 = (abort_probe s)\<lparr>rf_probe := None\<rparr>;
          s2 = (run_release s1)\<lparr>rf_release := None\<rparr>
      in s2\<lparr>rf_dialog := False, rf_refreshing := False, rf_controllerBack := False, rf_uiBack := False\<rparr>)"

text \<open>\<open>onOpenChange\<close> of the dialog: dismissing it is ignored while the successor boots.\<close>

definition dialog_changed :: "bool \<Rightarrow> refresh \<Rightarrow> refresh" where
  "dialog_changed v s =
     (if v then s else if rf_refreshing s \<and> \<not> rf_controllerBack s then s else closeRefreshDialog s)"

definition page_left :: "refresh \<Rightarrow> refresh" where
  "page_left s = (run_release (abort_probe s))\<lparr>rf_mounted := False\<rparr>"

datatype refresh_event =
    PollMounted
  | PollTick
  | PollAnswered "js_error + json"
  | DialogOpened
  | DialogCancelled
  | Confirmed
  | PingAnswered "js_error + json"
  | RefreshAnswered "js_error + unit"
  | BootCompleted
  | ProbeSettled nat bool
  | DialogDismissed
  | PageLeft

definition on_session :: "session_event \<Rightarrow> refresh \<Rightarrow> refresh" where
  "on_session ev s = s\<lparr>rf_session := session_step ev (rf_session s)\<rparr>"

fun refresh_step :: "(js_error \<Rightarrow> string) \<Rightarrow> refresh_event \<Rightarrow> refresh \<Rightarrow> refresh" where
  "refresh_step engine PollMounted s = on_session Mounted s"
| "refresh_step engine PollTick s = on_session Tick s"
| "refresh_step engine (PollAnswered a) s = on_session (Answered a) s"
| "refresh_step engine DialogOpened s = s\<lparr>rf_dialog := True\<rparr>"
| "refresh_step engine DialogCancelled s = s\<lparr>rf_dialog := False\<rparr>"
| "refresh_step engine Confirmed s = s"
| "refresh_step engine (PingAnswered r) s = ping_answered engine r s"
| "refresh_step engine (RefreshAnswered r) s = refresh_answered engine r s"
| "refresh_step engine BootCompleted s = handleRefreshComplete s"
| "refresh_step engine (ProbeSettled k ok) s = probe_settled k ok s"
| "refresh_step engine DialogDismissed s = dialog_changed False s"
| "refresh_step engine PageLeft s = page_left s"

definition refresh_run :: "(js_error \<Rightarrow> string) \<Rightarrow> refresh_event list \<Rightarrow> refresh \<Rightarrow> refresh" where
  "refresh_run engine evs s = fold (refresh_step engine) evs s"

section \<open>The probe for the restarted user interface\<close>

definition UI_PROBE_INTERVAL_MS :: int where "UI_PROBE_INTERVAL_MS = 2000"
definition UI_PROBE_TIMEOUT_MS :: int where "UI_PROBE_TIMEOUT_MS = 120000"

text \<open>
  The clock, the abort signal, the fetch of the page (\<open>None\<close> when it fails, \<open>Some\<close> of
  \<open>res.ok\<close> else) and the timer, over an arbitrary world.
\<close>

record 'w probe =
  pr_now :: "'w \<Rightarrow> int"
  pr_aborted :: "'w \<Rightarrow> bool"
  pr_fetch :: "'w \<Rightarrow> bool option \<times> 'w"
  pr_sleep :: "int \<Rightarrow> 'w \<Rightarrow> 'w"

fun probe_loop :: "nat \<Rightarrow> 'w probe \<Rightarrow> int \<Rightarrow> 'w \<Rightarrow> (bool \<times> 'w) option" where
  "probe_loop 0 p deadline w = None"
| "probe_loop (Suc n) p deadline w =
     (if pr_aborted p w then Some (False, w)
      else let (res, w1) = pr_fetch p w
           in if res = Some True then Some (True, w1)
              else if pr_aborted p w1 \<or> pr_now p w1 \<ge> deadline then Some (False, w1)
              else probe_loop n p deadline (pr_sleep p UI_PROBE_INTERVAL_MS w1))"

definition waitForUIDocument :: "nat \<Rightarrow> 'w probe \<Rightarrow> 'w \<Rightarrow> (bool \<times> 'w) option" where
  "waitForUIDocument fuel p w = probe_loop fuel p (pr_now p w + UI_PROBE_TIMEOUT_MS) w"

section \<open>The units\<close>

datatype unit_node = UnitNode "json obj" "unit_node list"

fun walk :: "unit_node list \<Rightarrow> json obj list" where
  "walk [] = []"
| "walk (UnitNode unit children # nodes) = unit # walk children @ walk nodes"

fun replace_first :: "string \<Rightarrow> string \<Rightarrow> string \<Rightarrow> string" where
  "replace_first p r [] = (if p = [] then r else [])"
| "replace_first p r (c # s) =
     (if starts_with p (c # s) then r @ drop (length p) (c # s) else c # replace_first p r s)"

definition group_log_unit :: "string \<Rightarrow> string \<Rightarrow> string \<Rightarrow> string" where
  "group_log_unit repo name version = ''tree:'' @ repo @ ''/'' @ name @ ''@'' @ version"

definition network_log_unit :: "string \<Rightarrow> string" where
  "network_log_unit unit = replace_first ''.service'' ''-network.service'' unit"

section \<open>Waiting for the state of a unit\<close>





section \<open>Actions\<close>

text \<open>What an action is confirmed for: a unit, or with its tree the repo, name, version and unit name of the root.\<close>

record action_confirm =
  ac_name :: string
  ac_action :: string
  ac_cascade :: "(string \<times> string \<times> string \<times> string) option"

record 'w system_page = "'w page" +
  sp_confirm :: "action_confirm option"
  sp_inProgress :: bool

definition action_target :: "string \<Rightarrow> string" where
  "action_target action = (if action = ''stop'' then ''inactive'' else ''active'')"

definition toastKeyByAction :: "string \<Rightarrow> string" where
  "toastKeyByAction action =
     (if action = ''start'' then ''system.toast_starting''
      else if action = ''stop'' then ''system.toast_stopping''
      else if action = ''restart'' then ''system.toast_restarting'' else ''undefined'')"

text \<open>
  \<open>reached\<close> is what the promise of \<open>pollUnitState\<close> resolves to; a promise that is never
  resolved leaves the handler waiting.
\<close>

definition handleAction :: "'w env \<Rightarrow> bool \<Rightarrow> ('w system_page, js_error, unit) eff" where
  "handleAction env reached =
     eff_bind (page_read sp_confirm) (\<lambda>actionConfirm.
       case actionConfirm of
         None \<Rightarrow> eff_return ()
       | Some ac \<Rightarrow>
           block
             [page_set (\<lambda>pg. pg\<lparr>sp_inProgress := True\<rparr>),
              show_toast (Loading (toastKeyByAction (ac_action ac)) None),
              eff_finally
                (eff_catch
                  (block
                    [(case ac_cascade ac of
                        Some (repo, name, version, _) \<Rightarrow>
                          api (\<lambda>c. setUnitStatusTree (en_net env) c repo name version (ac_action ac))
                      | None \<Rightarrow> api (\<lambda>c. setUnitStatus (en_net env) c (ac_name ac) (ac_action ac))),
                     show_toast (Loading ''system.toast_action_waiting'' None),
                     show_toast Dismissed,
                     show_toast (if reached then Success ''system.toast_action_success''
                                 else Warning ''system.toast_action_timeout'')])
                  (\<lambda>err. block [show_toast Dismissed, toast_error env err]))
                (block [page_set (\<lambda>pg. pg\<lparr>sp_inProgress := False, sp_confirm := None\<rparr>), doRefresh])])"

definition handleSystemServiceAction ::
  "'w env \<Rightarrow> bool \<Rightarrow> string \<Rightarrow> string \<Rightarrow> ('w system_page, js_error, unit) eff"
where
  "handleSystemServiceAction env reached key action =
     block
       [page_set (\<lambda>pg. pg\<lparr>sp_inProgress := True\<rparr>),
        show_toast (Loading (toastKeyByAction action) None),
        eff_finally
          (eff_catch
            (block
              [api (\<lambda>c. setSystemServiceStatus (en_net env) c key action),
               show_toast (Loading ''system.toast_action_waiting'' None),
               show_toast Dismissed,
               show_toast (if reached then Success ''system.toast_action_success''
                           else Warning ''system.toast_action_timeout'')])
            (\<lambda>err. block [show_toast Dismissed, toast_error env err]))
          (block [page_set (\<lambda>pg. pg\<lparr>sp_inProgress := False\<rparr>), doRefresh])]"

section \<open>Lemmas\<close>

text \<open>
  The suspensions held are those of others and the one this page took; while the page is
  mounted it holds the one in its ref.
\<close>

definition refresh_inv :: "nat set \<Rightarrow> refresh \<Rightarrow> bool" where
  "refresh_inv others s \<longleftrightarrow>
     (let g = ss_guard (rf_session s); mine = set_option (rf_release s)
      in guard_ok g \<and> others \<inter> mine = {} \<and> others \<subseteq> held g \<and> held g \<subseteq> others \<union> mine \<and>
         (rf_mounted s \<longrightarrow> mine \<subseteq> held g))"

lemma run_release_simps [simp]:
  "held (ss_guard (rf_session (run_release s))) = held (ss_guard (rf_session s)) - set_option (rf_release s)"
  "guard_ok (ss_guard (rf_session s)) \<Longrightarrow> guard_ok (ss_guard (rf_session (run_release s)))"
  "rf_release (run_release s) = rf_release s" "rf_mounted (run_release s) = rf_mounted s"
  "ss_storage (rf_session (run_release s)) = ss_storage (rf_session s)"
  by (auto simp: run_release_def held_release guard_ok_release split: option.split)

lemma abort_probe_simps [simp]:
  "rf_session (abort_probe s) = rf_session s" "rf_release (abort_probe s) = rf_release s"
  "rf_mounted (abort_probe s) = rf_mounted s"
  by (simp_all add: abort_probe_def split: option.split)

lemma take_suspension_inv:
  assumes "refresh_inv others s"
  shows "refresh_inv others (take_suspension s) \<and> rf_release (take_suspension s) \<noteq> None \<and>
    (rf_mounted s \<longrightarrow> set_option (rf_release (take_suspension s)) \<subseteq> held (ss_guard (rf_session (take_suspension s))))"
proof (cases "rf_release s")
  case None
  obtain k g where g: "suspendSessionChecks (ss_guard (rf_session s)) = (k, g)" by force
  then show ?thesis
    using None assms held_suspend [OF g] guard_ok_suspend [OF _ g]
    by (auto simp: take_suspension_def refresh_inv_def Let_def)
next
  case (Some k)
  then show ?thesis using assms by (auto simp: take_suspension_def refresh_inv_def Let_def)
qed

lemma refresh_inv_frame [simp]:
  "refresh_inv others (s\<lparr>rf_refreshing := b\<rparr>) = refresh_inv others s"
  "refresh_inv others (s\<lparr>rf_controllerBack := b\<rparr>) = refresh_inv others s"
  "refresh_inv others (s\<lparr>rf_uiBack := b\<rparr>) = refresh_inv others s"
  "refresh_inv others (s\<lparr>rf_sent := n\<rparr>) = refresh_inv others s"
  "refresh_inv others (s\<lparr>rf_toasts := xs\<rparr>) = refresh_inv others s"
  "refresh_inv others (s\<lparr>rf_dialog := b\<rparr>) = refresh_inv others s"
  "refresh_inv others (s\<lparr>rf_previousBootID := v\<rparr>) = refresh_inv others s"
  "refresh_inv others (s\<lparr>rf_probe := p, rf_aborted := bs\<rparr>) = refresh_inv others s"
  by (simp_all add: refresh_inv_def)

lemma refresh_failed_inv: "refresh_inv others s \<Longrightarrow> refresh_inv others (refresh_failed text s)"
  by (auto simp: refresh_failed_def refresh_inv_def Let_def)

lemma closeRefreshDialog_inv: "refresh_inv others s \<Longrightarrow> refresh_inv others (closeRefreshDialog s)"
  by (auto simp: closeRefreshDialog_def refresh_inv_def Let_def)

lemma page_left_inv: "refresh_inv others s \<Longrightarrow> refresh_inv others (page_left s)"
  by (auto simp: page_left_def refresh_inv_def Let_def)

lemma session_step_held:
  assumes "ev \<in> {Mounted, Tick, Answered a}"
  shows "ss_guard (session_step ev s) = ss_guard s"
  using assms
  by (auto simp: session_step_def auth_effect_def navigate_def check_sent_def check_answered_def logout_def
      split: sum.split option.split js_error.split)

lemma on_session_inv: "ev \<in> {Mounted, Tick, Answered a} \<Longrightarrow> refresh_inv others s \<Longrightarrow> refresh_inv others (on_session ev s)"
  using session_step_held [of ev a "rf_session s"] by (simp add: on_session_def refresh_inv_def)

lemma refresh_step_inv: "refresh_inv others s \<Longrightarrow> refresh_inv others (refresh_step engine ev s)"
  by (cases ev)
    (auto simp: on_session_inv ping_answered_def refresh_answered_def refresh_failed_inv take_suspension_inv
      handleRefreshComplete_def probe_settled_def dialog_changed_def closeRefreshDialog_inv page_left_inv Let_def
      split: sum.split)

lemma refresh_run_inv: "refresh_inv others s \<Longrightarrow> refresh_inv others (refresh_run engine evs s)"
  by (induction evs arbitrary: s) (auto simp: refresh_run_def refresh_step_inv)








text \<open>The rounds of the probe: the clock has moved on by an interval for each.\<close>

lemma probe_loop_ends:
  assumes "\<And>w. pr_now p w \<le> pr_now p (snd (pr_fetch p w))"
    and "\<And>w. \<not> pr_aborted p (pr_sleep p UI_PROBE_INTERVAL_MS w) \<Longrightarrow>
      pr_now p w + UI_PROBE_INTERVAL_MS \<le> pr_now p (pr_sleep p UI_PROBE_INTERVAL_MS w)"
  shows "n \<ge> 1 \<Longrightarrow> pr_aborted p w \<or> deadline \<le> pr_now p w + int (n - 1) * UI_PROBE_INTERVAL_MS \<Longrightarrow>
    \<exists>ok w'. probe_loop n p deadline w = Some (ok, w') \<and> (if ok then \<exists>v. pr_fetch p v = (Some True, w')
      else pr_aborted p w' \<or> pr_now p w' \<ge> deadline)"
proof (induction n arbitrary: w)
  case (Suc n)
  obtain res w1 where f: "pr_fetch p w = (res, w1)" by force
  have now: "pr_now p w \<le> pr_now p w1" using assms(1) [of w] f by simp
  consider "pr_aborted p w" | "res = Some True" | "pr_aborted p w1 \<or> pr_now p w1 \<ge> deadline"
    | "\<not> pr_aborted p w" "res \<noteq> Some True" "\<not> pr_aborted p w1" "pr_now p w1 < deadline" by linarith
  then show ?case
  proof cases
    case 4
    then obtain m where n: "n = Suc m" using Suc.prems now by (cases n) auto
    let ?w2 = "pr_sleep p UI_PROBE_INTERVAL_MS w1"
    have "deadline \<le> pr_now p w + (1 + int m) * UI_PROBE_INTERVAL_MS"
      using Suc.prems(2) 4(1) by (simp add: n)
    then have "deadline \<le> pr_now p w + UI_PROBE_INTERVAL_MS + int (n - 1) * UI_PROBE_INTERVAL_MS"
      by (simp add: n distrib_right)
    then have "pr_aborted p ?w2 \<or> deadline \<le> pr_now p ?w2 + int (n - 1) * UI_PROBE_INTERVAL_MS"
      using assms(2) [of w1] now by linarith
    then show ?thesis using Suc.IH [of ?w2] 4 f by (simp add: n)
  qed (use f in \<open>auto split: if_splits\<close>)
qed simp

section \<open>Properties\<close>


definition sample_refresh :: refresh where
  "sample_refresh =
     \<lparr>rf_session = sample_session, rf_release = None, rf_probe = None, rf_aborted = [], rf_dialog = True,
      rf_refreshing = False, rf_controllerBack = False, rf_uiBack = False, rf_previousBootID = JNull,
      rf_toasts = [], rf_sent = 0, rf_mounted = True\<rparr>"

lemma sample_refresh_inv: "refresh_inv {} sample_refresh"
  by (simp add: refresh_inv_def sample_refresh_def sample_session_def guard_ok_initial Let_def)
     (simp add: held_def initial_guard_def)


text \<open>C21: The restart gives back what it took: after its failure, after the dialog is closed and
  after the page is left, the session poll runs again unless somebody else holds it.\<close>

theorem restart_releases:
  assumes "refresh_inv others s"
  shows "held (ss_guard (rf_session (refresh_failed text s))) = others \<and>
    held (ss_guard (rf_session (closeRefreshDialog s))) = others \<and>
    held (ss_guard (rf_session (page_left s))) = others \<and>
    isSessionCheckSuspended (ss_guard (rf_session (closeRefreshDialog s))) = (others \<noteq> {})"
proof -
  have h: "held (ss_guard (rf_session (refresh_failed text s))) = others"
    "held (ss_guard (rf_session (closeRefreshDialog s))) = others"
    "held (ss_guard (rf_session (page_left s))) = others"
    using assms by (auto simp: refresh_failed_def closeRefreshDialog_def page_left_def refresh_inv_def Let_def
        run_release_simps(1))
  have "guard_ok (ss_guard (rf_session (closeRefreshDialog s)))"
    using closeRefreshDialog_inv [OF assms] by (simp add: refresh_inv_def Let_def)
  then show ?thesis using h by (simp add: session_guard.on_iff)
qed

theorem restart_releases_witness:
  "held (ss_guard (rf_session (closeRefreshDialog (ping_answered (\<lambda>_. []) (Inr JNull) sample_refresh)))) = {}"
  using restart_releases [OF refresh_step_inv [OF sample_refresh_inv, of _ "PingAnswered (Inr JNull)"]] by simp

text \<open>A ping that is answered late is acted on: after the page was left the restart is still
  requested and the session poll held down, and no event of that page gives it back; after
  the dialog was cancelled the restart runs all the same, behind a closed dialog.\<close>

theorem late_ping_restarts:
  assumes "refresh_inv {} s" "rf_release s = None"
    and "list_all (\<lambda>ev. ev \<in> {PollMounted, PollTick, DialogOpened, RefreshAnswered (Inr ())} \<or> (\<exists>a. ev = PollAnswered a)) evs"
  shows "isSessionCheckSuspended (ss_guard (rf_session
      (refresh_run engine ([PageLeft, PingAnswered (Inr before)] @ evs) s))) \<and>
    rf_sent (refresh_run engine [DialogCancelled, PingAnswered (Inr before)] s) = rf_sent s + 1 \<and>
    rf_refreshing (refresh_run engine [DialogCancelled, PingAnswered (Inr before)] s) \<and>
    \<not> rf_dialog (refresh_run engine [DialogCancelled, PingAnswered (Inr before)] s)"
proof -
  let ?t = "refresh_run engine [PageLeft, PingAnswered (Inr before)] s"
  have h: "held (ss_guard (rf_session (take_suspension u))) \<noteq> {}" if "rf_release u = None" for u
  proof -
    obtain k g where g: "suspendSessionChecks (ss_guard (rf_session u)) = (k, g)" by force
    then show ?thesis using that held_suspend [OF g] by (simp add: take_suspension_def Let_def)
  qed
  have "held (ss_guard (rf_session ?t)) \<noteq> {}"
    using h [of "(page_left s)\<lparr>rf_previousBootID := x\<rparr>" for x] assms(2)
    by (simp add: refresh_run_def ping_answered_def Let_def page_left_def)
  moreover have "held (ss_guard (rf_session (refresh_run engine evs u))) = held (ss_guard (rf_session u))" for u
    using assms(3)
  proof (induction evs arbitrary: u)
    case (Cons ev evs)
    have "ss_guard (rf_session (refresh_step engine ev u)) = ss_guard (rf_session u)"
      using Cons.prems by (auto simp: on_session_def session_step_held refresh_answered_def)
    then show ?case using Cons by (simp add: refresh_run_def)
  qed (simp add: refresh_run_def)
  moreover have "refresh_run engine ([PageLeft, PingAnswered (Inr before)] @ evs) s = refresh_run engine evs ?t"
    by (simp add: refresh_run_def)
  moreover have "guard_ok (ss_guard (rf_session (refresh_run engine evs ?t)))"
    using refresh_run_inv [OF refresh_run_inv [OF assms(1)]] by (simp add: refresh_inv_def Let_def)
  moreover have "rf_sent (take_suspension u) = rf_sent u" "rf_dialog (take_suspension u) = rf_dialog u" for u
    by (simp_all add: take_suspension_def Let_def split: option.split prod.split)
  ultimately show ?thesis
    by (simp add: session_guard.on_iff) (simp add: refresh_run_def ping_answered_def Let_def)
qed

theorem late_ping_restarts_witness:
  "isSessionCheckSuspended (ss_guard (rf_session
     (refresh_run (\<lambda>_. []) ([PageLeft, PingAnswered (Inr JNull)] @ [RefreshAnswered (Inr ()), PollAnswered expired_answer])
        sample_refresh)))"
proof -
  have "rf_release sample_refresh = None" by (simp add: sample_refresh_def)
  then show ?thesis
    using late_ping_restarts [OF sample_refresh_inv, of "[RefreshAnswered (Inr ()), PollAnswered expired_answer]"]
    by fastforce
qed

text \<open>C22: The probe for the user interface ends: with a clock that does not run backwards and a
  timer that sleeps as long as it is told unless it is aborted, 61 rounds are enough; it
  reports success only on a fetch that succeeded, and failure only when it was aborted or
  two minutes are over.\<close>

theorem waitForUIDocument_terminates:
  assumes "\<And>w. pr_now p w \<le> pr_now p (snd (pr_fetch p w))"
    and "\<And>w. \<not> pr_aborted p (pr_sleep p UI_PROBE_INTERVAL_MS w) \<Longrightarrow>
      pr_now p w + UI_PROBE_INTERVAL_MS \<le> pr_now p (pr_sleep p UI_PROBE_INTERVAL_MS w)"
  shows "\<exists>ok w'. waitForUIDocument 61 p w = Some (ok, w') \<and>
    (if ok then \<exists>v. pr_fetch p v = (Some True, w')
     else pr_aborted p w' \<or> pr_now p w' \<ge> pr_now p w + 120000)"
  using probe_loop_ends [where p = p and n = 61 and w = w and deadline = "pr_now p w + UI_PROBE_TIMEOUT_MS", OF assms]
  unfolding waitForUIDocument_def UI_PROBE_INTERVAL_MS_def UI_PROBE_TIMEOUT_MS_def by simp

definition dead_probe :: "int probe" where
  "dead_probe =
     \<lparr>pr_now = (\<lambda>w. w), pr_aborted = (\<lambda>_. False), pr_fetch = (\<lambda>w. (None, w)), pr_sleep = (\<lambda>ms w. w + ms)\<rparr>"

theorem waitForUIDocument_terminates_witness:
  "\<exists>w'. waitForUIDocument 61 dead_probe 0 = Some (False, w') \<and> 120000 \<le> w'"
  using waitForUIDocument_terminates [of dead_probe 0] by (auto simp: dead_probe_def split: if_splits)


lemma system_page_progress [simp]:
  "progress_shown (pg\<lparr>sp_inProgress := b\<rparr>) = progress_shown pg"
  by (simp add: progress_shown_def)

text \<open>An action on a unit or a system service ends cleanly whatever the server answers: no
  toast of its progress stands, the buttons are enabled again, the list is refreshed, and
  success is reported only when the request was accepted and the state was reached.\<close>

theorem actions_settle:
  assumes "sp_confirm pg = Some ac"
  shows "wp (handleAction env reached) (\<lambda>r pg'. r = Inr () \<and> \<not> progress_shown pg' \<and> \<not> sp_inProgress pg' \<and>
      sp_confirm pg' = None \<and> pg_refreshKey pg' = pg_refreshKey pg + 1 \<and>
      (last (pg_log pg') = Success ''system.toast_action_success'' \<longrightarrow> reached)) pg \<and>
    wp (handleSystemServiceAction env reached key action) (\<lambda>r pg'. r = Inr () \<and> \<not> progress_shown pg' \<and>
      \<not> sp_inProgress pg' \<and> pg_refreshKey pg' = pg_refreshKey pg + 1 \<and>
      (last (pg_log pg') = Success ''system.toast_action_success'' \<longrightarrow> reached)) pg"
  using assms
  by (auto simp: handleAction_def handleSystemServiceAction_def wp_simps progress_shown_def
      intro!: wp_api split: sum.split option.split)

definition sample_system :: "unit system_page" where
  "sample_system =
     \<lparr>pg_net = (), pg_storage = \<lparr>st_local = Map.empty, st_session = Map.empty\<rparr>,
      pg_client = newClient ''http://box:5309'', pg_log = [], pg_refreshKey = 0,
      sp_confirm = Some \<lparr>ac_name = ''x.service'', ac_action = ''stop'', ac_cascade = None\<rparr>, sp_inProgress = False\<rparr>"

theorem actions_settle_witness:
  "wp (handleAction \<lparr>en_net = (\<lambda>rq w. (Inl (NetworkErr ''down''), w)), en_message = (\<lambda>_. [])\<rparr> True)
     (\<lambda>r pg'. r = Inr () \<and> \<not> sp_inProgress pg') sample_system"
proof -
  have "sp_confirm sample_system = Some \<lparr>ac_name = ''x.service'', ac_action = ''stop'', ac_cascade = None\<rparr>"
    by (simp add: sample_system_def)
  from conjunct1 [OF actions_settle [OF this]] show ?thesis by (rule wp_weaken) simp
qed

end
