(* ===== verification/Journal.thy ===== *)
theory Journal
  imports RefreshFlow
begin

text \<open>
  \<^verbatim>\<open>components/JournalViewer.jsx\<close> with its two hooks \<^verbatim>\<open>lib/use-follow-mode.js\<close> and
  \<^verbatim>\<open>lib/use-journal-search.js\<close>: which requests the viewer makes, how their answers are put
  together, when it follows, and how typing is debounced.  Dates are converted by the
  browser; the model takes the converted times as arguments.
\<close>

section \<open>Tree keys\<close>

definition parseTreeKey :: "string \<Rightarrow> (string \<times> string \<times> string) option" where
  "parseTreeKey key =
     (if \<not> starts_with ''tree:'' key then None
      else (let rest = drop 5 key
            in (case last_index_of_char CHR ''@'' rest of
                  None \<Rightarrow> None
                | Some atIdx \<Rightarrow>
                    let version = drop (Suc atIdx) rest;
                        repoName = take atIdx rest
                    in (case index_of_char CHR ''/'' repoName of
                          None \<Rightarrow> None
                        | Some slashIdx \<Rightarrow>
                            let repo = take slashIdx repoName;
                                name = drop (Suc slashIdx) repoName
                            in if repo = [] \<or> name = [] \<or> version = [] then None
                               else Some (repo, name, version)))))"

section \<open>Follow mode: use-follow-mode.js\<close>

record follow =
  fm_mode :: bool
  fm_saved :: "bool option"

definition initial_follow :: follow where
  "initial_follow = \<lparr>fm_mode = True, fm_saved = None\<rparr>"

text \<open>The effect on a change of \<open>isSearchActive\<close>; \<open>followModeRef\<close> holds the mode last rendered.\<close>

definition search_active_changed :: "bool \<Rightarrow> follow \<Rightarrow> follow" where
  "search_active_changed isSearchActive f =
     (if isSearchActive
      then \<lparr>fm_mode = False, fm_saved = (if fm_saved f = None then Some (fm_mode f) else fm_saved f)\<rparr>
      else (case fm_saved f of
              Some v \<Rightarrow> \<lparr>fm_mode = v, fm_saved = None\<rparr>
            | None \<Rightarrow> f))"

definition toggleFollow :: "follow \<Rightarrow> follow" where
  "toggleFollow f = f\<lparr>fm_mode := \<not> fm_mode f\<rparr>"

datatype follow_event = ActiveChanged bool | FollowToggled

definition follow_step :: "follow_event \<Rightarrow> follow \<Rightarrow> follow" where
  "follow_step ev f = (case ev of ActiveChanged b \<Rightarrow> search_active_changed b f | FollowToggled \<Rightarrow> toggleFollow f)"

section \<open>The debounced search: use-journal-search.js\<close>

text \<open>
  The parameters are the unit, the query, the two converted times and the priority; the
  timer holds those its callback will load with.
\<close>

type_synonym search_params_of = "string \<times> string \<times> int option \<times> int option \<times> int"

record journal_search =
  js_init :: bool
  js_timer :: "search_params_of option"
  js_loads :: "search_params_of list"

definition initial_search :: journal_search where
  "initial_search = \<lparr>js_init = True, js_timer = None, js_loads = []\<rparr>"

text \<open>Before the effect runs again the cleanup of its last run clears the timer.\<close>

definition search_changed :: "string option \<Rightarrow> string \<Rightarrow> int option \<Rightarrow> int option \<Rightarrow> int \<Rightarrow> journal_search \<Rightarrow> journal_search" where
  "search_changed journalUnit searchQuery since until priority s =
     (let s0 = s\<lparr>js_timer := None\<rparr>
      in if \<not> given journalUnit then s0\<lparr>js_init := True\<rparr>
         else if js_init s0 then s0\<lparr>js_init := False\<rparr>
         else s0\<lparr>js_timer := Some (the journalUnit, searchQuery, since, until, priority)\<rparr>)"

definition search_fired :: "journal_search \<Rightarrow> journal_search" where
  "search_fired s =
     (case js_timer s of
        None \<Rightarrow> s
      | Some p \<Rightarrow> s\<lparr>js_timer := None, js_loads := js_loads s @ [p]\<rparr>)"

section \<open>The viewer\<close>

record 'w journal_page = "'w page" +
  jv_unit :: "string option"
  jv_entries :: "json list"
  jv_cursor :: json
  jv_endCursor :: json
  jv_hasMore :: bool
  jv_loading :: bool
  jv_query :: string
  jv_priority :: int
  jv_expanded :: "bool obj"

type_synonym 'w journal_handler = "('w journal_page, js_error, unit) eff"

text \<open>\<open>x || undefined\<close> for texts and numbers, and a cursor, a string or \<open>null\<close>, as an argument.\<close>

definition text_arg :: "string option \<Rightarrow> string option" where
  "text_arg x = (if given x then x else None)"

definition num_arg :: "int option \<Rightarrow> int option" where
  "num_arg x = (if given_num x then x else None)"

definition cursor_arg :: "json \<Rightarrow> string option" where
  "cursor_arg v = (case v of JStr s \<Rightarrow> Some s | _ \<Rightarrow> None)"

definition tail_of ::
  "'w env \<Rightarrow> string \<Rightarrow> string option \<Rightarrow> string option \<Rightarrow> string option \<Rightarrow> int option \<Rightarrow> int option \<Rightarrow> int option \<Rightarrow>
   ('w journal_page, js_error, json) eff"
where
  "tail_of env unitName before after grep since until priority =
     (case parseTreeKey unitName of
        Some (repo, name, version) \<Rightarrow>
          api (\<lambda>c. logTailTree (en_net env) c repo name version (Some 200) before after grep since until priority)
      | None \<Rightarrow>
          api (\<lambda>c. logTail (en_net env) c (if unitName = ''__system__'' then [] else unitName) (Some 200)
            before after grep since until priority))"

definition entries_of :: "json \<Rightarrow> json list" where
  "entries_of result = elements (json_or (js_opt_prop result ''entries'') (JArr []))"

definition load_answered :: "string option \<Rightarrow> json \<Rightarrow> 'w journal_handler" where
  "load_answered beforeCursor result =
     (let entries = entries_of result
      in block
        [(if given beforeCursor then page_set (\<lambda>pg. pg\<lparr>jv_entries := entries @ jv_entries pg\<rparr>)
          else page_set (\<lambda>pg. pg\<lparr>jv_entries := entries,
            jv_endCursor := (if truthy (js_opt_prop result ''end_cursor'')
                             then js_opt_prop result ''end_cursor'' else jv_endCursor pg)\<rparr>)),
         page_set (\<lambda>pg. pg\<lparr>jv_cursor := json_or (js_opt_prop result ''cursor'') JNull,
           jv_hasMore := (length entries \<ge> 200 \<and> truthy (js_opt_prop result ''cursor''))\<rparr>)])"

definition loadEntries ::
  "'w env \<Rightarrow> string \<Rightarrow> string option \<Rightarrow> string \<Rightarrow> int option \<Rightarrow> int option \<Rightarrow> int option \<Rightarrow> 'w journal_handler"
where
  "loadEntries env unitName beforeCursor grep since until priority =
     eff_finally
       (eff_catch
         (block
           [page_set (\<lambda>pg. pg\<lparr>jv_loading := True\<rparr>),
            eff_bind (tail_of env unitName beforeCursor None (text_arg (Some grep)) (num_arg since) (num_arg until)
                (num_arg priority)) (\<lambda>result.
              if js_nullish result then eff_throw TypeErr else load_answered beforeCursor result)])
         (\<lambda>_. eff_return ()))
       (page_set (\<lambda>pg. pg\<lparr>jv_loading := False\<rparr>))"

text \<open>A unit is opened, with the times around \<open>initialTimestamp\<close> when there is one.\<close>

definition unit_opened :: "'w env \<Rightarrow> string \<Rightarrow> int \<Rightarrow> (int \<times> int) option \<Rightarrow> 'w journal_handler" where
  "unit_opened env unit p around =
     block
       [page_set (\<lambda>pg. pg\<lparr>jv_unit := Some unit, jv_priority := p\<rparr>),
        loadEntries env unit None [] (map_option fst around) (map_option snd around) (Some p)]"

definition unit_closed :: "'w journal_handler" where
  "unit_closed = page_set (\<lambda>pg. pg\<lparr>jv_unit := None\<rparr>)"

definition loadMore :: "'w env \<Rightarrow> 'w journal_handler" where
  "loadMore env =
     eff_bind (page_read (\<lambda>pg. (jv_unit pg, jv_cursor pg, jv_query pg, jv_priority pg))) (\<lambda>(unit, cursor, query, priority).
       if given unit \<and> truthy cursor
       then loadEntries env (the unit) (cursor_arg cursor) query None None (Some priority)
       else eff_return ())"

text \<open>A tick of the follow timer sends a request; its answer comes later.\<close>

definition follow_requested ::
  "'w env \<Rightarrow> string \<Rightarrow> json \<Rightarrow> string \<Rightarrow> int \<Rightarrow> ('w journal_page, js_error, json) eff"
where
  "follow_requested env unit endCursor query priority =
     tail_of env unit None (cursor_arg endCursor) (text_arg (Some query)) None None (num_arg (Some priority))"

definition follow_answered :: "js_error + json \<Rightarrow> 'w journal_handler" where
  "follow_answered r =
     (case r of
        Inl _ \<Rightarrow> eff_return ()
      | Inr result \<Rightarrow>
          (let entries = entries_of result
           in if entries \<noteq> []
              then page_set (\<lambda>pg. pg\<lparr>jv_entries := jv_entries pg @ entries,
                     jv_endCursor := json_or (js_opt_prop result ''end_cursor'') JNull\<rparr>)
              else eff_return ()))"

definition group_expanded :: "('w, 'm) journal_page_scheme \<Rightarrow> string \<Rightarrow> bool" where
  "group_expanded pg key \<longleftrightarrow> obj_get (jv_expanded pg) key \<noteq> Some False"

definition toggleGroup :: "string \<Rightarrow> 'w journal_handler" where
  "toggleGroup key = page_set (\<lambda>pg. pg\<lparr>jv_expanded :=
     obj_set (jv_expanded pg) key (obj_get (jv_expanded pg) key = Some False)\<rparr>)"

section \<open>The time filter\<close>

text \<open>Since date and hour, until date and hour.\<close>

type_synonym time_fields = "string \<times> string \<times> string \<times> string"

record time_filter =
  tf_active :: time_fields
  tf_pending :: time_fields
  tf_open :: bool

abbreviation no_time :: time_fields where
  "no_time \<equiv> ([], [], [], [])"

definition hasTimeFilter :: "time_filter \<Rightarrow> bool" where
  "hasTimeFilter tf \<longleftrightarrow> tf_active tf \<noteq> no_time"

definition clock_clicked :: "time_filter \<Rightarrow> time_filter" where
  "clock_clicked tf =
     (if hasTimeFilter tf \<and> \<not> tf_open tf then tf\<lparr>tf_active := no_time, tf_pending := no_time\<rparr>
      else (if tf_open tf then tf else tf\<lparr>tf_pending := tf_active tf\<rparr>)\<lparr>tf_open := \<not> tf_open tf\<rparr>)"

definition filter_committed :: "time_filter \<Rightarrow> time_filter" where
  "filter_committed tf = tf\<lparr>tf_active := tf_pending tf, tf_open := False\<rparr>"

definition filter_cleared :: "time_filter \<Rightarrow> time_filter" where
  "filter_cleared tf = \<lparr>tf_active = no_time, tf_pending = no_time, tf_open = False\<rparr>"

section \<open>Lemmas\<close>

lemma recording_getJSON:
  "\<exists>r. getJSON (recording a) c path [] w = (r, w @ [get_request c path []])"
  by (auto simp: getJSON_def get_def recording_def eff_bind_def eff_lift_def split: sum.split)

lemma wp_recording_getJSON:
  assumes "\<And>r c. c = getClient (pg_storage s) (pg_client s) \<Longrightarrow>
    Q r (s\<lparr>pg_client := c, pg_net := pg_net s @ [get_request c path []]\<rparr>)"
  shows "wp (api (\<lambda>c. getJSON (recording a) c path [])) Q s"
proof -
  obtain r where "getJSON (recording a) (getClient (pg_storage s) (pg_client s)) path [] (pg_net s)
      = (r, pg_net s @ [get_request (getClient (pg_storage s) (pg_client s)) path []])"
    using recording_getJSON by metis
  then show ?thesis using assms by (simp add: wp_def api_def Let_def)
qed



section \<open>Properties\<close>

text \<open>C23: The key under which the service tree opens the logs of a package group is read back as
  its repository, name and version, when the repository has no slash and the version no
  at sign, and a key is read as a group only when it is the key of that group.\<close>

theorem tree_key_roundtrip:
  assumes "CHR ''/'' \<notin> set repo" "CHR ''@'' \<notin> set version" "repo \<noteq> []" "name \<noteq> []" "version \<noteq> []"
  shows "parseTreeKey (group_log_unit repo name version) = Some (repo, name, version) \<and>
    (\<forall>key r n v. parseTreeKey key = Some (r, n, v) \<longrightarrow> key = group_log_unit r n v \<and> r \<noteq> [] \<and> n \<noteq> [] \<and> v \<noteq> [])"
proof -
  have rest: "drop 5 (group_log_unit repo name version) = (repo @ ''/'' @ name) @ CHR ''@'' # version"
    "starts_with ''tree:'' (group_log_unit repo name version)"
    by (simp_all add: group_log_unit_def)
  have "index_of_char CHR ''/'' (repo @ CHR ''/'' # name) = Some (length repo)"
    using assms(1) by (rule index_of_char_fresh)
  then have "parseTreeKey (group_log_unit repo name version) = Some (repo, name, version)"
    unfolding parseTreeKey_def rest Let_def
    using last_index_of_char_fresh [OF assms(2), of "repo @ ''/'' @ name"] rest(2) assms(3-5) by simp
  moreover have "key = group_log_unit r n v \<and> r \<noteq> [] \<and> n \<noteq> [] \<and> v \<noteq> []"
    if parsed: "parseTreeKey key = Some (r, n, v)" for key r n v
  proof -
    have st: "starts_with ''tree:'' key" using parsed by (auto simp: parseTreeKey_def split: if_splits)
    obtain i where i: "last_index_of_char CHR ''@'' (drop 5 key) = Some i"
      using parsed st by (cases "last_index_of_char CHR ''@'' (drop 5 key)") (auto simp: parseTreeKey_def Let_def)
    obtain j where j: "index_of_char CHR ''/'' (take i (drop 5 key)) = Some j"
      using parsed st i by (cases "index_of_char CHR ''/'' (take i (drop 5 key))") (auto simp: parseTreeKey_def Let_def)
    have rnv: "r = take j (take i (drop 5 key))" "n = drop (Suc j) (take i (drop 5 key))" "v = drop (Suc i) (drop 5 key)"
        "r \<noteq> []" "n \<noteq> []" "v \<noteq> []"
      using parsed st i j by (auto simp: parseTreeKey_def Let_def split: if_splits)
    have "key = ''tree:'' @ drop 5 key" using st by (auto simp: starts_with_iff simp del: starts_with.simps)
    also have "drop 5 key = take i (drop 5 key) @ CHR ''@'' # v"
      using last_index_of_char_Some [OF i] rnv(3) by simp
    also have "take i (drop 5 key) = r @ CHR ''/'' # n"
      using index_of_char_Some [OF j] rnv(1,2) by metis
    finally show ?thesis using rnv(4-6) by (simp add: group_log_unit_def)
  qed
  ultimately show ?thesis by blast
qed

theorem tree_key_roundtrip_witness:
  "parseTreeKey (group_log_unit ''core'' ''a@b'' ''1.2'') = Some (''core'', ''a@b'', ''1.2'')"
  using tree_key_roundtrip [of "''core''" "''1.2''" "''a@b''"] by simp

text \<open>A filter suspends following and gives back the mode that was chosen before it, whatever
  is toggled while it is active.\<close>

theorem follow_restored:
  assumes "fm_saved f = None" "list_all (\<lambda>e. e \<noteq> ActiveChanged False) evs"
  shows "fm_mode (search_active_changed True f) = False \<and>
    fold follow_step ([ActiveChanged True] @ evs @ [ActiveChanged False]) f = f"
proof -
  have "fm_saved (fold follow_step evs g) = Some v" if "fm_saved g = Some v" for g v
    using assms(2) that
  proof (induction evs arbitrary: g)
    case (Cons e evs)
    have "fm_saved (follow_step e g) = Some v"
      using Cons.prems by (cases e) (auto simp: follow_step_def search_active_changed_def toggleFollow_def)
    then show ?case using Cons by simp
  qed simp
  then have "fm_saved (fold follow_step evs (search_active_changed True f)) = Some (fm_mode f)"
    using assms(1) by (simp add: search_active_changed_def)
  then show ?thesis
    using assms(1) by (simp add: follow_step_def) (simp add: search_active_changed_def)
qed

theorem follow_restored_witness:
  "fold follow_step [ActiveChanged True, FollowToggled, ActiveChanged True, ActiveChanged False] initial_follow
   = initial_follow"
  using follow_restored [of initial_follow "[FollowToggled, ActiveChanged True]"]
  by (simp add: initial_follow_def)

definition change_search :: "search_params_of \<Rightarrow> journal_search \<Rightarrow> journal_search" where
  "change_search p s =
     (case p of (unit, query, since, until, priority) \<Rightarrow> search_changed (Some unit) query since until priority s)"

text \<open>Typing is debounced: opening a unit loads nothing through the search hook, and any
  number of changes before the timer fires makes one load, with the last parameters.\<close>

theorem search_debounced:
  assumes "list_all (\<lambda>p. fst p \<noteq> []) changes" "changes \<noteq> []"
  shows "(\<not> js_init s \<longrightarrow> js_loads (search_fired (fold change_search changes s)) = js_loads s @ [last changes] \<and>
      js_timer (search_fired (fold change_search changes s)) = None) \<and>
    (js_init s \<longrightarrow> js_loads (search_fired (change_search (hd changes) s)) = js_loads s)"
proof -
  have change: "change_search p u = (if js_init u then u\<lparr>js_timer := None, js_init := False\<rparr>
      else u\<lparr>js_timer := Some p\<rparr>)" if "fst p \<noteq> []" for p u
    using that by (cases p) (simp add: change_search_def search_changed_def given_def Let_def)
  have "\<not> js_init u \<Longrightarrow> fold change_search changes u = u\<lparr>js_timer := Some (last changes)\<rparr>" for u
    using assms
  proof (induction changes arbitrary: u)
    case (Cons p ps)
    then show ?case by (cases "ps = []") (simp_all add: change)
  qed simp
  moreover have "fst (hd changes) \<noteq> []" using assms by (cases changes) auto
  ultimately show ?thesis by (auto simp: search_fired_def change split: option.split)
qed

theorem search_debounced_witness:
  "js_loads (search_fired (fold change_search
     [(''nginx'', ''e'', None, None, 0), (''nginx'', ''er'', None, None, 0)] (initial_search\<lparr>js_init := False\<rparr>)))
   = [(''nginx'', ''er'', None, None, 0)]"
  using search_debounced [of "[(''nginx'', ''e'', None, None, 0), (''nginx'', ''er'', None, None, 0)]"
      "initial_search\<lparr>js_init := False\<rparr>"]
  by (simp add: initial_search_def)


text \<open>Two answers to the same follow request show its entries twice: a tick that comes while
  the last request is still out asks again from the same cursor.\<close>

theorem follow_overlap_duplicates:
  assumes "entries_of newer \<noteq> []"
  shows "wp (block [follow_answered (Inr newer), follow_answered (Inr newer)])
    (\<lambda>r pg'. r = Inr () \<and> jv_entries pg' = jv_entries pg @ entries_of newer @ entries_of newer) pg"
  using assms by (simp add: follow_answered_def wp_simps Let_def)

definition blank_journal :: "'w \<Rightarrow> 'w journal_page" where
  "blank_journal w =
     \<lparr>pg_net = w, pg_storage = \<lparr>st_local = Map.empty, st_session = Map.empty\<rparr>,
      pg_client = newClient ''http://box:5309'', pg_log = [], pg_refreshKey = 0,
      jv_unit = Some ''nginx.service'', jv_entries = [], jv_cursor = JStr ''c1'', jv_endCursor = JNull,
      jv_hasMore = True, jv_loading = False, jv_query = ''err'', jv_priority = 0, jv_expanded = []\<rparr>"


theorem follow_overlap_duplicates_witness:
  "wp (block [follow_answered (Inr (JObj [(''entries'', JArr [JNum 2])])), follow_answered (Inr (JObj [(''entries'', JArr [JNum 2])]))])
     (\<lambda>r pg'. jv_entries pg' = [JNum 2, JNum 2]) (blank_journal ())"
proof -
  have e: "entries_of (JObj [(''entries'', JArr [JNum 2])]) = [JNum 2]"
    by (simp add: entries_of_def js_opt_prop_def js_prop_def json_or_def elements_def)
  then have "entries_of (JObj [(''entries'', JArr [JNum 2])]) \<noteq> []" by simp
  from follow_overlap_duplicates [OF this, of "blank_journal ()"] show ?thesis
    unfolding e by (rule wp_weaken) (simp add: blank_journal_def)
qed

text \<open>Older entries are asked for without the time filter: whatever times the unit was opened
  around, the request for more names the cursor, the query and the priority only, so
  entries from before the start time are put in front.\<close>

theorem load_more_drops_times:
  assumes "en_net env = recording a" "jv_unit pg = Some unit" "unit \<noteq> []" "unit \<noteq> ''__system__''"
    and "parseTreeKey unit = None" "jv_cursor pg = JStr cursor" "cursor \<noteq> []"
  shows "wp (loadMore env) (\<lambda>r pg'. r = Inr () \<and>
    last (pg_net pg') = get_request (pg_client pg') (''/systemd/logs/tail?'' @ params_string
      (tail_filters [(''unit'', unit), (''lines'', ''200'')] (Some cursor) None (text_arg (Some (jv_query pg)))
         None None (num_arg (Some (jv_priority pg))))) []) pg"
proof -
  have l: "lines_arg (Some 200) = ''200''" by code_simp
  have n: "num_arg None = None" by (simp add: num_arg_def)
  show ?thesis
    unfolding loadMore_def loadEntries_def tail_of_def logTail_def
    using assms l n
    by (auto simp: wp_simps given_def cursor_arg_def load_answered_def Let_def intro!: wp_recording_getJSON
        split: sum.split)
qed

definition silent_env :: "request list env" where
  "silent_env = \<lparr>en_net = recording (\<lambda>sent rq. Inl (NetworkErr ''down'')), en_message = (\<lambda>_. [])\<rparr>"

theorem load_more_drops_times_witness:
  "wp (loadMore silent_env) (\<lambda>r pg'. r = Inr ()) (blank_journal [])"
proof -
  have h: "en_net silent_env = recording (\<lambda>sent rq. Inl (NetworkErr ''down''))"
    "jv_unit (blank_journal []) = Some ''nginx.service''" "''nginx.service'' \<noteq> []"
    "''nginx.service'' \<noteq> ''__system__''" "parseTreeKey ''nginx.service'' = None"
    "jv_cursor (blank_journal []) = JStr ''c1''" "''c1'' \<noteq> []"
    by (simp_all add: silent_env_def blank_journal_def parseTreeKey_def)
  from load_more_drops_times [OF h] show ?thesis by (rule wp_weaken) simp
qed

text \<open>Closing the journal and opening another unit does not start afresh: the query typed
  before still stands in the search box, but the entries of the new unit are asked for
  without it, and the search hook does not catch up.\<close>

theorem reopened_query_not_applied:
  assumes "en_net env = recording a" "unit \<noteq> []" "unit \<noteq> ''__system__''" "parseTreeKey unit = None"
  shows "wp (block [unit_closed, unit_opened env unit p None]) (\<lambda>r pg'. r = Inr () \<and> jv_query pg' = jv_query pg \<and>
      last (pg_net pg') = get_request (pg_client pg') (''/systemd/logs/tail?'' @ params_string
        (tail_filters [(''unit'', unit), (''lines'', ''200'')] None None None None None (num_arg (Some p)))) []) pg \<and>
    js_timer (search_changed (Some unit) (jv_query pg) None None p
      (search_changed None (jv_query pg) None None p search)) = None"
proof -
  have l: "lines_arg (Some 200) = ''200''" by code_simp
  have n: "num_arg None = None" "text_arg (Some []) = None" by (simp_all add: num_arg_def text_arg_def given_def)
  have "wp (block [unit_closed, unit_opened env unit p None]) (\<lambda>r pg'. r = Inr () \<and> jv_query pg' = jv_query pg \<and>
      last (pg_net pg') = get_request (pg_client pg') (''/systemd/logs/tail?'' @ params_string
        (tail_filters [(''unit'', unit), (''lines'', ''200'')] None None None None None (num_arg (Some p)))) []) pg"
    unfolding unit_opened_def loadEntries_def tail_of_def logTail_def unit_closed_def
    using assms l n
    by (auto simp: wp_simps given_def load_answered_def Let_def intro!: wp_recording_getJSON split: sum.split)
  then show ?thesis using assms(2) by (simp add: search_changed_def given_def Let_def)
qed

theorem reopened_query_not_applied_witness:
  "wp (block [unit_closed, unit_opened silent_env ''nginx.service'' 0 None]) (\<lambda>r pg'. jv_query pg' = ''err'')
     (blank_journal [])"
proof -
  have h: "en_net silent_env = recording (\<lambda>sent rq. Inl (NetworkErr ''down''))" "''nginx.service'' \<noteq> []"
    "''nginx.service'' \<noteq> ''__system__''" "parseTreeKey ''nginx.service'' = None"
    by (simp_all add: silent_env_def parseTreeKey_def)
  from conjunct1 [OF reopened_query_not_applied [OF h, of 0 "blank_journal []" initial_search]]
  show ?thesis by (rule wp_weaken) (simp add: blank_journal_def)
qed

lemma toggleGroup_flips:
  "wp (toggleGroup key) (\<lambda>r pg'. r = Inr () \<and> group_expanded pg' key = (\<not> group_expanded pg key) \<and>
     (\<forall>k. k \<noteq> key \<longrightarrow> group_expanded pg' k = group_expanded pg k)) pg"
  by (simp add: toggleGroup_def group_expanded_def wp_simps obj_get_def)

lemma time_filter_buttons:
  "\<not> hasTimeFilter (filter_cleared tf)" "hasTimeFilter (filter_committed tf) = (tf_pending tf \<noteq> no_time)"
  "\<not> hasTimeFilter tf \<Longrightarrow> \<not> tf_open tf \<Longrightarrow> tf_open (clock_clicked tf)"
  "hasTimeFilter tf \<Longrightarrow> \<not> tf_open tf \<Longrightarrow> \<not> hasTimeFilter (clock_clicked tf)"
  by (simp_all add: hasTimeFilter_def filter_cleared_def filter_committed_def clock_clicked_def)

end
