(* ===== verification/DataTable.thy ===== *)
theory DataTable
  imports JsJson
begin

text \<open>
  \<^verbatim>\<open>components/DataTable.jsx\<close>: the rows a table shows, its page buttons, the sort order a
  click asks for, and the debounced search it passes on.  Rows are JSON objects; the
  widths and classes of the cells are left out.
\<close>

section \<open>Columns and rows\<close>

record column =
  co_key :: string
  co_sortable :: bool
  co_sortValues :: "string list option"

definition searchableKeys :: "column list \<Rightarrow> string list" where
  "searchableKeys columns = map co_key (filter co_sortable columns)"

definition row_matches :: "string list \<Rightarrow> string \<Rightarrow> json \<Rightarrow> bool" where
  "row_matches keys term row =
     list_ex (\<lambda>key. let val = js_opt_prop row key
                in \<not> js_nullish val \<and> str_includes term (to_lower (js_string val))) keys"

text \<open>\<open>serverSide\<close> and whether \<open>onSearchChange\<close> is given decide who filters.\<close>

definition filtered :: "json list \<Rightarrow> column list \<Rightarrow> string \<Rightarrow> bool \<Rightarrow> bool \<Rightarrow> json list" where
  "filtered data columns term serverSide onSearchChange =
     (if serverSide \<and> onSearchChange then data
      else if term = [] then data
      else filter (row_matches (searchableKeys columns) (to_lower term)) data)"

definition displayed :: "json list \<Rightarrow> bool \<Rightarrow> nat \<Rightarrow> nat \<Rightarrow> json list" where
  "displayed rows serverSide currentPage pageSize =
     (if serverSide then rows
      else drop (currentPage * pageSize) (take ((currentPage + 1) * pageSize) rows))"

text \<open>\<open>totalPagesProp ?? (Math.ceil(totalFiltered / pageSize) || 1)\<close>\<close>

definition totalPages :: "int option \<Rightarrow> nat \<Rightarrow> nat \<Rightarrow> int" where
  "totalPages prop totalFiltered pageSize =
     (case prop of
        Some n \<Rightarrow> n
      | None \<Rightarrow> (let n = (totalFiltered + pageSize - 1) div pageSize in if n = 0 then 1 else int n))"

definition nextDisabled :: "bool option \<Rightarrow> int \<Rightarrow> nat \<Rightarrow> bool" where
  "nextDisabled hasMore pageCount currentPage =
     (case hasMore of
        Some m \<Rightarrow> \<not> m
      | None \<Rightarrow> int currentPage \<ge> pageCount - 1)"

definition getPageNumbers :: "int \<Rightarrow> int \<Rightarrow> int list" where
  "getPageNumbers pageCount currentPage =
     (if pageCount \<le> 0 then []
      else (let windowSize = min 10 pageCount;
                start = max 0 (min (currentPage - 4) (pageCount - windowSize))
            in map (\<lambda>i. start + int i) [0..<nat windowSize]))"

text \<open>The counter above the table.\<close>

datatype results_label = Results int | ResultsOf nat nat

definition resultsLabel :: "bool \<Rightarrow> int option \<Rightarrow> string \<Rightarrow> nat \<Rightarrow> nat \<Rightarrow> results_label" where
  "resultsLabel serverSide totalCount term totalFiltered totalAll =
     (case (serverSide, totalCount) of
        (True, Some n) \<Rightarrow> Results n
      | _ \<Rightarrow> if term \<noteq> [] \<and> totalFiltered \<noteq> totalAll then ResultsOf totalFiltered totalAll
            else Results (int totalAll))"

section \<open>Sorting\<close>

fun position :: "'a list \<Rightarrow> 'a \<Rightarrow> nat option" where
  "position [] x = None"
| "position (y # ys) x = (if y = x then Some 0 else map_option Suc (position ys x))"

text \<open>\<open>values[i]\<close>: \<open>undefined\<close> out of range.\<close>

definition item :: "'a list \<Rightarrow> nat \<Rightarrow> 'a option" where
  "item xs i = (if i < length xs then Some (xs ! i) else None)"

text \<open>The key and direction \<open>onSortChange\<close> is called with.\<close>

definition toggleSort :: "column list \<Rightarrow> string \<Rightarrow> string \<Rightarrow> string \<Rightarrow> string \<times> string option" where
  "toggleSort columns sortKey sortDirection key =
     (let newDirection = (if sortKey = key \<and> sortDirection = ''asc'' then ''desc'' else ''asc'')
      in case find (\<lambda>c. co_key c = key) columns of
           Some c \<Rightarrow>
             (case co_sortValues c of
                Some values \<Rightarrow>
                  (key, case position values sortDirection of
                          Some idx \<Rightarrow> if int idx < int (length values) - 1 then item values (idx + 1) else item values 0
                        | None \<Rightarrow> item values 0)
              | None \<Rightarrow> (key, Some newDirection))
         | None \<Rightarrow> (key, Some newDirection))"

section \<open>The filter box\<close>

record table_state =
  ts_filter :: string
  ts_page :: nat
  ts_timer :: "string option"
  ts_searches :: "string list"

text \<open>The effect on a change of the filter, when \<open>onSearchChange\<close> is given; then its timer.\<close>

definition filter_effect :: "bool \<Rightarrow> table_state \<Rightarrow> table_state" where
  "filter_effect onSearchChange ts =
     (if onSearchChange then ts\<lparr>ts_timer := Some (ts_filter ts)\<rparr> else ts)"

definition handleFilterChange :: "bool \<Rightarrow> string \<Rightarrow> table_state \<Rightarrow> table_state" where
  "handleFilterChange onSearchChange value ts =
     (let ts1 = (if onSearchChange then ts else ts\<lparr>ts_page := 0\<rparr>)
      in if value = ts_filter ts then ts1
         else filter_effect onSearchChange (ts1\<lparr>ts_filter := value\<rparr>))"

definition search_timer_fired :: "table_state \<Rightarrow> table_state" where
  "search_timer_fired ts =
     (case ts_timer ts of
        None \<Rightarrow> ts
      | Some f \<Rightarrow> ts\<lparr>ts_timer := None, ts_searches := ts_searches ts @ [f]\<rparr>)"

definition resetClicked :: "bool \<Rightarrow> table_state \<Rightarrow> table_state" where
  "resetClicked onSearchChange ts =
     (let ts1 = ts\<lparr>ts_page := 0, ts_searches := ts_searches ts @ (if onSearchChange then [[]] else [])\<rparr>
      in if ts_filter ts = [] then ts1 else filter_effect onSearchChange (ts1\<lparr>ts_filter := []\<rparr>))"

section \<open>Lemmas\<close>

lemma position_nth: "distinct xs \<Longrightarrow> i < length xs \<Longrightarrow> position xs (xs ! i) = Some i"
proof (induction xs arbitrary: i)
  case (Cons x xs)
  then show ?case by (cases i) (auto simp: nth_Cons')
qed simp

lemma position_None: "position xs x = None \<longleftrightarrow> x \<notin> set xs"
  by (induction xs) auto

lemma slice_concat:
  "concat (map (\<lambda>p. drop (p * n) (take ((p + 1) * n) xs)) [0..<k]) = take (k * n) xs"
proof (induction k)
  case (Suc k)
  have "take (k * n) xs @ drop (k * n) (take ((k + 1) * n) xs) = take ((k + 1) * n) xs"
    by (metis add.commute append_take_drop_id le_add1 min.absorb1 mult_Suc plus_1_eq_Suc take_take)
  then show ?case using Suc by simp
qed simp

section \<open>Properties\<close>

text \<open>The pages of a table that is paged in the browser are the filtered rows, in order and
  without loss: put together the pages from the first to the last are these rows, every
  page but the last is full, and Next is disabled exactly from the last page on.\<close>

theorem table_pages_partition:
  assumes "0 < pageSize"
  shows "concat (map (\<lambda>p. displayed rows False p pageSize) [0..<nat (totalPages None (length rows) pageSize)]) = rows \<and>
    (\<forall>p. int p < totalPages None (length rows) pageSize - 1 \<longrightarrow> length (displayed rows False p pageSize) = pageSize) \<and>
    (\<forall>p. nextDisabled None (totalPages None (length rows) pageSize) p
       \<longleftrightarrow> int p \<ge> totalPages None (length rows) pageSize - 1)"
proof -
  let ?n = "(length rows + pageSize - 1) div pageSize"
  have n: "length rows \<le> ?n * pageSize"
  proof -
    have "length rows + pageSize - 1 < (?n + 1) * pageSize"
      using assms by (metis Suc_eq_plus1 dividend_less_div_times mult_Suc add.commute)
    then show ?thesis by simp
  qed
  have all: "concat (map (\<lambda>p. displayed rows False p pageSize) [0..<nat (totalPages None (length rows) pageSize)]) = rows"
  proof (cases "?n = 0")
    case True
    then have "rows = []" using n by simp
    then show ?thesis by (simp add: displayed_def totalPages_def Let_def)
  next
    case False
    then have "nat (totalPages None (length rows) pageSize) = ?n" by (simp add: totalPages_def Let_def)
    then show ?thesis using slice_concat [of pageSize rows ?n] n by (simp add: displayed_def)
  qed
  have "length (displayed rows False p pageSize) = pageSize"
    if "int p < totalPages None (length rows) pageSize - 1" for p
  proof -
    have "p + 1 < ?n" using that by (auto simp: totalPages_def Let_def split: if_splits)
    then have "(p + 1) * pageSize + pageSize \<le> ?n * pageSize"
      by (metis Suc_leI mult_Suc mult_le_mono1 add.commute Suc_eq_plus1)
    also have "?n * pageSize \<le> length rows + pageSize - 1" by (rule div_times_less_eq_dividend)
    finally have "(p + 1) * pageSize \<le> length rows" using assms by linarith
    then show ?thesis by (simp add: displayed_def min_def)
  qed
  then show ?thesis using all by (simp add: nextDisabled_def)
qed

theorem table_pages_partition_witness:
  "concat (map (\<lambda>p. displayed [JNum 1, JNum 2, JNum 3] False p 2) [0..<nat (totalPages None 3 2)])
   = [JNum 1, JNum 2, JNum 3]"
  using table_pages_partition [of 2 "[JNum 1, JNum 2, JNum 3]"] by (simp add: eval_nat_numeral)

text \<open>The page buttons are a window of consecutive pages that exist, ten of them or all if
  there are fewer, and the current page is among them when it exists.\<close>

theorem page_numbers_window:
  assumes "0 < pageCount" "0 \<le> currentPage" "currentPage < pageCount"
  shows "length (getPageNumbers pageCount currentPage) = nat (min 10 pageCount) \<and>
    currentPage \<in> set (getPageNumbers pageCount currentPage) \<and>
    set (getPageNumbers pageCount currentPage) \<subseteq> {0..<pageCount} \<and>
    getPageNumbers pageCount currentPage
      = map (\<lambda>i. hd (getPageNumbers pageCount currentPage) + int i) [0..<nat (min 10 pageCount)]"
proof -
  let ?w = "min 10 pageCount" and ?s = "max 0 (min (currentPage - 4) (pageCount - min 10 pageCount))"
  have g: "getPageNumbers pageCount currentPage = map (\<lambda>i. ?s + int i) [0..<nat ?w]"
    using assms by (simp add: getPageNumbers_def Let_def)
  have hd: "hd (map (\<lambda>i. ?s + int i) [0..<nat ?w]) = ?s"
    using assms by (simp add: hd_map upt_rec)
  have "currentPage \<in> (\<lambda>i. ?s + int i) ` {0..<nat ?w}"
  proof (rule image_eqI)
    show "currentPage = ?s + int (nat (currentPage - ?s))" using assms by auto
    show "nat (currentPage - ?s) \<in> {0..<nat ?w}" using assms by auto
  qed
  then have "currentPage \<in> set (getPageNumbers pageCount currentPage)" unfolding g by simp
  moreover have "set (getPageNumbers pageCount currentPage) \<subseteq> {0..<pageCount}"
    unfolding g using assms by auto
  ultimately show ?thesis unfolding g hd by simp
qed

theorem page_numbers_window_witness:
  "29 \<in> set (getPageNumbers 30 29) \<and> length (getPageNumbers 30 29) = 10"
  using page_numbers_window [of 30 29] by simp

text \<open>A click on a header cycles: a plain column alternates between ascending and descending,
  one with its own values goes through all of them in their order and starts again.\<close>

theorem sort_cycles:
  assumes "find (\<lambda>c. co_key c = key) columns = Some c"
  shows "(co_sortValues c = None \<longrightarrow>
      toggleSort columns key ''asc'' key = (key, Some ''desc'') \<and> toggleSort columns key ''desc'' key = (key, Some ''asc'')) \<and>
    (\<forall>vs i dir. co_sortValues c = Some vs \<and> distinct vs \<and> i < length vs \<longrightarrow>
      toggleSort columns key (vs ! i) key = (key, Some (vs ! (Suc i mod length vs))) \<and>
      (dir \<notin> set vs \<longrightarrow> toggleSort columns key dir key = (key, Some (vs ! 0))))"
proof -
  have "toggleSort columns key (vs ! i) key = (key, Some (vs ! (Suc i mod length vs)))"
    if "co_sortValues c = Some vs" "distinct vs" "i < length vs" for vs i
    using that assms position_nth [OF that(2,3)]
    by (auto simp: toggleSort_def mod_Suc item_def)
  then show ?thesis
    using assms by (auto simp: toggleSort_def item_def position_None [THEN iffD2])
qed

definition state_column :: column where
  "state_column = \<lparr>co_key = ''state'', co_sortable = True, co_sortValues = Some [''up'', ''down'']\<rparr>"

theorem sort_cycles_witness:
  "toggleSort [state_column] ''state'' ''down'' ''state'' = (''state'', Some ''up'')"
proof -
  have c: "find (\<lambda>c. co_key c = ''state'') [state_column] = Some state_column"
    "co_sortValues state_column = Some [''up'', ''down'']"
    by (simp_all add: state_column_def)
  have "distinct [''up'', ''down''] \<and> 1 < length [''up'', ''down'']" by simp
  with sort_cycles [OF c(1)] c(2)
  have "toggleSort [state_column] ''state'' ([''up'', ''down''] ! 1) ''state''
      = (''state'', Some ([''up'', ''down''] ! (Suc 1 mod length [''up'', ''down''])))" by blast
  then show ?thesis by simp
qed

end
