(* ===== verification/StoragePage.thy ===== *)
theory StoragePage
  imports PageEffects ClientStorage
begin

text \<open>
  The storage page, \<^verbatim>\<open>routes/StorageManagement.jsx\<close>, with the quota functions of
  \<^verbatim>\<open>lib/storage-utils.jsx\<close>.  A number typed into a form is its decimal value: a double
  holds every integer below 2^53 exactly, and scaling by a unit, a power of two, is
  exact as well.  Saving a downloaded archive (the file picker or the link) is the
  parameter \<open>save\<close>.
\<close>

section \<open>Quotas\<close>

definition UNITS :: "string \<Rightarrow> int option" where
  "UNITS = map_of [(''B'', 1), (''MB'', 1024 * 1024), (''GB'', 1024 * 1024 * 1024),
                   (''TB'', 1024 * 1024 * 1024 * 1024)]"

definition unit_size :: "string \<Rightarrow> int" where
  "unit_size unit = (case UNITS unit of Some u \<Rightarrow> u | None \<Rightarrow> 1)"

text \<open>\<open>(bytes / unit).toFixed(2)\<close>\<close>

definition to_fixed2 :: "int \<Rightarrow> int \<Rightarrow> string" where
  "to_fixed2 bytes unit =
     (let n = (2 * 100 * bytes + unit) div (2 * unit);
          cents = nat_str (nat (n mod 100))
      in int_str (n div 100) @ ''.'' @ (if length cents = 1 then ''0'' @ cents else cents))"

definition formatQuotaText :: "int \<Rightarrow> string" where
  "formatQuotaText bytes =
     (if bytes = 0 then ''none''
      else if bytes \<ge> unit_size ''TB'' then to_fixed2 bytes (unit_size ''TB'') @ '' TB''
      else if bytes \<ge> unit_size ''GB'' then to_fixed2 bytes (unit_size ''GB'') @ '' GB''
      else if bytes \<ge> unit_size ''MB'' then to_fixed2 bytes (unit_size ''MB'') @ '' MB''
      else int_str bytes @ '' B'')"

definition decomposeQuota :: "int \<Rightarrow> json \<times> string" where
  "decomposeQuota bytes =
     (let whole = (\<lambda>unit. bytes \<ge> unit_size unit \<and> bytes mod unit_size unit = 0)
      in if bytes = 0 then (JStr [], ''GB'')
         else if whole ''TB'' then (JNum (bytes div unit_size ''TB''), ''TB'')
         else if whole ''GB'' then (JNum (bytes div unit_size ''GB''), ''GB'')
         else if whole ''MB'' then (JNum (bytes div unit_size ''MB''), ''MB'')
         else (JNum bytes, ''B''))"

definition deriveServiceName :: "string \<Rightarrow> string" where
  "deriveServiceName internalName =
     (let parts = split_on CHR ''/'' internalName
      in if length parts < 4 then []
         else ''town-os-package--'' @ parts ! 1 @ ''-'' @ parts ! 2 @ ''-'' @ parts ! 3 @ ''.service'')"

text \<open>A decimal number at the head of a text, with what follows it.\<close>

definition scan_decimal :: "string \<Rightarrow> (json \<times> string) option" where
  "scan_decimal t =
     (let (neg, u) = (case t of
                        c # v \<Rightarrow> if c = CHR ''-'' then (True, v) else if c = CHR ''+'' then (False, v) else (False, t)
                      | [] \<Rightarrow> (False, t));
          (ds, r) = take_digits u;
          (fs, r') = (case r of c # v \<Rightarrow> if c = CHR ''.'' then take_digits v else ([], r) | [] \<Rightarrow> ([], r));
          (x, r'') = (case parse_exp r' of Some xr \<Rightarrow> xr | None \<Rightarrow> (0, r'));
          m = int (digits_val 0 (ds @ fs))
      in if ds @ fs = [] then None
         else Some (scale (if neg then - m else m) (x - int (length fs)), r''))"

text \<open>
  \<open>parseFloat\<close> reads the longest prefix, \<open>None\<close> standing for \<open>NaN\<close>; \<open>Number\<close> the whole text,
  the empty one being 0.  The text \<open>Infinity\<close> and other bases cannot be entered in a
  number field.
\<close>

definition parseFloat :: "string \<Rightarrow> json option" where
  "parseFloat s = map_option fst (scan_decimal (dropWhile is_js_space s))"

definition js_number :: "string \<Rightarrow> json option" where
  "js_number s =
     (let t = js_trim s
      in if t = [] then Some (JNum 0)
         else (case scan_decimal t of Some (v, []) \<Rightarrow> Some v | _ \<Rightarrow> None))"

text \<open>\<open>Math.round(v * unit)\<close>\<close>

definition round_times :: "json \<Rightarrow> int \<Rightarrow> int" where
  "round_times v unit =
     (case v of
        JNum n \<Rightarrow> n * unit
      | JFrac m e \<Rightarrow> (2 * m * unit + 10 ^ e) div (2 * 10 ^ e)
      | _ \<Rightarrow> 0)"

text \<open>\<open>JSON.stringify\<close> prints \<open>NaN\<close> as \<open>null\<close>.\<close>

definition parseQuota :: "string \<Rightarrow> string \<Rightarrow> json" where
  "parseQuota quota unit =
     (case (if quota \<noteq> [] then parseFloat quota else Some (JNum 0)) of
        None \<Rightarrow> JNull
      | Some raw \<Rightarrow> if raw = JNum 0 then JNum 0 else JNum (round_times raw (unit_size unit)))"

definition quota_field :: "json \<Rightarrow> string" where
  "quota_field quotaValue = js_string (json_or quotaValue (JStr []))"

section \<open>The page\<close>

record edit_dialog =
  ed_create :: bool
  ed_originalName :: string
  ed_name :: string
  ed_quotaValue :: json
  ed_quotaUnit :: string

record volume_target =
  vt_displayName :: string
  vt_internalName :: string
  vt_serviceName :: string

record modify_dialog = volume_target +
  vm_state :: string
  vm_quotaValue :: json
  vm_quotaUnit :: string

record group_target =
  gt_repo :: string
  gt_effectiveName :: string
  gt_version :: string

record 'w storage_page = "'w page" +
  sg_edit :: "edit_dialog option"
  sg_modify :: "modify_dialog option"
  sg_download :: "volume_target option"
  sg_upload :: "volume_target option"
  sg_deleteConfirm :: "string option"
  sg_deletePkgVolume :: "string option"
  sg_deletePkgGroup :: "group_target option"
  sg_showAll :: bool
  sg_defaultQuota :: "json \<times> string"

type_synonym 'w storage_handler = "('w storage_page, js_error, unit) eff"

text \<open>\<open>parseInt(raw, 10)\<close> of the setting, which the server sends as a text.\<close>

definition parse_int :: "string \<Rightarrow> int option" where
  "parse_int s =
     (let t = dropWhile is_js_space s;
          (neg, u) = (case t of
                        c # v \<Rightarrow> if c = CHR ''-'' then (True, v) else if c = CHR ''+'' then (False, v) else (False, t)
                      | [] \<Rightarrow> (False, t));
          ds = takeWhile is_digit u
      in if ds = [] then None else Some (if neg then - int (digits_val 0 ds) else int (digits_val 0 ds)))"

definition load_default_quota :: "'w env \<Rightarrow> 'w storage_handler" where
  "load_default_quota env =
     eff_catch
       (eff_bind (api (\<lambda>c. getSetting (en_net env) c ''default_quota'')) (\<lambda>raw.
        case parse_int (js_string raw) of
          Some bytes \<Rightarrow> if bytes > 0 then page_set (\<lambda>pg. pg\<lparr>sg_defaultQuota := decomposeQuota bytes\<rparr>) else eff_return ()
        | None \<Rightarrow> eff_return ()))
       (\<lambda>_. eff_return ())"

definition create_clicked :: "'w storage_handler" where
  "create_clicked = page_set (\<lambda>pg. pg\<lparr>sg_edit := Some \<lparr>ed_create = True, ed_originalName = [], ed_name = [],
     ed_quotaValue = fst (sg_defaultQuota pg), ed_quotaUnit = snd (sg_defaultQuota pg)\<rparr>\<rparr>)"

definition modify_clicked :: "string \<Rightarrow> int \<Rightarrow> 'w storage_handler" where
  "modify_clicked name quota = page_set (\<lambda>pg. pg\<lparr>sg_edit := Some \<lparr>ed_create = False, ed_originalName = name, ed_name = name,
     ed_quotaValue = fst (decomposeQuota quota), ed_quotaUnit = snd (decomposeQuota quota)\<rparr>\<rparr>)"

definition filesystem_of :: "string \<Rightarrow> json \<Rightarrow> json" where
  "filesystem_of name quota = JObj [(''name'', JStr name), (''quota'', quota)]"

definition handleCreate :: "'w env \<Rightarrow> string \<Rightarrow> string \<Rightarrow> string \<Rightarrow> 'w storage_handler" where
  "handleCreate env name quota quotaUnit =
     eff_catch
       (block
         [api (\<lambda>c. createFilesystem (en_net env) c (filesystem_of name (parseQuota quota quotaUnit))),
          show_toast (Success ''storage.toast_created''),
          page_set (\<lambda>pg. pg\<lparr>sg_edit := None\<rparr>),
          doRefresh])
       (toast_error env)"

definition handleModify :: "'w env \<Rightarrow> edit_dialog \<Rightarrow> string \<Rightarrow> string \<Rightarrow> string \<Rightarrow> 'w storage_handler" where
  "handleModify env editDialog name quota quotaUnit =
     eff_catch
       (block
         [api (\<lambda>c. modifyFilesystem (en_net env) c (ed_originalName editDialog)
                     (filesystem_of name (parseQuota quota quotaUnit))),
          show_toast (Success ''storage.toast_modified''),
          page_set (\<lambda>pg. pg\<lparr>sg_edit := None\<rparr>),
          doRefresh])
       (toast_error env)"

section \<open>Removing\<close>

definition handleDelete :: "'w env \<Rightarrow> string \<Rightarrow> 'w storage_handler" where
  "handleDelete env deleteConfirm =
     eff_catch
       (block
         [api (\<lambda>c. removeFilesystem (en_net env) c deleteConfirm),
          show_toast (Success ''storage.toast_removed''),
          page_set (\<lambda>pg. pg\<lparr>sg_deleteConfirm := None\<rparr>),
          doRefresh])
       (\<lambda>err. block [toast_error env err, page_set (\<lambda>pg. pg\<lparr>sg_deleteConfirm := None\<rparr>)])"

definition handleDeletePkgVolume :: "'w env \<Rightarrow> string \<Rightarrow> 'w storage_handler" where
  "handleDeletePkgVolume env deletePkgVolume =
     eff_catch
       (block
         [api (\<lambda>c. removePackageVolume (en_net env) c deletePkgVolume),
          show_toast (Success ''storage.toast_pkg_volume_removed''),
          page_set (\<lambda>pg. pg\<lparr>sg_deletePkgVolume := None\<rparr>),
          doRefresh])
       (\<lambda>err. block [toast_error env err, page_set (\<lambda>pg. pg\<lparr>sg_deletePkgVolume := None\<rparr>)])"

definition handleDeletePkgGroup :: "'w env \<Rightarrow> 'w storage_handler" where
  "handleDeletePkgGroup env =
     eff_bind (page_read (\<lambda>pg. (sg_deletePkgGroup pg, sg_showAll pg))) (\<lambda>(deletePkgGroup, showAll).
       case deletePkgGroup of
         None \<Rightarrow> eff_return ()
       | Some g \<Rightarrow>
           eff_catch
             (block
               [api (\<lambda>c. removePackageVolumeGroup (en_net env) c (gt_repo g) (gt_effectiveName g) (Some (gt_version g)) showAll),
                show_toast (Success ''storage.toast_pkg_group_removed''),
                page_set (\<lambda>pg. pg\<lparr>sg_deletePkgGroup := None\<rparr>),
                doRefresh])
             (\<lambda>err. block [toast_error env err, page_set (\<lambda>pg. pg\<lparr>sg_deletePkgGroup := None\<rparr>)]))"

text \<open>What the delete buttons of a package and of one of its versions ask to confirm.\<close>

definition group_clicked :: "string \<Rightarrow> string \<Rightarrow> string \<Rightarrow> string \<Rightarrow> 'w storage_handler" where
  "group_clicked repo effective_name package version =
     page_set (\<lambda>pg. pg\<lparr>sg_deletePkgGroup := Some \<lparr>gt_repo = repo,
       gt_effectiveName = (if effective_name \<noteq> [] then effective_name else package), gt_version = version\<rparr>\<rparr>)"

section \<open>Archives and volumes\<close>

definition target_of :: "string \<Rightarrow> string \<Rightarrow> volume_target" where
  "target_of name internal_name =
     \<lparr>vt_displayName = name, vt_internalName = internal_name, vt_serviceName = deriveServiceName internal_name\<rparr>"

definition openDownloadDialog :: "string \<Rightarrow> string \<Rightarrow> 'w storage_handler" where
  "openDownloadDialog name internal_name = page_set (\<lambda>pg. pg\<lparr>sg_download := Some (target_of name internal_name)\<rparr>)"

definition openUploadDialog :: "string \<Rightarrow> string \<Rightarrow> 'w storage_handler" where
  "openUploadDialog name internal_name = page_set (\<lambda>pg. pg\<lparr>sg_upload := Some (target_of name internal_name)\<rparr>)"

definition openVolumeModifyDialog :: "string \<Rightarrow> string \<Rightarrow> string \<Rightarrow> int \<Rightarrow> 'w storage_handler" where
  "openVolumeModifyDialog name internal_name state quota =
     page_set (\<lambda>pg. pg\<lparr>sg_modify := Some \<lparr>vt_displayName = name, vt_internalName = internal_name,
       vt_serviceName = deriveServiceName internal_name, vm_state = state,
       vm_quotaValue = fst (decomposeQuota quota), vm_quotaUnit = snd (decomposeQuota quota)\<rparr>\<rparr>)"

definition FORMAT_EXT :: "string \<Rightarrow> string option" where
  "FORMAT_EXT = map_of [(''tar.gz'', ''.tar.gz''), (''tar.bz2'', ''.tar.bz2''), (''tar.xz'', ''.tar.xz'')]"

definition archive_paths :: "string \<Rightarrow> string list" where
  "archive_paths downloadPaths = filter (\<lambda>s. s \<noteq> []) (map js_trim (split_on CHR '','' downloadPaths))"

text \<open>
  \<open>aborted err\<close> is \<open>err.name === 'AbortError'\<close>, the operator having closed the file picker.
\<close>

definition handleDownload ::
  "'w env \<Rightarrow> (string \<Rightarrow> response \<Rightarrow> js_error + unit) \<Rightarrow> (js_error \<Rightarrow> bool) \<Rightarrow> volume_target \<Rightarrow>
   string \<Rightarrow> bool \<Rightarrow> string \<Rightarrow> string \<Rightarrow> 'w storage_handler"
where
  "handleDownload env save aborted d downloadPaths stop downloadFormat downloadFilename =
     (let paths = archive_paths downloadPaths;
          stopService = (if stop then vt_serviceName d else []);
          format = (if downloadFormat \<noteq> [] then downloadFormat else ''tar.gz'');
          ext = (case FORMAT_EXT format of Some e \<Rightarrow> e | None \<Rightarrow> the (FORMAT_EXT ''tar.gz''));
          customFilename = js_trim downloadFilename
      in eff_catch
           (eff_bind (api (\<lambda>c. downloadArchive (en_net env) c (vt_internalName d)
                (if paths \<noteq> [] then Some paths else None) (Some stopService) (Some format)
                (if customFilename \<noteq> [] then Some customFilename else None))) (\<lambda>resp.
            let filename = (if customFilename \<noteq> [] then customFilename else ''download'') @ ext
            in eff_bind (eff_lift (save filename resp)) (\<lambda>_.
               block [show_toast (Success ''storage.toast_archive_downloaded''),
                      page_set (\<lambda>pg. pg\<lparr>sg_download := None\<rparr>)])))
           (\<lambda>err. if aborted err then eff_return () else toast_error env err))"

definition handleUpload :: "'w env \<Rightarrow> volume_target \<Rightarrow> string option \<Rightarrow> string \<Rightarrow> bool \<Rightarrow> 'w storage_handler" where
  "handleUpload env d file subpath stop =
     (case file of
        None \<Rightarrow> show_toast (FailureKey ''storage.toast_upload_no_file'')
      | Some f \<Rightarrow>
          let stopService = (if stop then vt_serviceName d else [])
          in eff_catch
               (eff_bind (api (\<lambda>c. uploadArchive (en_net env) c (vt_internalName d) f (Some subpath) (Some stopService))) (\<lambda>result.
                case js_prop result ''message'' of
                  None \<Rightarrow> eff_throw TypeErr
                | Some message \<Rightarrow>
                    block [show_toast (Success (js_string (json_or message (JStr ''storage.toast_archive_uploaded'')))),
                           page_set (\<lambda>pg. pg\<lparr>sg_upload := None\<rparr>), doRefresh]))
               (toast_error env))"

definition handleVolumeModifyProps :: "'w env \<Rightarrow> modify_dialog \<Rightarrow> string \<Rightarrow> string \<Rightarrow> string \<Rightarrow> 'w storage_handler" where
  "handleVolumeModifyProps env d modifyName modifyQuota modifyQuotaUnit =
     (let unit = (if modifyQuotaUnit \<noteq> [] then modifyQuotaUnit else ''GB'');
          newName = (if vm_state d = ''user''
                     then (if modifyName \<noteq> [] then modifyName else vt_displayName d) else vt_internalName d)
      in eff_catch
           (block
             [api (\<lambda>c. modifyFilesystem (en_net env) c (vt_internalName d) (filesystem_of newName (parseQuota modifyQuota unit))),
              show_toast (Success ''storage.toast_volume_modified''),
              page_set (\<lambda>pg. pg\<lparr>sg_modify := None\<rparr>),
              doRefresh])
           (toast_error env))"

section \<open>Lemmas\<close>

lemma take_digits_int_str: "0 \<le> n \<Longrightarrow> take_digits (int_str n) = (int_str n, [])"
  using take_digits_append [of "int_str n" "[]"] nat_str_digits [of "nat n"] by (simp add: int_str_def)

lemma int_str_head: "0 \<le> n \<Longrightarrow> \<exists>c s. int_str n = c # s \<and> is_digit c"
  using nat_str_digits [of "nat n"] nat_str_nonempty [of "nat n"]
  by (cases "nat_str (nat n)") (auto simp: int_str_def)

lemma digit_no_sign: "is_digit c \<Longrightarrow> c \<noteq> CHR ''-'' \<and> c \<noteq> CHR ''+'' \<and> \<not> is_js_space c"
  by (auto simp: is_digit_def is_js_space_def)

lemma scan_int_str: "0 \<le> n \<Longrightarrow> scan_decimal (int_str n) = Some (JNum n, [])"
proof -
  assume n: "0 \<le> n"
  obtain c s where cs: "int_str n = c # s" "is_digit c" using int_str_head [OF n] by blast
  have "int (digits_val 0 (c # s)) = n"
    using n cs(1) [symmetric] digits_val_nat_str [of "nat n"] by (simp add: int_str_def)
  then show ?thesis
    using take_digits_int_str [OF n] digit_no_sign [OF cs(2)]
    by (simp add: scan_decimal_def cs(1) Let_def parse_exp_def scale_def)
qed

lemma trim_int_str: "0 \<le> n \<Longrightarrow> dropWhile is_js_space (int_str n) = int_str n" "0 \<le> n \<Longrightarrow> js_trim (int_str n) = int_str n"
proof -
  assume n: "0 \<le> n"
  have d: "list_all is_digit (int_str n)" using n nat_str_digits [of "nat n"] by (simp add: int_str_def)
  have "dropWhile is_js_space xs = xs" if "list_all is_digit xs" for xs
    using that digit_no_sign by (cases xs) auto
  from this [OF d] this [of "rev (int_str n)"] d
  show "dropWhile is_js_space (int_str n) = int_str n" "js_trim (int_str n) = int_str n"
    by (simp_all add: js_trim_def list_all_iff)
qed

lemma parseFloat_int_str: "0 \<le> n \<Longrightarrow> parseFloat (int_str n) = Some (JNum n)"
  by (simp add: parseFloat_def trim_int_str scan_int_str)

lemma js_number_int_str: "0 \<le> n \<Longrightarrow> js_number (int_str n) = Some (JNum n)"
  using int_str_head [of n] by (auto simp: js_number_def Let_def trim_int_str scan_int_str)

lemma unit_sizes [simp]:
  "unit_size ''B'' = 1" "unit_size ''MB'' = 1048576" "unit_size ''GB'' = 1073741824" "unit_size ''TB'' = 1099511627776"
  by (simp_all add: unit_size_def UNITS_def)

lemma parseQuota_int:
  "0 < n \<Longrightarrow> parseQuota (quota_field (JNum n)) unit = JNum (n * unit_size unit)"
  using int_str_head [of n]
  by (auto simp: quota_field_def json_or_def parseQuota_def parseFloat_int_str round_times_def split: if_splits)

section \<open>Theorems\<close>

text \<open>C24: a quota that is not touched is not changed: the number and unit a dialog shows for it
  are sent back, when the form is submitted as it is, as the same number of bytes.\<close>

theorem quota_roundtrip:
  assumes "0 \<le> bytes"
  shows "parseQuota (quota_field (fst (decomposeQuota bytes))) (snd (decomposeQuota bytes)) = JNum bytes"
proof (cases "bytes = 0")
  case True
  then show ?thesis by (simp add: decomposeQuota_def quota_field_def json_or_def parseQuota_def)
next
  case False
  then have "0 < bytes div u" if "0 < u" "u \<le> bytes" for u
    using that by (simp add: pos_imp_zdiv_pos_iff)
  then show ?thesis
    using False assms by (auto simp: decomposeQuota_def Let_def parseQuota_int)
qed

theorem quota_roundtrip_witness:
  "parseQuota (quota_field (fst (decomposeQuota 53687091200))) (snd (decomposeQuota 53687091200)) = JNum 53687091200"
  using quota_roundtrip [of 53687091200] by simp

text \<open>Every change made on the storage page is reported once: the handler returns whatever
  the server answers, with one toast; an accepted change refreshes the list and closes the
  dialog; a refused one shows the error, and keeps the form with what was typed but closes
  the question whether to delete.\<close>

theorem storage_changes_reported:
  "wp (handleCreate env name quota unit) (\<lambda>r pg'. r = Inr () \<and>
       (accepted pg pg' \<and> sg_edit pg' = None \<or> refused pg pg' \<and> sg_edit pg' = sg_edit pg)) pg \<and>
   wp (handleModify env ed name quota unit) (\<lambda>r pg'. r = Inr () \<and>
       (accepted pg pg' \<and> sg_edit pg' = None \<or> refused pg pg' \<and> sg_edit pg' = sg_edit pg)) pg \<and>
   wp (handleVolumeModifyProps env vm name quota unit) (\<lambda>r pg'. r = Inr () \<and>
       (accepted pg pg' \<and> sg_modify pg' = None \<or> refused pg pg' \<and> sg_modify pg' = sg_modify pg)) pg \<and>
   wp (handleUpload env d (Some file) subpath stop) (\<lambda>r pg'. r = Inr () \<and>
       (accepted pg pg' \<and> sg_upload pg' = None \<or> refused pg pg' \<and> sg_upload pg' = sg_upload pg)) pg \<and>
   wp (handleDelete env v) (\<lambda>r pg'. r = Inr () \<and> sg_deleteConfirm pg' = None \<and> (accepted pg pg' \<or> refused pg pg')) pg \<and>
   wp (handleDeletePkgVolume env v) (\<lambda>r pg'. r = Inr () \<and> sg_deletePkgVolume pg' = None \<and>
       (accepted pg pg' \<or> refused pg pg')) pg \<and>
   wp (handleDeletePkgGroup env) (\<lambda>r pg'. r = Inr () \<and> sg_deletePkgGroup pg' = None \<and>
       (sg_deletePkgGroup pg = None \<or> accepted pg pg' \<or> refused pg pg')) pg"
proof (intro conjI)
  show "wp (handleCreate env name quota unit) (\<lambda>r pg'. r = Inr () \<and>
       (accepted pg pg' \<and> sg_edit pg' = None \<or> refused pg pg' \<and> sg_edit pg' = sg_edit pg)) pg"
    unfolding handleCreate_def wp_catch wp_block wp_seq by (rule wp_api) (simp add: change_simps split: sum.split)
  show "wp (handleModify env ed name quota unit) (\<lambda>r pg'. r = Inr () \<and>
       (accepted pg pg' \<and> sg_edit pg' = None \<or> refused pg pg' \<and> sg_edit pg' = sg_edit pg)) pg"
    unfolding handleModify_def wp_catch wp_block wp_seq by (rule wp_api) (simp add: change_simps split: sum.split)
  show "wp (handleVolumeModifyProps env vm name quota unit) (\<lambda>r pg'. r = Inr () \<and>
       (accepted pg pg' \<and> sg_modify pg' = None \<or> refused pg pg' \<and> sg_modify pg' = sg_modify pg)) pg"
    unfolding handleVolumeModifyProps_def Let_def wp_catch wp_block wp_seq
    by (rule wp_api) (simp add: change_simps split: sum.split)
  show "wp (handleUpload env d (Some file) subpath stop) (\<lambda>r pg'. r = Inr () \<and>
       (accepted pg pg' \<and> sg_upload pg' = None \<or> refused pg pg' \<and> sg_upload pg' = sg_upload pg)) pg"
    unfolding handleUpload_def Let_def option.case wp_catch wp_bind
    by (rule wp_api) (simp add: change_simps split: sum.split option.split)
  show "wp (handleDelete env v) (\<lambda>r pg'. r = Inr () \<and> sg_deleteConfirm pg' = None \<and> (accepted pg pg' \<or> refused pg pg')) pg"
    unfolding handleDelete_def wp_catch wp_block wp_seq by (rule wp_api) (simp add: change_simps split: sum.split)
  show "wp (handleDeletePkgVolume env v) (\<lambda>r pg'. r = Inr () \<and> sg_deletePkgVolume pg' = None \<and>
       (accepted pg pg' \<or> refused pg pg')) pg"
    unfolding handleDeletePkgVolume_def wp_catch wp_block wp_seq by (rule wp_api) (simp add: change_simps split: sum.split)
  show "wp (handleDeletePkgGroup env) (\<lambda>r pg'. r = Inr () \<and> sg_deletePkgGroup pg' = None \<and>
       (sg_deletePkgGroup pg = None \<or> accepted pg pg' \<or> refused pg pg')) pg"
  proof (cases "sg_deletePkgGroup pg")
    case None
    then show ?thesis by (simp add: handleDeletePkgGroup_def wp_simps)
  next
    case (Some g)
    then show ?thesis
      unfolding handleDeletePkgGroup_def wp_bind wp_read sum.case prod.case Some option.case wp_catch wp_block wp_seq
      by (intro wp_api) (simp add: change_simps split: sum.split)
  qed
qed

text \<open>What is deleted is what was confirmed: after the delete button of a package, or of one
  of its versions, the confirmation sends one request, which names that package by its
  effective name, that version, and whether uninstalled volumes are shown.\<close>

theorem delete_names_target:
  assumes "en_net env = recording a"
  shows "wp (block [group_clicked repo effective_name package version, handleDeletePkgGroup env])
    (\<lambda>r pg'. r = Inr () \<and> pg_net pg' = pg_net pg @
       [post_request (getClient (pg_storage pg) (pg_client pg)) ''/storage/remove-package-volume-group''
          (JObj [(''repo'', JStr repo),
                 (''name'', JStr (if effective_name \<noteq> [] then effective_name else package)),
                 (''version'', JStr version), (''include_uninstalled'', JBool (sg_showAll pg))])]) pg"
proof -
  have [simp]: "str_or (Some v) [] = v" for v by (cases v) (simp_all add: str_or_def)
  show ?thesis
    unfolding wp_block wp_seq group_clicked_def wp_set handleDeletePkgGroup_def wp_bind wp_read sum.case prod.case
    by (cases "effective_name = []"; simp add: removePackageVolumeGroup_def assms wp_catch wp_seq; rule wp_recording_ignore;
        simp add: wp_simps split: sum.split)
qed

theorem delete_names_target_witness:
  "(let env = \<lparr>en_net = recording (\<lambda>_ _. Inl (NetworkErr ''refused'')), en_message = (\<lambda>_. [])\<rparr>;
        pg = \<lparr>pg_net = [], pg_storage = \<lparr>st_local = Map.empty, st_session = Map.empty\<rparr>, pg_client = newClient [], pg_log = [],
              pg_refreshKey = 0, sg_edit = None, sg_modify = None, sg_download = None, sg_upload = None,
              sg_deleteConfirm = None, sg_deletePkgVolume = None, sg_deletePkgGroup = None, sg_showAll = True,
              sg_defaultQuota = (JStr [], ''GB'')\<rparr>
    in wp (block [group_clicked ''core'' [] ''gitea'' ''1.0'', handleDeletePkgGroup env])
         (\<lambda>r pg'. length (pg_net pg') = 1) pg)"
  unfolding Let_def by (rule wp_weaken [OF delete_names_target]) simp_all

end
