(* ===== verification/SettingsPage.thy ===== *)
theory SettingsPage
  imports StoragePage I18n
begin

text \<open>
  The settings page, \<^verbatim>\<open>routes/SystemSettings.jsx\<close>: one form per setting, each shown in a
  unit that divides the stored number, and the choice of the language, which changes the
  state of the translation provider (\<^verbatim>\<open>I18n\<close>) as well.  The settings arrive as an object of
  texts; a number is exact, \<open>None\<close> standing for \<open>NaN\<close>.
\<close>

section \<open>Numbers and units\<close>

type_synonym number = "json option"

definition num_times :: "json \<Rightarrow> int \<Rightarrow> json" where
  "num_times v k = (case v of JNum n \<Rightarrow> JNum (n * k) | JFrac m e \<Rightarrow> norm_frac (m * k) e | other \<Rightarrow> other)"

definition num_negative :: "json \<Rightarrow> bool" where
  "num_negative v = (case v of JNum n \<Rightarrow> n < 0 | JFrac m e \<Rightarrow> m < 0 | _ \<Rightarrow> False)"

definition number_text :: "number \<Rightarrow> string" where
  "number_text v = (case v of None \<Rightarrow> ''NaN'' | Some j \<Rightarrow> js_string j)"

text \<open>The largest of some units that divides a number, and the number counted in it.\<close>

fun in_unit :: "(string \<times> int) list \<Rightarrow> string \<Rightarrow> number \<Rightarrow> string \<times> string" where
  "in_unit [] base v = (number_text v, base)"
| "in_unit ((u, k) # units) base v =
     (case v of
        Some (JNum n) \<Rightarrow> if n \<ge> k \<and> n mod k = 0 then (int_str (n div k), u) else in_unit units base v
      | _ \<Rightarrow> in_unit units base v)"

definition byte_units :: "(string \<times> int) list" where
  "byte_units = [(''GB'', 1024 * 1024 * 1024), (''MB'', 1024 * 1024)]"

definition second_units :: "(string \<times> int) list" where
  "second_units = [(''hours'', 3600), (''minutes'', 60)]"

definition decomposeBytesToUnit :: "number \<Rightarrow> string \<times> string" where
  "decomposeBytesToUnit bytes =
     (if bytes = Some (JNum 0) then (''0'', ''MB'') else in_unit byte_units ''bytes'' bytes)"

definition decomposeSeconds :: "number \<Rightarrow> string \<times> string" where
  "decomposeSeconds secs = in_unit second_units ''seconds'' secs"

definition unitToBytes :: "string \<Rightarrow> string \<Rightarrow> json option" where
  "unitToBytes input unit =
     (case js_number input of
        None \<Rightarrow> None
      | Some num \<Rightarrow>
          if num_negative num then None
          else Some (if unit = ''GB'' then num_times num (1024 * 1024 * 1024)
                     else if unit = ''MB'' then num_times num (1024 * 1024) else num))"

definition timeoutToSeconds :: "string \<Rightarrow> string \<Rightarrow> json option" where
  "timeoutToSeconds input unit =
     (case js_number input of
        None \<Rightarrow> None
      | Some num \<Rightarrow>
          if num_negative num then None
          else Some (if unit = ''hours'' then num_times num 3600
                     else if unit = ''minutes'' then num_times num 60 else num))"

definition peerTTLToSeconds :: "string \<Rightarrow> string \<Rightarrow> json option" where
  "peerTTLToSeconds input unit =
     (case js_number input of
        None \<Rightarrow> None
      | Some num \<Rightarrow>
          if num_negative num \<or> num = JNum 0 then None
          else Some (if unit = ''hours'' then num_times num 3600
                     else if unit = ''minutes'' then num_times num 60 else num))"

text \<open>The texts that show the stored values.\<close>

definition formatBytes_setting :: "string \<Rightarrow> number \<Rightarrow> string" where
  "formatBytes_setting zero bytes =
     (if bytes = Some (JNum 0) then zero
      else (let (v, unit) = in_unit byte_units ''bytes'' bytes in v @ '' '' @ unit))"

definition formatDuration :: "number \<Rightarrow> string" where
  "formatDuration seconds =
     (if seconds = Some (JNum 0) then ''settings.format_0_seconds''
      else (let (v, unit) = in_unit second_units ''seconds'' seconds
            in v @ '' '' @ take (length unit - 1) unit @ (if v \<noteq> ''1'' then ''s'' else [])))"

section \<open>The page\<close>

definition DEFAULT_QUOTA_BYTES :: int where "DEFAULT_QUOTA_BYTES = 50 * 1024 * 1024 * 1024"
definition DEFAULT_MAX_ARCHIVE_SIZE_BYTES :: int where "DEFAULT_MAX_ARCHIVE_SIZE_BYTES = 1024 * 1024 * 1024"
definition DEFAULT_ARCHIVE_UNPACK_TIMEOUT :: int where "DEFAULT_ARCHIVE_UNPACK_TIMEOUT = 600"
definition DEFAULT_PEER_TTL :: int where "DEFAULT_PEER_TTL = 7200"

record 'w settings_page = "'w page" +
  se_settings :: "json obj"
  se_i18n :: i18n
  se_locales :: json
  se_showExtended :: bool
  se_selected :: json
  se_quota :: "string \<times> string"
  se_archive :: "string \<times> string"
  se_timeout :: "string \<times> string"
  se_peerTTL :: "string \<times> string"
  se_proton :: string
  se_backend :: string
  se_mode :: string
  se_backendSaving :: bool
  se_modeSaving :: bool
  se_forwardersSaving :: bool

type_synonym 'w settings_handler = "('w settings_page, js_error, unit) eff"

definition setting_of :: "json obj \<Rightarrow> string \<Rightarrow> json" where
  "setting_of settings key = (case map_of settings key of Some v \<Rightarrow> v | None \<Rightarrow> JUndefined)"

definition current_number :: "json obj \<Rightarrow> string \<Rightarrow> int \<Rightarrow> number" where
  "current_number settings key unset =
     (if setting_of settings key \<noteq> JUndefined then js_number (js_string (setting_of settings key)) else Some (JNum unset))"

definition current_text :: "json obj \<Rightarrow> string \<Rightarrow> string \<Rightarrow> string" where
  "current_text settings key unset = js_string (json_or (setting_of settings key) (JStr unset))"

definition localForwardersOn :: "json obj \<Rightarrow> bool" where
  "localForwardersOn settings \<longleftrightarrow> js_string (setting_of settings ''dns_local_forwarders'') = ''true''"

text \<open>The effects on the settings: what the forms show when the settings arrive.\<close>

definition settings_loaded :: "json obj \<Rightarrow> 'w settings_handler" where
  "settings_loaded settings =
     (let num = (\<lambda>key. js_number (js_string (setting_of settings key)));
          has = (\<lambda>key. setting_of settings key \<noteq> JUndefined)
      in page_set (\<lambda>pg. pg\<lparr>
           se_settings := settings,
           se_quota := (if has ''default_quota''
                        then (if num ''default_quota'' = Some (JNum 0) then (''0'', ''GB'')
                              else decomposeBytesToUnit (num ''default_quota''))
                        else (''50'', ''GB'')),
           se_archive := (if has ''max_archive_size'' then decomposeBytesToUnit (num ''max_archive_size'')
                          else (''20'', ''MB'')),
           se_timeout := (if has ''archive_unpack_timeout'' then decomposeSeconds (num ''archive_unpack_timeout'')
                          else (''120'', ''seconds'')),
           se_peerTTL := (if has ''peer_ttl'' then decomposeSeconds (num ''peer_ttl'') else (''2'', ''hours'')),
           se_proton := current_text settings ''proton_image'' [],
           se_backend := current_text settings ''monitoring_backend'' ''uplot'',
           se_mode := current_text settings ''dns_resolution_mode'' ''auto''\<rparr>))"

section \<open>Saving\<close>

definition save_setting :: "'w env \<Rightarrow> string \<Rightarrow> string \<Rightarrow> string \<Rightarrow> 'w settings_handler" where
  "save_setting env key value ok_key =
     eff_catch
       (block [api (\<lambda>c. setSetting (en_net env) c key value), show_toast (Success ok_key), doRefresh])
       (toast_error env)"

text \<open>The four forms of a number: an input that is none, one that is the stored value, or a change.\<close>

definition save_number :: "'w env \<Rightarrow> string \<Rightarrow> json option \<Rightarrow> number \<Rightarrow> string \<Rightarrow> string \<Rightarrow> 'w settings_handler" where
  "save_number env key entered current error_key ok_key =
     (case entered of
        None \<Rightarrow> show_toast (FailureKey error_key)
      | Some v \<Rightarrow>
          if Some v = current then show_toast (Info ''settings.toast_nothing_to_do'')
          else save_setting env key (js_string v) ok_key)"

definition handleSaveQuota :: "'w env \<Rightarrow> 'w settings_handler" where
  "handleSaveQuota env = eff_bind (page_read (\<lambda>pg. (se_quota pg, se_settings pg))) (\<lambda>((input, unit), settings).
     save_number env ''default_quota'' (unitToBytes input unit)
       (current_number settings ''default_quota'' DEFAULT_QUOTA_BYTES)
       ''settings.error_invalid_quota'' ''settings.toast_quota_updated'')"

definition handleSaveArchiveSize :: "'w env \<Rightarrow> 'w settings_handler" where
  "handleSaveArchiveSize env = eff_bind (page_read (\<lambda>pg. (se_archive pg, se_settings pg))) (\<lambda>((input, unit), settings).
     save_number env ''max_archive_size'' (unitToBytes input unit)
       (current_number settings ''max_archive_size'' DEFAULT_MAX_ARCHIVE_SIZE_BYTES)
       ''settings.error_invalid_archive_size'' ''settings.toast_archive_size_updated'')"

definition handleSaveTimeout :: "'w env \<Rightarrow> 'w settings_handler" where
  "handleSaveTimeout env = eff_bind (page_read (\<lambda>pg. (se_timeout pg, se_settings pg))) (\<lambda>((input, unit), settings).
     save_number env ''archive_unpack_timeout'' (timeoutToSeconds input unit)
       (current_number settings ''archive_unpack_timeout'' DEFAULT_ARCHIVE_UNPACK_TIMEOUT)
       ''settings.error_invalid_timeout'' ''settings.toast_timeout_updated'')"

definition handleSavePeerTTL :: "'w env \<Rightarrow> 'w settings_handler" where
  "handleSavePeerTTL env = eff_bind (page_read (\<lambda>pg. (se_peerTTL pg, se_settings pg))) (\<lambda>((input, unit), settings).
     save_number env ''peer_ttl'' (peerTTLToSeconds input unit) (current_number settings ''peer_ttl'' DEFAULT_PEER_TTL)
       ''settings.error_invalid_peer_ttl'' ''settings.toast_peer_ttl_updated'')"

definition handleSaveProtonImage :: "'w env \<Rightarrow> 'w settings_handler" where
  "handleSaveProtonImage env = eff_bind (page_read (\<lambda>pg. (se_proton pg, se_settings pg))) (\<lambda>(input, settings).
     if input = current_text settings ''proton_image'' [] then show_toast (Info ''settings.toast_nothing_to_do'')
     else save_setting env ''proton_image'' input ''settings.toast_proton_image_updated'')"

definition handleSaveResolutionMode :: "'w env \<Rightarrow> 'w settings_handler" where
  "handleSaveResolutionMode env = eff_bind (page_read (\<lambda>pg. (se_mode pg, se_settings pg))) (\<lambda>(input, settings).
     if input = current_text settings ''dns_resolution_mode'' ''auto'' then show_toast (Info ''settings.toast_nothing_to_do'')
     else eff_seq (page_set (\<lambda>pg. pg\<lparr>se_modeSaving := True\<rparr>))
       (eff_finally (save_setting env ''dns_resolution_mode'' input ''settings.toast_dns_resolution_saved'')
         (page_set (\<lambda>pg. pg\<lparr>se_modeSaving := False\<rparr>))))"

definition handleToggleLocalForwarders :: "'w env \<Rightarrow> bool \<Rightarrow> 'w settings_handler" where
  "handleToggleLocalForwarders env on =
     eff_seq (page_set (\<lambda>pg. pg\<lparr>se_forwardersSaving := True\<rparr>))
       (eff_finally
         (save_setting env ''dns_local_forwarders'' (if on then ''true'' else ''false'')
           ''settings.toast_dns_local_forwarders_saved'')
         (page_set (\<lambda>pg. pg\<lparr>se_forwardersSaving := False\<rparr>)))"

section \<open>The monitoring backend\<close>

text \<open>The clock and the timer of the browser, over the world of the network.\<close>

record 'w timers =
  tm_now :: "'w \<Rightarrow> int"
  tm_sleep :: "int \<Rightarrow> 'w \<Rightarrow> 'w"

definition monitoring_ready :: "string \<Rightarrow> js_error + json \<Rightarrow> bool" where
  "monitoring_ready wantBackend r =
     (case r of
        Inl err \<Rightarrow> False
      | Inr status \<Rightarrow> truthy status \<and> js_opt_prop status ''backend'' = JStr wantBackend \<and>
          truthy (js_opt_prop status ''monitoring_ui''))"

fun poll_monitoring ::
  "nat \<Rightarrow> 'w env \<Rightarrow> 'w timers \<Rightarrow> string \<Rightarrow> int \<Rightarrow> 'w settings_page \<Rightarrow> (bool \<times> 'w settings_page) option"
where
  "poll_monitoring 0 env tm wantBackend deadline pg = None"
| "poll_monitoring (Suc n) env tm wantBackend deadline pg =
     (if tm_now tm (pg_net pg) < deadline
      then let (r, pg1) = api (monitoringStatus (en_net env)) pg
           in if monitoring_ready wantBackend r then Some (True, pg1)
              else poll_monitoring n env tm wantBackend deadline (pg1\<lparr>pg_net := tm_sleep tm 1500 (pg_net pg1)\<rparr>)
      else Some (False, pg))"

definition pollMonitoringReady ::
  "nat \<Rightarrow> 'w env \<Rightarrow> 'w timers \<Rightarrow> string \<Rightarrow> 'w settings_page \<Rightarrow> (bool \<times> 'w settings_page) option"
where
  "pollMonitoringReady fuel env tm wantBackend pg =
     poll_monitoring fuel env tm wantBackend (tm_now tm (pg_net pg) + 30000) pg"

definition handleSaveMonitoringBackend ::
  "nat \<Rightarrow> 'w env \<Rightarrow> 'w timers \<Rightarrow> 'w settings_page \<Rightarrow> 'w settings_page option"
where
  "handleSaveMonitoringBackend fuel env tm pg =
     (let run = (\<lambda>m pg. snd ((m :: 'w settings_handler) pg));
          wantBackend = se_backend pg;
          saving = (\<lambda>b. page_set (\<lambda>pg. pg\<lparr>se_backendSaving := b\<rparr>))
      in if wantBackend = current_text (se_settings pg) ''monitoring_backend'' ''uplot''
         then Some (run (show_toast (Info ''settings.toast_nothing_to_do'')) pg)
         else
           let (r, pg1) = block [saving True, show_toast (Loading ''settings.toast_monitoring_restarting'' None),
                                 api (\<lambda>c. setSetting (en_net env) c ''monitoring_backend'' wantBackend)] pg
           in (case r of
                 Inl err \<Rightarrow> Some (run (block [show_toast Dismissed, toast_error env err, saving False]) pg1)
               | Inr _ \<Rightarrow>
                   (case pollMonitoringReady fuel env tm wantBackend pg1 of
                      None \<Rightarrow> None
                    | Some (ready, pg2) \<Rightarrow>
                        Some (run (block
                          [show_toast Dismissed,
                           show_toast (if ready then Success ''settings.toast_monitoring_ready''
                                       else Warning ''settings.toast_monitoring_timeout''),
                           doRefresh, saving False]) pg2))))"

section \<open>The language\<close>

text \<open>\<open>list.some((l) => l.code === code)\<close>, which throws at a null entry before the code.\<close>

fun some_code :: "json list \<Rightarrow> string \<Rightarrow> js_error + bool" where
  "some_code [] code = Inr False"
| "some_code (l # ls) code =
     (case js_prop l ''code'' of
        None \<Rightarrow> Inl TypeErr
      | Some c \<Rightarrow> if c = JStr code then Inr True else some_code ls code)"

definition listsLocale :: "json \<Rightarrow> string \<Rightarrow> js_error + bool" where
  "listsLocale ls code = (case ls of JArr xs \<Rightarrow> some_code xs code | _ \<Rightarrow> Inr False)"

text \<open>
  The effect that asks for the locales, with the language the page had when it asked.
\<close>

definition locales_asked :: "'w env \<Rightarrow> string \<Rightarrow> 'w settings_handler" where
  "locales_asked env locale =
     eff_catch
       (eff_bind (api (getLocales (en_net env))) (\<lambda>data.
        eff_seq (page_set (\<lambda>pg. pg\<lparr>se_locales := data\<rparr>))
          (if js_nullish data then eff_throw TypeErr
           else eff_bind (eff_lift (listsLocale (js_opt_prop data ''common_languages'') locale)) (\<lambda>inCommon.
             eff_bind (eff_lift (listsLocale (js_opt_prop data ''extended_locales'') locale)) (\<lambda>inExtended.
               page_set (\<lambda>pg. pg\<lparr>
                 se_selected := (if inCommon \<or> inExtended then JStr locale else js_opt_prop data ''current''),
                 se_showExtended := (se_showExtended pg \<or> \<not> inCommon \<and> inExtended)\<rparr>))))))
       (\<lambda>_. eff_return ())"

definition show_extended_clicked :: "'w settings_handler" where
  "show_extended_clicked = page_set (\<lambda>pg. pg\<lparr>se_showExtended := \<not> se_showExtended pg\<rparr>)"

definition language_chosen :: "string \<Rightarrow> 'w settings_handler" where
  "language_chosen code = page_set (\<lambda>pg. pg\<lparr>se_selected := JStr code\<rparr>)"

text \<open>The codes of the options of the select, in their order.\<close>

definition collapsedSelection :: "'w settings_page \<Rightarrow> json option" where
  "collapsedSelection pg =
     (if se_showExtended pg then None
      else find (\<lambda>l. js_opt_prop l ''code'' = se_selected pg)
             (elements (json_or (js_opt_prop (se_locales pg) ''extended_locales'') (JArr []))))"

definition language_options :: "'w settings_page \<Rightarrow> json list" where
  "language_options pg =
     (let code = (\<lambda>l. js_opt_prop l ''code'')
      in map code (elements (js_opt_prop (se_locales pg) ''common_languages'')) @
         (case collapsedSelection pg of None \<Rightarrow> [] | Some l \<Rightarrow> [code l]) @
         (if se_showExtended pg then map code (elements (js_opt_prop (se_locales pg) ''extended_locales'')) else []))"

text \<open>The toast is in the language chosen, not in the one the page is still in.\<close>

definition handleSaveLanguage :: "'w env \<Rightarrow> (string \<rightharpoonup> catalog) \<Rightarrow> 'w settings_handler" where
  "handleSaveLanguage env catalogs =
     eff_bind (page_read (\<lambda>pg. (se_selected pg, in_locale (se_i18n pg), se_locales pg)))
       (\<lambda>(selectedLocale, locale, localeData).
        if \<not> truthy selectedLocale then eff_return ()
        else let code = js_string selectedLocale;
                 localeChanged = (selectedLocale \<noteq> JStr locale);
                 settingChanged = (selectedLocale \<noteq> js_opt_prop localeData ''current'')
             in if \<not> localeChanged \<and> \<not> settingChanged then show_toast (Info ''settings.toast_nothing_to_do'')
                else eff_catch
                  (block
                    [if settingChanged then api (\<lambda>c. setSetting (en_net env) c ''locale'' code) else eff_return (),
                     page_set (\<lambda>pg. pg\<lparr>se_i18n := setLocale code (se_i18n pg)\<rparr>),
                     show_toast (Success (translateIn catalogs code ''settings.toast_language_updated'' [])),
                     doRefresh])
                  (toast_error env))"

section \<open>Lemmas\<close>

lemma js_number_zero [simp]: "js_number ''0'' = Some (JNum 0)"
  by code_simp

lemma num_negative_JNum [simp]: "num_negative (JNum k) \<longleftrightarrow> k < 0"
  by (simp add: num_negative_def)

lemma num_times_JNum [simp]: "num_times (JNum n) k = JNum (n * k)"
  by (simp add: num_times_def)

text \<open>A number shown in a unit is read back from it.\<close>

lemma in_unit_number:
  assumes "0 \<le> n" "list_all (\<lambda>(u, m). 0 < m) units"
  shows "\<exists>k m. js_number (fst (in_unit units base (Some (JNum n)))) = Some (JNum k) \<and> n = k * m \<and> 0 \<le> k \<and>
     ((snd (in_unit units base (Some (JNum n))), m) \<in> set units \<or>
      snd (in_unit units base (Some (JNum n))) = base \<and> m = 1)"
  using assms(2)
proof (induction units)
  case Nil
  then show ?case using assms(1) by (simp add: number_text_def js_number_int_str)
next
  case (Cons x units)
  obtain u m where x: "x = (u, m)" by force
  show ?case
  proof (cases "n \<ge> m \<and> n mod m = 0")
    case True
    then have "n = n div m * m" using div_mult_mod_eq [of n m] by simp
    moreover have "0 \<le> n div m" using assms(1) Cons.prems x by (simp add: pos_imp_zdiv_nonneg_iff)
    ultimately show ?thesis using True x by (auto simp: js_number_int_str)
  next
    case False
    then have "in_unit (x # units) base (Some (JNum n)) = in_unit units base (Some (JNum n))" by (auto simp: x)
    then show ?thesis using Cons by auto
  qed
qed

lemma unitToBytes_shown:
  "0 \<le> n \<Longrightarrow> unitToBytes (fst (decomposeBytesToUnit (Some (JNum n)))) (snd (decomposeBytesToUnit (Some (JNum n)))) = Some (JNum n)"
  using in_unit_number [of n byte_units "''bytes''"]
  by (auto simp: decomposeBytesToUnit_def unitToBytes_def byte_units_def)

lemma timeoutToSeconds_shown:
  "0 \<le> n \<Longrightarrow> timeoutToSeconds (fst (decomposeSeconds (Some (JNum n)))) (snd (decomposeSeconds (Some (JNum n)))) = Some (JNum n)"
  using in_unit_number [of n second_units "''seconds''"]
  by (auto simp: decomposeSeconds_def timeoutToSeconds_def second_units_def)

lemma peerTTLToSeconds_shown:
  "0 < n \<Longrightarrow> peerTTLToSeconds (fst (decomposeSeconds (Some (JNum n)))) (snd (decomposeSeconds (Some (JNum n)))) = Some (JNum n)"
  using in_unit_number [of n second_units "''seconds''"]
  by (auto simp: decomposeSeconds_def peerTTLToSeconds_def second_units_def)

lemma zero_quota_shown [simp]: "unitToBytes ''0'' ''GB'' = Some (JNum 0)"
  by (simp add: unitToBytes_def)

lemma save_number_same [simp]:
  "save_number env key (Some v) (Some v) error_key ok_key = show_toast (Info ''settings.toast_nothing_to_do'')"
  by (simp add: save_number_def)

lemma stored_number:
  "map_of settings key = Some (JStr (int_str n)) \<Longrightarrow> 0 \<le> n \<Longrightarrow>
   setting_of settings key = JStr (int_str n) \<and> current_number settings key unset = Some (JNum n)"
  by (simp add: setting_of_def current_number_def js_number_int_str)

lemma wp_settings_loaded:
  "wp (eff_seq (settings_loaded settings) h) Q pg = wp h Q (snd (settings_loaded settings pg))"
proof -
  obtain pg' where pg': "settings_loaded settings pg = (Inr (), pg')" by (simp add: settings_loaded_def page_set_def Let_def)
  then show ?thesis by (simp add: wp_seq) (simp add: wp_def)
qed

lemma loaded_page:
  "pg_net (snd (settings_loaded settings pg)) = pg_net pg"
  "pg_client (snd (settings_loaded settings pg)) = pg_client pg"
  "pg_storage (snd (settings_loaded settings pg)) = pg_storage pg"
  "pg_refreshKey (snd (settings_loaded settings pg)) = pg_refreshKey pg"
  "pg_log (snd (settings_loaded settings pg)) = pg_log pg"
  "se_settings (snd (settings_loaded settings pg)) = settings"
  "se_proton (snd (settings_loaded settings pg)) = current_text settings ''proton_image'' []"
  "se_mode (snd (settings_loaded settings pg)) = current_text settings ''dns_resolution_mode'' ''auto''"
  by (simp_all add: settings_loaded_def page_set_def Let_def)

lemma loaded_numbers:
  "setting_of settings ''default_quota'' = JStr (int_str n) \<Longrightarrow> 0 \<le> n \<Longrightarrow> se_quota (snd (settings_loaded settings pg))
     = (if n = 0 then (''0'', ''GB'') else decomposeBytesToUnit (Some (JNum n)))"
  "setting_of settings ''max_archive_size'' = JStr (int_str n) \<Longrightarrow> 0 \<le> n \<Longrightarrow>
     se_archive (snd (settings_loaded settings pg)) = decomposeBytesToUnit (Some (JNum n))"
  "setting_of settings ''archive_unpack_timeout'' = JStr (int_str n) \<Longrightarrow> 0 \<le> n \<Longrightarrow>
     se_timeout (snd (settings_loaded settings pg)) = decomposeSeconds (Some (JNum n))"
  "setting_of settings ''peer_ttl'' = JStr (int_str n) \<Longrightarrow> 0 \<le> n \<Longrightarrow>
     se_peerTTL (snd (settings_loaded settings pg)) = decomposeSeconds (Some (JNum n))"
  "setting_of settings ''max_archive_size'' = JUndefined \<Longrightarrow> se_archive (snd (settings_loaded settings pg)) = (''20'', ''MB'')"
  "setting_of settings ''archive_unpack_timeout'' = JUndefined \<Longrightarrow>
     se_timeout (snd (settings_loaded settings pg)) = (''120'', ''seconds'')"
  by (simp_all add: settings_loaded_def page_set_def Let_def js_number_int_str)

section \<open>Theorems\<close>

text \<open>C29: a setting that is not touched is not changed: pressing Save on a form as it shows the
  stored number, in whatever unit divides it, sends nothing and says that there is
  nothing to do.\<close>

theorem untouched_setting_kept:
  assumes "map_of settings ''default_quota'' = Some (JStr (int_str quota))" "0 \<le> quota"
    and "map_of settings ''max_archive_size'' = Some (JStr (int_str archive))" "0 \<le> archive"
    and "map_of settings ''archive_unpack_timeout'' = Some (JStr (int_str timeout))" "0 \<le> timeout"
    and "map_of settings ''peer_ttl'' = Some (JStr (int_str ttl))" "0 < ttl"
    and "h \<in> {handleSaveQuota env, handleSaveArchiveSize env, handleSaveTimeout env, handleSavePeerTTL env,
              handleSaveProtonImage env, handleSaveResolutionMode env}"
  shows "wp (eff_seq (settings_loaded settings) h)
    (\<lambda>r pg'. r = Inr () \<and> pg_net pg' = pg_net pg \<and> pg_refreshKey pg' = pg_refreshKey pg \<and>
       pg_log pg' = pg_log pg @ [Info ''settings.toast_nothing_to_do'']) pg"
proof -
  note stored = stored_number [OF assms(1,2)] stored_number [OF assms(3,4)] stored_number [OF assms(5,6)]
    stored_number [OF assms(7) less_imp_le [OF assms(8)]]
  show ?thesis
    unfolding wp_settings_loaded
    using assms(2,4,6,8,9)
    by (elim insertE emptyE)
      (simp_all add: handleSaveQuota_def handleSaveArchiveSize_def handleSaveTimeout_def handleSavePeerTTL_def
         handleSaveProtonImage_def handleSaveResolutionMode_def wp_simps loaded_page loaded_numbers stored split_beta
         unitToBytes_shown timeoutToSeconds_shown peerTTLToSeconds_shown)
qed

definition sample_settings :: "json obj" where
  "sample_settings = [(''default_quota'', JStr ''53687091200''), (''max_archive_size'', JStr ''1073741824''),
     (''archive_unpack_timeout'', JStr ''600''), (''peer_ttl'', JStr ''7200'')]"

definition settings_page_on :: "'w \<Rightarrow> 'w settings_page" where
  "settings_page_on w =
     \<lparr>pg_net = w, pg_storage = \<lparr>st_local = Map.empty, st_session = Map.empty\<rparr>, pg_client = newClient [],
      pg_log = [], pg_refreshKey = 0, se_settings = [],
      se_i18n = \<lparr>in_locale = ''en-US'', in_pinned = False, in_browser = german_browser\<rparr>, se_locales = JUndefined,
      se_showExtended = False, se_selected = JStr [], se_quota = ([], ''GB''), se_archive = ([], ''MB''),
      se_timeout = ([], ''seconds''), se_peerTTL = ([], ''hours''), se_proton = [], se_backend = ''uplot'',
      se_mode = ''auto'', se_backendSaving = False, se_modeSaving = False, se_forwardersSaving = False\<rparr>"

definition sample_settings_page :: "request list settings_page" where
  "sample_settings_page = settings_page_on []"

definition answering :: "js_error + response \<Rightarrow> request list env" where
  "answering r = \<lparr>en_net = recording (\<lambda>_ _. r), en_message = (\<lambda>_. [])\<rparr>"

theorem untouched_setting_kept_witness:
  "wp (eff_seq (settings_loaded sample_settings) (handleSaveTimeout (answering (Inl TypeErr))))
     (\<lambda>r pg'. pg_net pg' = []) sample_settings_page"
proof -
  have "int_str 53687091200 = ''53687091200''" "int_str 1073741824 = ''1073741824''"
    "int_str 600 = ''600''" "int_str 7200 = ''7200''"
    by (simp_all add: int_str_def nat_str.simps digit_chars)
  then have "wp (eff_seq (settings_loaded sample_settings) (handleSaveTimeout (answering (Inl TypeErr))))
      (\<lambda>r pg'. r = Inr () \<and> pg_net pg' = pg_net sample_settings_page \<and>
         pg_refreshKey pg' = pg_refreshKey sample_settings_page \<and>
         pg_log pg' = pg_log sample_settings_page @ [Info ''settings.toast_nothing_to_do'']) sample_settings_page"
    by (intro untouched_setting_kept [where quota = 53687091200 and archive = 1073741824 and timeout = 600 and ttl = 7200
          and env = "answering (Inl TypeErr)"]) (simp_all add: sample_settings_def)
  then show ?thesis by (rule wp_weaken) (simp add: sample_settings_page_def settings_page_on_def)
qed

lemma setSetting_sent:
  assumes "en_net env = recording a"
  shows "(\<And>r c. c = getClient (pg_storage s) (pg_client s) \<Longrightarrow>
      Q r (s\<lparr>pg_client := c, pg_net := pg_net s @
        [post_request c ''/settings/set'' (JObj [(''key'', JStr key), (''value'', JStr v)])]\<rparr>)) \<Longrightarrow>
   wp (api (\<lambda>c. setSetting (en_net env) c key v)) Q s"
  unfolding setSetting_def assms by (rule wp_recording_ignore)

text \<open>Without a stored limit the forms for archives do not show the limits in force: the page
  says 1 GB and 10 minutes are current, the forms 20 MB and 120 seconds, and pressing Save on
  a form nobody touched lowers the limit to what it shows.\<close>

theorem unset_limits_lowered:
  assumes "en_net env = recording a"
    and "map_of settings ''max_archive_size'' = None" "map_of settings ''archive_unpack_timeout'' = None"
  shows "wp (eff_seq (settings_loaded settings) (handleSaveArchiveSize env))
      (\<lambda>r pg'. pg_net pg' = pg_net pg @ [post_request (getClient (pg_storage pg) (pg_client pg)) ''/settings/set''
         (JObj [(''key'', JStr ''max_archive_size''), (''value'', JStr ''20971520'')])]) pg \<and>
    wp (eff_seq (settings_loaded settings) (handleSaveTimeout env))
      (\<lambda>r pg'. pg_net pg' = pg_net pg @ [post_request (getClient (pg_storage pg) (pg_client pg)) ''/settings/set''
         (JObj [(''key'', JStr ''archive_unpack_timeout''), (''value'', JStr ''120'')])]) pg \<and>
    formatBytes_setting ''settings.format_0_bytes'' (current_number settings ''max_archive_size'' DEFAULT_MAX_ARCHIVE_SIZE_BYTES)
      = ''1 GB'' \<and>
    formatDuration (current_number settings ''archive_unpack_timeout'' DEFAULT_ARCHIVE_UNPACK_TIMEOUT) = ''10 minutes''"
proof -
  have nums: "int_str 20 = ''20''" "int_str 120 = ''120''" "int_str 20971520 = ''20971520''" "int_str 1 = ''1''" "int_str 10 = ''10''"
    by (simp_all add: int_str_def nat_str.simps digit_chars)
  have bytes: "unitToBytes ''20'' ''MB'' = Some (JNum 20971520)" "js_string (JNum 20971520) = ''20971520''"
    using js_number_int_str [of 20] by (simp_all add: nums unitToBytes_def)
  have secs: "timeoutToSeconds ''120'' ''seconds'' = Some (JNum 120)" "js_string (JNum 120) = ''120''"
    using js_number_int_str [of 120] by (simp_all add: nums timeoutToSeconds_def)
  have unset: "setting_of settings ''max_archive_size'' = JUndefined" "setting_of settings ''archive_unpack_timeout'' = JUndefined"
    using assms by (simp_all add: setting_of_def)
  have shown: "formatBytes_setting ''settings.format_0_bytes'' (Some (JNum DEFAULT_MAX_ARCHIVE_SIZE_BYTES)) = ''1 GB''"
    "formatDuration (Some (JNum DEFAULT_ARCHIVE_UNPACK_TIMEOUT)) = ''10 minutes''"
    by (simp_all add: formatBytes_setting_def formatDuration_def DEFAULT_MAX_ARCHIVE_SIZE_BYTES_def
          DEFAULT_ARCHIVE_UNPACK_TIMEOUT_def byte_units_def second_units_def nums)
  have sent: "wp (save_setting env key v ok) (\<lambda>r pg'. pg_net pg' = pg_net pg @
      [post_request (getClient (pg_storage pg) (pg_client pg)) ''/settings/set''
         (JObj [(''key'', JStr key), (''value'', JStr v)])]) (snd (settings_loaded settings pg))" for key v ok
    unfolding save_setting_def wp_catch wp_block wp_seq
    by (rule setSetting_sent [OF assms(1)]) (simp add: wp_simps loaded_page split: sum.split)
  show ?thesis
    unfolding wp_settings_loaded handleSaveArchiveSize_def handleSaveTimeout_def wp_bind wp_read sum.case
      loaded_numbers(5) [OF unset(1)] loaded_numbers(6) [OF unset(2)] prod.case bytes(1) secs(1) loaded_page
    using shown unset
    by (simp add: current_number_def save_number_def DEFAULT_MAX_ARCHIVE_SIZE_BYTES_def DEFAULT_ARCHIVE_UNPACK_TIMEOUT_def
          nums sent)
qed

theorem unset_limits_lowered_witness:
  "wp (eff_seq (settings_loaded []) (handleSaveTimeout (answering (Inl TypeErr)))) (\<lambda>r pg'. length (pg_net pg') = 1)
     sample_settings_page"
  by (rule wp_weaken [OF unset_limits_lowered [of "answering (Inl TypeErr)" "\<lambda>_ _. Inl TypeErr" "[]" sample_settings_page,
        THEN conjunct2, THEN conjunct1]])
    (simp_all add: answering_def sample_settings_page_def settings_page_on_def)

text \<open>The rounds of the wait for the monitoring backend: each takes an interval at least.\<close>

lemma getJSON_clock:
  assumes "\<And>rq w. now w \<le> now (snd (net rq w))"
  shows "now w \<le> (now (snd (getJSON net cl path hs w)) :: int)"
  using assms [of w "get_request cl path hs"]
  by (auto simp: getJSON_def get_def eff_bind_def eff_lift_def split: prod.split sum.split)

lemma poll_monitoring_ends:
  assumes "\<And>rq w. tm_now tm w \<le> tm_now tm (snd (en_net env rq w))"
    and "\<And>w. tm_now tm w + 1500 \<le> tm_now tm (tm_sleep tm 1500 w)"
  shows "1 \<le> n \<Longrightarrow> deadline \<le> tm_now tm (pg_net pg) + 1500 * int (n - 1) \<Longrightarrow>
    \<exists>ok c w. poll_monitoring n env tm wantBackend deadline pg = Some (ok, pg\<lparr>pg_client := c, pg_net := w\<rparr>) \<and>
      (if ok then \<exists>s r. monitoring_ready wantBackend r \<and> monitoringStatus (en_net env) c s = (r, w)
       else deadline \<le> tm_now tm w)"
proof (induction n arbitrary: pg)
  case (Suc n)
  let ?c = "getClient (pg_storage pg) (pg_client pg)"
  obtain r w where call: "monitoringStatus (en_net env) ?c (pg_net pg) = (r, w)" by force
  then have api: "api (monitoringStatus (en_net env)) pg = (r, pg\<lparr>pg_client := ?c, pg_net := w\<rparr>)"
    by (simp add: api_def Let_def)
  have now: "tm_now tm (pg_net pg) \<le> tm_now tm w"
    using getJSON_clock [where now = "tm_now tm" and net = "en_net env" and w = "pg_net pg" and cl = ?c
        and path = "''/monitoring/status''" and hs = "[]", OF assms(1)] call
    by (simp add: monitoringStatus_def)
  consider "deadline \<le> tm_now tm (pg_net pg)" | "tm_now tm (pg_net pg) < deadline" "monitoring_ready wantBackend r"
    | "tm_now tm (pg_net pg) < deadline" "\<not> monitoring_ready wantBackend r" by linarith
  then show ?case
  proof cases
    case 1
    then have "poll_monitoring (Suc n) env tm wantBackend deadline pg
      = Some (False, pg\<lparr>pg_client := pg_client pg, pg_net := pg_net pg\<rparr>)" by simp
    moreover have "if False then X else deadline \<le> tm_now tm (pg_net pg)" for X using 1 by simp
    ultimately show ?thesis by blast
  next
    case 2
    then have "poll_monitoring (Suc n) env tm wantBackend deadline pg = Some (True, pg\<lparr>pg_client := ?c, pg_net := w\<rparr>)"
      using api by simp
    moreover have "if True then \<exists>s r. monitoring_ready wantBackend r \<and> monitoringStatus (en_net env) ?c s = (r, w) else X" for X
      using 2(2) call by (metis (full_types))
    ultimately show ?thesis by blast
  next
    case 3
    let ?pg = "pg\<lparr>pg_client := ?c, pg_net := tm_sleep tm 1500 w\<rparr>"
    obtain m where n: "n = Suc m" using Suc.prems 3 by (cases n) auto
    have "deadline \<le> tm_now tm (pg_net ?pg) + 1500 * int (n - 1)"
      using Suc.prems(2) now assms(2) [of w] by (simp add: n)
    then obtain ok c w' where *:
      "poll_monitoring n env tm wantBackend deadline ?pg = Some (ok, ?pg\<lparr>pg_client := c, pg_net := w'\<rparr>)"
      "if ok then \<exists>s r. monitoring_ready wantBackend r \<and> monitoringStatus (en_net env) c s = (r, w')
       else deadline \<le> tm_now tm w'"
      using Suc.IH [of ?pg] n by auto
    have "poll_monitoring (Suc n) env tm wantBackend deadline pg = Some (ok, pg\<lparr>pg_client := c, pg_net := w'\<rparr>)"
      using *(1) 3 api by simp
    then show ?thesis using *(2) by blast
  qed
qed simp

text \<open>Saving the monitoring backend ends: with a clock that does not run backwards and a timer
  that sleeps as long as it is told, 21 rounds are enough; afterwards the progress toast is
  gone and the form enabled again.  Success is reported only if the server has said that the
  backend asked for is up, the warning only when thirty seconds are over.\<close>

theorem monitoring_save_ends:
  assumes "\<And>rq w. tm_now tm w \<le> tm_now tm (snd (en_net env rq w))"
    and "\<And>w. tm_now tm w + 1500 \<le> tm_now tm (tm_sleep tm 1500 w)"
    and "se_backend pg \<noteq> current_text (se_settings pg) ''monitoring_backend'' ''uplot''"
  shows "\<exists>pg'. handleSaveMonitoringBackend 21 env tm pg = Some pg' \<and> \<not> se_backendSaving pg' \<and> \<not> progress_shown pg' \<and>
    (last (pg_log pg') = Success ''settings.toast_monitoring_ready'' \<longrightarrow>
       (\<exists>c s r. fst (monitoringStatus (en_net env) c s) = r \<and> monitoring_ready (se_backend pg) r)) \<and>
    (last (pg_log pg') = Warning ''settings.toast_monitoring_timeout'' \<longrightarrow>
       tm_now tm (pg_net pg) + 30000 \<le> tm_now tm (pg_net pg'))"
proof -
  let ?want = "se_backend pg"
  let ?save = "block [page_set (\<lambda>pg. pg\<lparr>se_backendSaving := True\<rparr>),
      show_toast (Loading ''settings.toast_monitoring_restarting'' None),
      api (\<lambda>c. setSetting (en_net env) c ''monitoring_backend'' ?want)]"
  have post_clock: "tm_now tm w \<le> tm_now tm (snd (setSetting (en_net env) c k v w))" for c k v w
    using assms(1) [of w "post_request c ''/settings/set'' (JObj [(''key'', JStr k), (''value'', JStr v)])"]
    by (auto simp: setSetting_def ignore_result_def post_def eff_bind_def eff_lift_def eff_return_def
        split: prod.split sum.split)
  obtain r pg1 where save: "?save pg = (r, pg1)" by force
  have pg1: "tm_now tm (pg_net pg) \<le> tm_now tm (pg_net pg1)"
    using save post_clock [of "pg_net pg" "getClient (pg_storage pg) (pg_client pg)" "''monitoring_backend''" ?want]
    by (auto simp: run_simps api_def Let_def split: prod.splits)
  have polled: "\<exists>ok c w. pollMonitoringReady 21 env tm ?want pg1 = Some (ok, pg1\<lparr>pg_client := c, pg_net := w\<rparr>) \<and>
      (if ok then \<exists>s r. monitoring_ready ?want r \<and> monitoringStatus (en_net env) c s = (r, w)
       else tm_now tm (pg_net pg1) + 30000 \<le> tm_now tm w)"
    unfolding pollMonitoringReady_def by (rule poll_monitoring_ends [OF assms(1,2)]) simp_all
  note run = handleSaveMonitoringBackend_def Let_def run_simps progress_shown_def
  show ?thesis
  proof (cases r)
    case (Inl err)
    then have "handleSaveMonitoringBackend 21 env tm pg
      = Some (pg1\<lparr>pg_log := pg_log pg1 @ [Dismissed, Failure (error_text (en_message env) err)], se_backendSaving := False\<rparr>)"
      using save assms(3) by (simp add: run)
    then show ?thesis by (simp add: progress_shown_def)
  next
    case (Inr u)
    obtain ok c w where *: "pollMonitoringReady 21 env tm ?want pg1 = Some (ok, pg1\<lparr>pg_client := c, pg_net := w\<rparr>)"
      "if ok then \<exists>s r. monitoring_ready ?want r \<and> monitoringStatus (en_net env) c s = (r, w)
       else tm_now tm (pg_net pg1) + 30000 \<le> tm_now tm w" using polled by blast
    let ?t = "if ok then Success ''settings.toast_monitoring_ready'' else Warning ''settings.toast_monitoring_timeout''"
    have "handleSaveMonitoringBackend 21 env tm pg = Some (pg1\<lparr>pg_client := c, pg_net := w,
        pg_log := pg_log pg1 @ [Dismissed, ?t], pg_refreshKey := pg_refreshKey pg1 + 1, se_backendSaving := False\<rparr>)"
      using save assms(3) Inr *(1) by (simp add: run)
    moreover have "ok \<Longrightarrow> \<exists>c s. monitoring_ready ?want (fst (monitoringStatus (en_net env) c s))"
      using *(2) by (metis fst_conv)
    moreover have "\<not> ok \<Longrightarrow> tm_now tm (pg_net pg) + 30000 \<le> tm_now tm w" using *(2) pg1 by simp
    ultimately show ?thesis by (auto simp: progress_shown_def)
  qed
qed

definition silent_timers :: "int timers" where
  "silent_timers = \<lparr>tm_now = (\<lambda>w. w), tm_sleep = (\<lambda>ms w. w + ms)\<rparr>"

definition silent_env :: "int env" where
  "silent_env = \<lparr>en_net = (\<lambda>rq w. (Inr \<lparr>rs_status = 200, rs_chunks = [], rs_broken = False\<rparr>, w + 100)), en_message = (\<lambda>_. [])\<rparr>"

theorem monitoring_save_ends_witness:
  "\<exists>pg'. handleSaveMonitoringBackend 21 silent_env silent_timers ((settings_page_on 0)\<lparr>se_backend := ''grafana''\<rparr>)
     = Some pg' \<and> \<not> se_backendSaving pg'"
  using monitoring_save_ends [of silent_timers silent_env "(settings_page_on 0)\<lparr>se_backend := ''grafana''\<rparr>"]
  by (auto simp: silent_timers_def silent_env_def settings_page_on_def current_text_def setting_of_def json_or_def)

text \<open>Choosing a language in the settings: what is stored already is not sent again, what
  differs is sent once; when the server accepts it (or need not be asked) the page is in
  the language chosen and says so in it, and no later answer of the server changes the
  language back; when the server refuses, the page keeps its language and shows the error.\<close>

theorem language_saved:
  assumes "en_net env = recording a" "se_selected pg = JStr code" "code \<noteq> []"
  shows "wp (handleSaveLanguage env catalogs) (\<lambda>r pg'. r = Inr () \<and>
      (let stored = js_opt_prop (se_locales pg) ''current'';
           sent = (if stored = JStr code then []
                   else [post_request (getClient (pg_storage pg) (pg_client pg)) ''/settings/set''
                           (JObj [(''key'', JStr ''locale''), (''value'', JStr code)])]);
           kept = (se_i18n pg' = se_i18n pg)
       in pg_net pg' = pg_net pg @ sent \<and>
          (if in_locale (se_i18n pg) = code \<and> stored = JStr code
           then kept \<and> pg_log pg' = pg_log pg @ [Info ''settings.toast_nothing_to_do'']
           else pg_log pg' = pg_log pg @ [Success (translateIn catalogs code ''settings.toast_language_updated'' [])] \<and>
                in_locale (fold syncServerLocale server (se_i18n pg')) = code \<or>
                stored \<noteq> JStr code \<and> kept \<and> (\<exists>e. pg_log pg' = pg_log pg @ [Failure e])))) pg"
proof (cases "js_opt_prop (se_locales pg) ''current'' = JStr code")
  case True
  then show ?thesis
    using assms(2,3)
    by (cases "in_locale (se_i18n pg) = code")
      (simp_all add: handleSaveLanguage_def wp_simps Let_def sync_pinned setLocale_def)
next
  case False
  show ?thesis
    unfolding handleSaveLanguage_def wp_bind wp_read sum.case prod.case
    using assms(2,3) False
    by (simp add: Let_def wp_catch wp_seq)
      (rule setSetting_sent [OF assms(1)]; simp add: wp_simps sync_pinned setLocale_def Let_def split: sum.split)
qed

theorem language_saved_witness:
  "wp (handleSaveLanguage (answering (Inl TypeErr)) Map.empty) (\<lambda>r pg'. in_locale (se_i18n pg') = ''en-US'' \<or> pg_log pg' \<noteq> [])
     (sample_settings_page\<lparr>se_selected := JStr ''de-DE''\<rparr>)"
  by (rule wp_weaken [OF language_saved [where a = "\<lambda>_ _. Inl TypeErr" and code = "''de-DE''" and server = "[]"]])
    (auto simp: answering_def sample_settings_page_def settings_page_on_def Let_def split: if_splits)

text \<open>What a list of languages is: every entry has a code.\<close>

definition locale_list :: "json \<Rightarrow> bool" where
  "locale_list v = (case v of JArr ls \<Rightarrow> list_all (\<lambda>l. js_prop l ''code'' \<noteq> None) ls | _ \<Rightarrow> False)"

definition locale_codes :: "json \<Rightarrow> json list" where
  "locale_codes v = map (\<lambda>l. js_opt_prop l ''code'') (elements v)"

lemma some_code_iff:
  "list_all (\<lambda>l. js_prop l ''code'' \<noteq> None) ls \<Longrightarrow>
   some_code ls code = Inr (JStr code \<in> set (map (\<lambda>l. js_opt_prop l ''code'') ls))"
  by (induction ls) (auto simp: js_opt_prop_def split: option.split)

lemma listsLocale_iff: "locale_list v \<Longrightarrow> listsLocale v code = Inr (JStr code \<in> set (locale_codes v))"
  by (cases v) (simp_all add: locale_list_def listsLocale_def locale_codes_def elements_def some_code_iff)

lemma selected_is_option:
  assumes "locale_list (js_opt_prop (se_locales pg) ''extended_locales'')"
    and "se_selected pg \<in> set (locale_codes (js_opt_prop (se_locales pg) ''common_languages'')) \<or>
      se_selected pg \<in> set (locale_codes (js_opt_prop (se_locales pg) ''extended_locales''))"
    and "s = se_selected pg"
  shows "s \<in> set (language_options pg)"
proof (cases "se_selected pg \<in> set (locale_codes (js_opt_prop (se_locales pg) ''common_languages''))")
  case True
  then show ?thesis using assms(3) by (simp add: language_options_def locale_codes_def Let_def)
next
  case False
  let ?ls = "elements (js_opt_prop (se_locales pg) ''extended_locales'')"
  have ls: "elements (json_or (js_opt_prop (se_locales pg) ''extended_locales'') (JArr [])) = ?ls"
    using assms(1) by (auto simp: locale_list_def json_or_def split: json.splits)
  show ?thesis
  proof (cases "se_showExtended pg")
    case True
    then show ?thesis using assms(2,3) False by (simp add: language_options_def locale_codes_def Let_def)
  next
    case f: False
    have "find (\<lambda>l. js_opt_prop l ''code'' = se_selected pg) ?ls \<noteq> None"
      using assms(2) False by (auto simp: find_None_iff locale_codes_def)
    then obtain l where "find (\<lambda>l. js_opt_prop l ''code'' = se_selected pg) ?ls = Some l" by blast
    then show ?thesis
      using assms(3) f ls find_Some_iff [of "\<lambda>l. js_opt_prop l ''code'' = se_selected pg" ?ls l]
      by (auto simp: language_options_def collapsedSelection_def Let_def)
  qed
qed

text \<open>The language select is never blank: when the server lists the page's language, or else
  its own, the one selected is among the options, whether the list of all locales is shown
  or collapsed.\<close>

theorem language_select_never_blank:
  assumes "fst (getLocales (en_net env) (getClient (pg_storage pg) (pg_client pg)) (pg_net pg)) = Inr data"
    and "locale_list (js_opt_prop data ''common_languages'')" "locale_list (js_opt_prop data ''extended_locales'')"
    and "x \<in> {JStr locale, js_opt_prop data ''current''}"
      "x \<in> set (locale_codes (js_opt_prop data ''common_languages'')) \<or>
       x \<in> set (locale_codes (js_opt_prop data ''extended_locales''))"
  shows "wp (locales_asked env locale) (\<lambda>r pg'. r = Inr () \<and>
      se_selected pg' \<in> set (language_options (pg'\<lparr>se_showExtended := shown\<rparr>))) pg"
proof -
  obtain w where w: "getLocales (en_net env) (getClient (pg_storage pg) (pg_client pg)) (pg_net pg) = (Inr data, w)"
    using assms(1) by (metis prod.collapse)
  have "\<not> js_nullish data" using assms(2) by (auto simp: js_nullish_def locale_list_def js_opt_prop_def js_prop_def)
  then show ?thesis
    unfolding locales_asked_def wp_catch wp_bind wp_api_exact [where f = "getLocales (en_net env)", OF w]
    using assms(2-5)
    by (auto simp: wp_simps listsLocale_iff intro!: selected_is_option)
qed

theorem language_select_never_blank_witness:
  "wp (locales_asked (answering (Inr \<lparr>rs_status = 200, rs_chunks = [''{\"current\":\"en-US\",\"common_languages\":[{\"code\":\"en-US\"}],\"extended_locales\":[{\"code\":\"de-AT\"}]}''], rs_broken = False\<rparr>)) ''de-AT'')
     (\<lambda>r pg'. se_selected pg' \<in> set (language_options (pg'\<lparr>se_showExtended := False\<rparr>))) sample_settings_page"
proof -
  let ?body = "''{\"current\":\"en-US\",\"common_languages\":[{\"code\":\"en-US\"}],\"extended_locales\":[{\"code\":\"de-AT\"}]}''"
  let ?data = "JObj [(''current'', JStr ''en-US''), (''common_languages'', JArr [JObj [(''code'', JStr ''en-US'')]]),
      (''extended_locales'', JArr [JObj [(''code'', JStr ''de-AT'')]])]"
  have body: "parse_json ?body = Some ?data" by code_simp
  show ?thesis
    by (rule wp_weaken [OF language_select_never_blank [where data = ?data and x = "JStr ''de-AT''" and shown = False]])
      (simp_all add: answering_def sample_settings_page_def settings_page_on_def getLocales_def getJSON_def get_def eff_bind_def eff_lift_def
        recording_def check_status_def response_json_def response_text_def body locale_list_def locale_codes_def js_opt_prop_def js_prop_def elements_def)
qed

end
