(* ===== verification/VolumeTree.thy ===== *)
theory VolumeTree
  imports JsBase "HOL-Library.AList" "HOL-Library.Multiset" "HOL-Library.List_Lexorder" "HOL-Library.Char_ord"
begin

text \<open>
  The tree of package volumes, \<^verbatim>\<open>components/storage/PackageVolumeTree.jsx\<close>: the flat
  list of the server folded into a forest of packages, and the volumes of a package
  grouped by version.  \<open>localeCompare\<close> belongs to the engine's locale data and is the
  parameter \<open>le\<close>; a \<open>Map\<close> is an association list in insertion order.
\<close>

section \<open>Groups and volumes\<close>

record volume =
  vo_name :: string
  vo_internal_name :: string
  vo_state :: string
  vo_quota :: int

text \<open>An absent \<open>effective_name\<close> is the empty string, which the code treats alike.\<close>

record volume_group =
  vg_repo :: string
  vg_effective_name :: string
  vg_package :: string
  vg_volumes :: "volume list"

definition splitVolumeName :: "string \<Rightarrow> string \<times> string" where
  "splitVolumeName name =
     (case index_of_char CHR ''/'' name of
        None \<Rightarrow> (name, [])
      | Some idx \<Rightarrow> (take idx name, drop (idx + 1) name))"

text \<open>The loop, which pushes each volume with its display name, and then the sorting.\<close>

definition push_volume :: "(string \<times> (volume \<times> string) list) list \<Rightarrow> volume \<Rightarrow> (string \<times> (volume \<times> string) list) list" where
  "push_volume byVersion vol =
     (let (version, rest) = splitVolumeName (vo_name vol);
          byVersion' = (if map_of byVersion version = None then AList.update version [] byVersion else byVersion);
          shown = (vol, if rest = [] then vo_name vol else rest)
      in AList.update version (the (map_of byVersion' version) @ [shown]) byVersion')"

definition groupByVersion :: "(string \<Rightarrow> string \<Rightarrow> bool) \<Rightarrow> volume list \<Rightarrow> (string \<times> (volume \<times> string) list) list" where
  "groupByVersion le volumes =
     (let byVersion = foldl push_volume [] volumes
      in map (\<lambda>version. (version, sort_by (\<lambda>a b. le (snd a) (snd b)) (the (map_of byVersion version))))
           (sort (map fst byVersion)))"

section \<open>The forest of packages\<close>

definition effective_name :: "volume_group \<Rightarrow> string" where
  "effective_name g = (if vg_effective_name g \<noteq> [] then vg_effective_name g else vg_package g)"

definition pkgKeyFor :: "volume_group \<Rightarrow> string" where
  "pkgKeyFor g = vg_repo g @ ''/'' @ effective_name g"

definition parent_key :: "volume_group \<Rightarrow> string option" where
  "parent_key g =
     (let eff = effective_name g
      in map_option (\<lambda>lastDep. vg_repo g @ ''/'' @ take lastDep eff) (last_index_of ''--dep--'' eff))"

definition by_key :: "volume_group list \<Rightarrow> (string \<times> volume_group) list" where
  "by_key groups = foldl (\<lambda>m g. AList.update (pkgKeyFor g) g m) [] groups"

text \<open>
  The loop over the nodes: \<open>kids\<close> holds the \<open>children\<close> arrays of the nodes, by key.
\<close>

definition attach ::
  "string set \<Rightarrow> volume_group list \<times> (string \<Rightarrow> volume_group list) \<Rightarrow> volume_group \<Rightarrow>
   volume_group list \<times> (string \<Rightarrow> volume_group list)"
where
  "attach present = (\<lambda>(roots, kids) g.
     (case parent_key g of
        None \<Rightarrow> (roots @ [g], kids)
      | Some parent \<Rightarrow>
          if parent \<in> present then (roots, kids(parent := kids parent @ [g])) else (roots @ [g], kids)))"

datatype volume_node = VolumeNode volume_group "volume_node list"

text \<open>The node objects and the arrays they refer to, read as a tree down to a depth.\<close>

fun grow :: "nat \<Rightarrow> (string \<Rightarrow> volume_group list) \<Rightarrow> volume_group \<Rightarrow> volume_node" where
  "grow 0 kids g = VolumeNode g []"
| "grow (Suc n) kids g = VolumeNode g (map (grow n kids) (kids (pkgKeyFor g)))"

definition buildPackageTree :: "(string \<Rightarrow> string \<Rightarrow> bool) \<Rightarrow> volume_group list \<Rightarrow> volume_node list" where
  "buildPackageTree le groups =
     (let byKey = by_key groups;
          cmp = (\<lambda>a b. le (vg_package a) (vg_package b));
          (roots, kids) = foldl (attach (set (map fst byKey))) ([], \<lambda>_. []) (map snd byKey);
          depth = foldr (\<lambda>(k, _) n. max (length k) n) byKey 0
      in map (grow (Suc depth) (\<lambda>k. sort_by cmp (kids k))) (sort_by cmp roots))"

fun countDescendants :: "volume_node \<Rightarrow> nat" where
  "countDescendants (VolumeNode g children) = length children + sum_list (map countDescendants children)"

section \<open>What is on display\<close>

text \<open>The groups of a forest, and its nodes.\<close>

fun flatten :: "volume_node \<Rightarrow> volume_group list" where
  "flatten (VolumeNode g children) = g # concat (map flatten children)"

fun subnodes :: "volume_node \<Rightarrow> volume_node list" where
  "subnodes (VolumeNode g children) = VolumeNode g children # concat (map subnodes children)"

fun node_group :: "volume_node \<Rightarrow> volume_group" where "node_group (VolumeNode g _) = g"
fun node_children :: "volume_node \<Rightarrow> volume_node list" where "node_children (VolumeNode _ cs) = cs"

section \<open>Lemmas on the library functions\<close>

lemma mset_insert_by [simp]: "mset (insert_by le x xs) = add_mset x (mset xs)"
  by (induction xs) auto

lemma mset_sort_by [simp]: "mset (sort_by le xs) = mset xs"
  unfolding sort_by_def by (induction xs) auto

lemma sum_mset_concat: "mset xs = mset ys \<Longrightarrow> mset (concat (map f xs)) = mset (concat (map f ys))"
  by (metis mset_concat mset_map map_map sum_mset_sum_list)

section \<open>Lemmas on the forest\<close>

lemma by_key_keys: "(k, g) \<in> set (by_key groups) \<Longrightarrow> k = pkgKeyFor g \<and> g \<in> set groups"
proof -
  have "(k, g) \<in> set (foldl (\<lambda>m g. AList.update (pkgKeyFor g) g m) m groups) \<Longrightarrow>
      (k, g) \<in> set m \<or> k = pkgKeyFor g \<and> g \<in> set groups" for m
  proof (induction groups arbitrary: m)
    case (Cons a groups)
    have "(k, g) \<in> set (AList.update (pkgKeyFor a) a m) \<Longrightarrow> (k, g) \<in> set m \<or> (k, g) = (pkgKeyFor a, a)" for m
      by (induction m) (auto split: if_splits)
    then show ?case using Cons by fastforce
  qed simp
  then show "(k, g) \<in> set (by_key groups) \<Longrightarrow> k = pkgKeyFor g \<and> g \<in> set groups"
    unfolding by_key_def by fastforce
qed

lemma by_key_fst: "fst ` set (by_key groups) = pkgKeyFor ` set groups"
proof -
  have "fst ` set (foldl (\<lambda>m g. AList.update (pkgKeyFor g) g m) m groups) = fst ` set m \<union> pkgKeyFor ` set groups" for m
    by (induction groups arbitrary: m) (auto simp: dom_update)
  then show ?thesis by (simp add: by_key_def)
qed

lemma by_key_distinct: "distinct (map fst (by_key groups))"
proof -
  have "distinct (map fst m) \<Longrightarrow> distinct (map fst (foldl (\<lambda>m g. AList.update (pkgKeyFor g) g m) m groups))" for m
    by (induction groups arbitrary: m) (auto simp: distinct_update)
  then show ?thesis by (simp add: by_key_def)
qed

lemma by_key_map: "map fst (by_key groups) = map pkgKeyFor (map snd (by_key groups))"
  using by_key_keys by fastforce

lemma parent_key_shorter: "parent_key g = Some p \<Longrightarrow> length p < length (pkgKeyFor g)"
proof -
  assume "parent_key g = Some p"
  then obtain i where i: "last_index_of ''--dep--'' (effective_name g) = Some i"
      "p = vg_repo g @ ''/'' @ take i (effective_name g)"
    by (auto simp: parent_key_def Let_def)
  have "drop i (effective_name g) \<noteq> []"
    using last_index_of_Some [OF i(1)] by (auto simp: starts_with_iff)
  then show ?thesis using i(2) by (simp add: pkgKeyFor_def)
qed

text \<open>The two loops: the roots, and the children of a node.\<close>

definition parent_in :: "string set \<Rightarrow> volume_group \<Rightarrow> string option" where
  "parent_in K g = (case parent_key g of Some p \<Rightarrow> if p \<in> K then Some p else None | None \<Rightarrow> None)"

lemma attach_loop:
  "foldl (attach K) (rs, kids) gs
   = (rs @ filter (\<lambda>g. parent_in K g = None) gs,
      \<lambda>k. kids k @ filter (\<lambda>g. parent_in K g = Some k) gs)"
proof (induction gs arbitrary: rs kids)
  case (Cons g gs)
  then show ?case
    by (auto simp: attach_def parent_in_def fun_eq_iff split: option.splits)
qed simp

text \<open>
  The nodes at depth \<open>i\<close> below the roots; \<open>kids\<close> are the \<open>children\<close> arrays, in any order.
\<close>

fun level :: "volume_group list \<Rightarrow> nat \<Rightarrow> volume_group list" where
  "level nodes 0 = filter (\<lambda>g. parent_in (pkgKeyFor ` set nodes) g = None) nodes"
| "level nodes (Suc i) =
     filter (\<lambda>g. \<exists>p\<in>set (level nodes i). parent_in (pkgKeyFor ` set nodes) g = Some (pkgKeyFor p)) nodes"

definition forest_ok :: "volume_group list \<Rightarrow> (string \<Rightarrow> volume_group list) \<Rightarrow> bool" where
  "forest_ok nodes kids \<longleftrightarrow> distinct (map pkgKeyFor nodes) \<and>
     (\<forall>k. mset (kids k) = mset (filter (\<lambda>g. parent_in (pkgKeyFor ` set nodes) g = Some k) nodes))"

lemma level_nodes: "set (level nodes i) \<subseteq> set nodes"
  by (cases i) auto

lemma level_distinct: "distinct (map pkgKeyFor nodes) \<Longrightarrow> distinct (map pkgKeyFor (level nodes i))"
  by (cases i) (auto simp: distinct_map_filter)

lemma filter_mset_disjoint:
  "(\<And>x. \<not> (P x \<and> Q x)) \<Longrightarrow> filter_mset (\<lambda>x. P x \<or> Q x) M = filter_mset P M + filter_mset Q M"
  by (induction M) auto

lemma kids_of_distinct:
  assumes "forest_ok nodes kids" "distinct (map pkgKeyFor gs)"
  shows "mset (concat (map (\<lambda>g. kids (pkgKeyFor g)) gs))
   = mset (filter (\<lambda>x. \<exists>p\<in>set gs. parent_in (pkgKeyFor ` set nodes) x = Some (pkgKeyFor p)) nodes)"
  using assms(2)
proof (induction gs)
  case (Cons g gs)
  let ?P = "parent_in (pkgKeyFor ` set nodes)"
  have "filter_mset (\<lambda>x. ?P x = Some (pkgKeyFor g) \<or> (\<exists>p\<in>set gs. ?P x = Some (pkgKeyFor p))) (mset nodes)
      = filter_mset (\<lambda>x. ?P x = Some (pkgKeyFor g)) (mset nodes)
        + filter_mset (\<lambda>x. \<exists>p\<in>set gs. ?P x = Some (pkgKeyFor p)) (mset nodes)"
    using Cons.prems by (intro filter_mset_disjoint) (auto simp: image_iff)
  then show ?case using Cons assms(1) by (simp add: forest_ok_def)
qed simp

lemma level_kids:
  assumes "forest_ok nodes kids" "mset gs = mset (level nodes i)"
  shows "mset (concat (map (\<lambda>g. kids (pkgKeyFor g)) gs)) = mset (level nodes (Suc i))"
proof -
  have "distinct (map pkgKeyFor (level nodes i))"
    using assms(1) level_distinct by (simp add: forest_ok_def)
  then show ?thesis
    using kids_of_distinct [OF assms(1), of "level nodes i"]
      sum_mset_concat [OF assms(2), of "\<lambda>g. kids (pkgKeyFor g)"] by simp
qed

lemma grow_levels:
  assumes ok: "forest_ok nodes kids"
  shows "mset gs = mset (level nodes i) \<Longrightarrow>
   mset (concat (map (\<lambda>g. flatten (grow n kids g)) gs)) = mset (concat (map (level nodes) [i..<Suc (i + n)]))"
proof (induction n arbitrary: gs i)
  case 0
  then show ?case by simp
next
  case (Suc n)
  let ?ks = "concat (map (\<lambda>g. kids (pkgKeyFor g)) gs)"
  have "mset (concat (map (\<lambda>g. flatten (grow (Suc n) kids g)) gs))
      = mset gs + mset (concat (map (\<lambda>g. flatten (grow n kids g)) ?ks))"
    by (induction gs) (simp_all add: o_def)
  also have "\<dots> = mset (level nodes i) + mset (concat (map (level nodes) [Suc i..<Suc (Suc i + n)]))"
    unfolding Suc.IH [OF level_kids [OF ok Suc.prems]] Suc.prems ..
  also have "\<dots> = mset (concat (map (level nodes) (i # [Suc i..<Suc (Suc i + n)])))" by (simp del: upt_Suc level.simps)
  also have "i # [Suc i..<Suc (Suc i + n)] = [i..<Suc (i + Suc n)]" by (simp add: upt_conv_Cons del: upt_Suc)
  finally show ?case .
qed

text \<open>Every node is at one level, and not deeper than its key is long.\<close>

lemma level_exists:
  assumes "g \<in> set nodes"
  shows "\<exists>i \<le> length (pkgKeyFor g). g \<in> set (level nodes i)"
  using assms
proof (induction "length (pkgKeyFor g)" arbitrary: g rule: less_induct)
  case less
  show ?case
  proof (cases "parent_in (pkgKeyFor ` set nodes) g")
    case None
    then show ?thesis using less.prems by (intro exI [of _ 0]) simp
  next
    case (Some k)
    then obtain p where p: "p \<in> set nodes" "k = pkgKeyFor p" "parent_key g = Some k"
      by (auto simp: parent_in_def split: option.splits if_splits)
    then obtain i where "i \<le> length (pkgKeyFor p)" "p \<in> set (level nodes i)"
      using less.hyps parent_key_shorter by blast
    then show ?thesis
      using less.prems Some p parent_key_shorter [OF p(3)] by (intro exI [of _ "Suc i"]) auto
  qed
qed

lemma level_unique:
  assumes d: "distinct (map pkgKeyFor nodes)"
  shows "g \<in> set (level nodes i) \<Longrightarrow> g \<in> set (level nodes j) \<Longrightarrow> i = j"
proof (induction i arbitrary: g j)
  case 0
  then show ?case by (cases j) auto
next
  case (Suc i)
  then obtain p where p: "p \<in> set (level nodes i)" "parent_in (pkgKeyFor ` set nodes) g = Some (pkgKeyFor p)" by auto
  with Suc.prems obtain j' q where q: "j = Suc j'" "q \<in> set (level nodes j')" "pkgKeyFor q = pkgKeyFor p"
    by (cases j) auto
  have "q = p"
    using subsetD [OF level_nodes q(2)] subsetD [OF level_nodes p(1)] q(3) d by (auto simp: distinct_map inj_on_def)
  then show ?case using Suc.IH [OF p(1)] q by simp
qed

lemma levels_distinct:
  assumes d: "distinct (map pkgKeyFor nodes)"
  shows "distinct (concat (map (level nodes) [i..<j]))"
proof (induction j)
  case (Suc j)
  have "set (concat (map (level nodes) [i..<j])) \<inter> set (level nodes j) = {}"
    using level_unique [OF d] by fastforce
  moreover have "distinct (level nodes j)" using level_distinct [OF d] by (auto simp: distinct_map)
  ultimately show ?case using Suc by (simp add: upt_Suc)
qed simp

lemma levels_all:
  assumes "distinct (map pkgKeyFor nodes)" "\<And>g. g \<in> set nodes \<Longrightarrow> length (pkgKeyFor g) \<le> n"
  shows "mset (concat (map (level nodes) [0..<Suc n])) = mset nodes"
proof -
  have "set (concat (map (level nodes) [0..<Suc n])) = set nodes"
    using level_nodes level_exists assms(2) by (fastforce simp: less_Suc_eq_le simp del: upt_Suc)
  then show ?thesis
    using set_eq_iff_mset_eq_distinct [OF levels_distinct [OF assms(1)]] assms(1) distinct_map by blast
qed

definition tree_nodes :: "volume_group list \<Rightarrow> volume_group list" where
  "tree_nodes groups = map snd (by_key groups)"

definition tree_kids :: "(string \<Rightarrow> string \<Rightarrow> bool) \<Rightarrow> volume_group list \<Rightarrow> string \<Rightarrow> volume_group list" where
  "tree_kids le groups k = sort_by (\<lambda>a b. le (vg_package a) (vg_package b))
     (filter (\<lambda>g. parent_in (pkgKeyFor ` set groups) g = Some k) (tree_nodes groups))"

lemma tree_nodes_keys:
  "distinct (map pkgKeyFor (tree_nodes groups))" "pkgKeyFor ` set (tree_nodes groups) = pkgKeyFor ` set groups"
  "set (tree_nodes groups) \<subseteq> set groups"
proof -
  show "distinct (map pkgKeyFor (tree_nodes groups))"
    unfolding tree_nodes_def by_key_map [symmetric] by (rule by_key_distinct)
  have "set (map pkgKeyFor (tree_nodes groups)) = set (map fst (by_key groups))"
    unfolding tree_nodes_def by_key_map ..
  then show "pkgKeyFor ` set (tree_nodes groups) = pkgKeyFor ` set groups" using by_key_fst by simp
  show "set (tree_nodes groups) \<subseteq> set groups" using by_key_keys by (auto simp: tree_nodes_def)
qed

lemma tree_forest_ok: "forest_ok (tree_nodes groups) (tree_kids le groups)"
  using tree_nodes_keys [of groups] by (simp add: forest_ok_def tree_kids_def)

lemma buildPackageTree_grow:
  obtains n roots where
    "buildPackageTree le groups = map (grow (Suc n) (tree_kids le groups)) roots"
    "mset roots = mset (level (tree_nodes groups) 0)"
    "\<And>g. g \<in> set (tree_nodes groups) \<Longrightarrow> length (pkgKeyFor g) \<le> n"
proof
  let ?n = "foldr (\<lambda>(k, _) n. max (length k) n) (by_key groups) 0"
  let ?roots = "sort_by (\<lambda>a b. le (vg_package a) (vg_package b)) (level (tree_nodes groups) 0)"
  have K: "set (map fst (by_key groups)) = pkgKeyFor ` set groups" using by_key_fst by simp
  show "buildPackageTree le groups = map (grow (Suc ?n) (tree_kids le groups)) ?roots"
    unfolding buildPackageTree_def Let_def K attach_loop tree_kids_def tree_nodes_def [symmetric]
    by (simp add: tree_nodes_keys(2))
  show "mset ?roots = mset (level (tree_nodes groups) 0)" by (simp del: level.simps)
  have "(k, g) \<in> set m \<Longrightarrow> length k \<le> foldr (\<lambda>(k, _) n. max (length k) n) m 0" for k and g :: volume_group and m
    by (induction m) auto
  then show "g \<in> set (tree_nodes groups) \<Longrightarrow> length (pkgKeyFor g) \<le> ?n" for g
    using by_key_keys by (fastforce simp: tree_nodes_def)
qed

lemma tree_shows_nodes: "mset (concat (map flatten (buildPackageTree le groups))) = mset (tree_nodes groups)"
proof -
  obtain n roots where t: "buildPackageTree le groups = map (grow (Suc n) (tree_kids le groups)) roots"
      "mset roots = mset (level (tree_nodes groups) 0)"
      "\<And>g. g \<in> set (tree_nodes groups) \<Longrightarrow> length (pkgKeyFor g) \<le> n"
    by (rule buildPackageTree_grow [of le groups]) blast
  have "mset (concat (map flatten (buildPackageTree le groups)))
      = mset (concat (map (level (tree_nodes groups)) [0..<Suc (Suc n)]))"
    using grow_levels [OF tree_forest_ok t(2), where n = "Suc n"] by (simp add: t(1) o_def del: upt_Suc grow.simps)
  also have "\<dots> = mset (tree_nodes groups)"
    using t(3) by (intro levels_all tree_nodes_keys(1)) (simp add: le_SucI)
  finally show ?thesis .
qed

lemma grow_children:
  "t \<in> set (subnodes (grow n kids g)) \<Longrightarrow> c \<in> set (node_children t) \<Longrightarrow>
   node_group c \<in> set (kids (pkgKeyFor (node_group t)))"
proof (induction n kids g rule: grow.induct)
  case (2 n kids g)
  have "node_group (grow n kids k) = k" for k by (cases n) auto
  then show ?case using 2 by fastforce
qed simp

lemma countDescendants_flatten: "length (flatten t) = Suc (countDescendants t)"
proof (induction t)
  case (VolumeNode g cs)
  then have "length (concat (map flatten cs)) = length cs + sum_list (map countDescendants cs)"
    by (induction cs) auto
  then show ?case by simp
qed

section \<open>Theorems on the forest\<close>

text \<open>C10: no package volumes are hidden: the forest shows every package of the server's list
  exactly once, under its repository and name, also when its parent is missing.\<close>

theorem volume_tree_complete:
  "distinct (map pkgKeyFor (concat (map flatten (buildPackageTree le groups)))) \<and>
   set (map pkgKeyFor (concat (map flatten (buildPackageTree le groups)))) = set (map pkgKeyFor groups) \<and>
   set (concat (map flatten (buildPackageTree le groups))) \<subseteq> set groups"
proof -
  have m: "mset (map pkgKeyFor (concat (map flatten (buildPackageTree le groups)))) = mset (map pkgKeyFor (tree_nodes groups))"
    using tree_shows_nodes by (metis mset_map)
  have "set (concat (map flatten (buildPackageTree le groups))) = set (tree_nodes groups)"
    using tree_shows_nodes mset_eq_setD by blast
  then show ?thesis
    using tree_nodes_keys [of groups] mset_eq_imp_distinct_iff [OF m] by (metis set_map)
qed

text \<open>A package is shown below another exactly when it is one of its dependencies: below
  each node are packages whose name extends its own by one \<open>--dep--\<close> step, a package with a
  listed parent is no root, and the number of sub-packages shown on a row is the number of
  packages below it.\<close>

theorem volume_tree_nested:
  "list_all (\<lambda>t. list_all (\<lambda>c. parent_key (node_group c) = Some (pkgKeyFor (node_group t))) (node_children t) \<and>
       countDescendants t + 1 = length (flatten t))
     (concat (map subnodes (buildPackageTree le groups))) \<and>
   list_all (\<lambda>t. case parent_key (node_group t) of None \<Rightarrow> True | Some p \<Rightarrow> p \<notin> pkgKeyFor ` set groups)
     (buildPackageTree le groups)"
proof (intro conjI)
  obtain n roots where t: "buildPackageTree le groups = map (grow (Suc n) (tree_kids le groups)) roots"
      "mset roots = mset (level (tree_nodes groups) 0)"
    by (rule buildPackageTree_grow [of le groups]) blast
  have "parent_key (node_group c) = Some (pkgKeyFor (node_group t))"
    if "t \<in> set (subnodes (grow (Suc n) (tree_kids le groups) g))" "c \<in> set (node_children t)" for t c g
    using grow_children [OF that] by (auto simp: tree_kids_def parent_in_def split: option.splits if_splits)
  then show "list_all (\<lambda>t. list_all (\<lambda>c. parent_key (node_group c) = Some (pkgKeyFor (node_group t))) (node_children t) \<and>
       countDescendants t + 1 = length (flatten t))
     (concat (map subnodes (buildPackageTree le groups)))"
    unfolding t(1) by (auto simp: list_all_iff countDescendants_flatten simp del: grow.simps)
  have "parent_in (pkgKeyFor ` set groups) g = None" if "g \<in> set roots" for g
    using that mset_eq_setD [OF t(2)] tree_nodes_keys(2) by auto
  then show "list_all (\<lambda>t. case parent_key (node_group t) of None \<Rightarrow> True | Some p \<Rightarrow> p \<notin> pkgKeyFor ` set groups)
     (buildPackageTree le groups)"
    unfolding t(1) by (fastforce simp: list_all_iff parent_in_def split: option.splits)
qed

section \<open>Theorems on versions\<close>

definition version_of :: "volume \<Rightarrow> string" where
  "version_of vol = fst (splitVolumeName (vo_name vol))"

definition shown_volume :: "volume \<Rightarrow> volume \<times> string" where
  "shown_volume vol = (vol, let rest = snd (splitVolumeName (vo_name vol)) in if rest = [] then vo_name vol else rest)"

lemma map_of_push:
  "map_of (push_volume m vol)
   = (map_of m)(version_of vol \<mapsto> (case map_of m (version_of vol) of None \<Rightarrow> [] | Some vs \<Rightarrow> vs) @ [shown_volume vol])"
  by (auto simp: push_volume_def Let_def case_prod_beta update_conv' version_of_def shown_volume_def fun_eq_iff
      split: option.split)

lemma distinct_push: "distinct (map fst m) \<Longrightarrow> distinct (map fst (push_volume m vol))"
  by (auto simp: push_volume_def Let_def case_prod_beta distinct_update)

lemma map_of_versions:
  "map_of (foldl push_volume m vs) v
   = (if filter (\<lambda>vol. version_of vol = v) vs = [] then map_of m v
      else Some ((case map_of m v of None \<Rightarrow> [] | Some xs \<Rightarrow> xs) @ map shown_volume (filter (\<lambda>vol. version_of vol = v) vs)))"
  by (induction vs arbitrary: m) (auto simp: map_of_push split: option.split)

lemma distinct_versions: "distinct (map fst m) \<Longrightarrow> distinct (map fst (foldl push_volume m vs))"
  by (induction vs arbitrary: m) (simp_all add: distinct_push)

lemma set_versions: "set (map fst (foldl push_volume [] vs)) = version_of ` set vs"
proof -
  have "v \<in> dom (map_of (foldl push_volume [] vs)) \<longleftrightarrow> v \<in> version_of ` set vs" for v
    unfolding domIff map_of_versions by (auto simp: filter_empty_conv)
  then show ?thesis by (simp add: dom_map_of_conv_image_fst set_eq_iff)
qed

lemma mset_by_class:
  "distinct ks \<Longrightarrow> f ` set xs \<subseteq> set ks \<Longrightarrow>
   mset (concat (map (\<lambda>k. filter (\<lambda>x. f x = k) xs) ks)) = mset xs"
proof (induction xs)
  case (Cons x xs)
  have "mset (concat (map (\<lambda>k. filter (\<lambda>y. f y = k) (x # xs)) ks))
      = mset (concat (map (\<lambda>k. filter (\<lambda>y. f y = k) xs) ks)) + (if f x \<in> set ks then {#x#} else {#})"
    using Cons.prems(1) by (induction ks) auto
  then show ?case using Cons by simp
qed (induction ks, simp_all)

text \<open>Grouping by version loses no volume: the versions come sorted and once each, under
  each version stand exactly the volumes of its directory, with the display name that is
  left of theirs, and all the groups together are the volumes of the package.\<close>

theorem volumes_by_version:
  "sorted (map fst (groupByVersion le volumes)) \<and> distinct (map fst (groupByVersion le volumes)) \<and>
   list_all (\<lambda>(version, vs). vs \<noteq> [] \<and>
       mset vs = mset (map shown_volume (filter (\<lambda>vol. version_of vol = version) volumes)))
     (groupByVersion le volumes) \<and>
   mset (concat (map (map fst \<circ> snd) (groupByVersion le volumes))) = mset volumes"
proof -
  let ?by = "foldl push_volume [] volumes"
  let ?ks = "sort (map fst ?by)"
  let ?in = "\<lambda>v. filter (\<lambda>vol. version_of vol = v) volumes"
  have ks: "set ?ks = version_of ` set volumes" "distinct ?ks"
    using set_versions distinct_versions [of "[]" volumes] by simp_all
  have look: "the (map_of ?by v) = map shown_volume (?in v)" if "v \<in> set ?ks" for v
    using that unfolding ks(1) map_of_versions by (auto simp: filter_empty_conv)
  have fst_map: "map fst (groupByVersion le volumes) = ?ks"
    by (simp add: groupByVersion_def Let_def o_def)
  have groups: "list_all (\<lambda>(version, vs). vs \<noteq> [] \<and> mset vs = mset (map shown_volume (?in version))) (groupByVersion le volumes)"
  proof -
    have ne: "?in v \<noteq> []" if "v \<in> set ?ks" for v using that unfolding ks(1) by (auto simp: filter_empty_conv)
    have "mset (sort_by le' (the (map_of ?by v))) = mset (map shown_volume (?in v))" if "v \<in> set ?ks" for v le'
      using look [OF that] by simp
    moreover from this have "sort_by le' (the (map_of ?by v)) \<noteq> []" if "v \<in> set ?ks" for v le'
      using that ne [OF that] by (metis map_is_Nil_conv mset_zero_iff)
    ultimately show ?thesis
      unfolding groupByVersion_def Let_def list_all_iff by (simp add: image_iff del: mset_sort_by mset_map)
  qed
  have "mset (concat (map (map fst \<circ> snd) (groupByVersion le volumes))) = mset (concat (map ?in ?ks))"
  proof -
    have "mset (map fst (sort_by le' (the (map_of ?by v)))) = mset (?in v)" if "v \<in> set ?ks" for v le'
      using look [OF that] by (simp add: multiset.map_comp o_def shown_volume_def)
    then have "map (mset \<circ> (map fst \<circ> snd)) (groupByVersion le volumes) = map (mset \<circ> ?in) ?ks"
      by (simp add: groupByVersion_def Let_def)
    then show ?thesis by (simp add: mset_concat)
  qed
  also have "\<dots> = mset volumes" using ks by (intro mset_by_class) simp_all
  finally show ?thesis using fst_map ks(2) groups by simp
qed

end
