(* ===== verification/AccountPages.thy ===== *)
theory AccountPages
  imports PageEffects ClientAccount ClientNetwork "HOL-Library.Multiset" "HOL-Library.List_Lexorder"
    "HOL-Library.Char_ord"
begin

text \<open>
  The pages about accounts: signing in and out (\<^verbatim>\<open>routes/Login.jsx\<close>, \<^verbatim>\<open>routes/Register.jsx\<close>,
  \<^verbatim>\<open>routes/Logout.jsx\<close>), creating an account (\<^verbatim>\<open>routes/CreateUser.jsx\<close>) and managing
  them (\<^verbatim>\<open>routes/UserManagement.jsx\<close>).  What a form holds is an argument of its handler;
  an error shown in the page or as a toast is named by its message key.
\<close>

section \<open>The pages\<close>

record account_row =
  ar_username :: string
  ar_disabled :: bool
  ar_grants :: "string list"
  ar_networks :: "string list"

record user_form =
  uf_username :: string
  uf_password :: string
  uf_password2 :: string
  uf_email :: string
  uf_phone :: string
  uf_realname :: string
  uf_admin :: bool

record 'w account_page = "'w page" +
  ap_error :: "string option"
  ap_loading :: bool
  ap_ready :: bool
  ap_offline :: bool
  ap_visited :: "string list"
  ap_grants :: "string list"
  ap_selected :: "string list"
  ap_networks :: "json list"
  ap_edit :: "account_row option"
  ap_statusConfirm :: "account_row option"
  ap_adminCount :: json

type_synonym 'w account_handler = "('w account_page, js_error, unit) eff"

definition go_to :: "string \<Rightarrow> 'w account_handler" where
  "go_to route = page_set (\<lambda>pg. pg\<lparr>ap_visited := ap_visited pg @ [route]\<rparr>)"

definition update_storage :: "(storage \<Rightarrow> storage) \<Rightarrow> 'w account_handler" where
  "update_storage f = page_set (\<lambda>pg. pg\<lparr>pg_storage := f (pg_storage pg)\<rparr>)"

definition set_loading :: "bool \<Rightarrow> 'w account_handler" where
  "set_loading b = page_set (\<lambda>pg. pg\<lparr>ap_loading := b\<rparr>)"

text \<open>\<open>err.message || fallback\<close>\<close>

definition message_or :: "'w env \<Rightarrow> string \<Rightarrow> js_error \<Rightarrow> json" where
  "message_or env fallback err =
     json_or (JStr (case err of ApiErr e \<Rightarrow> ae_message e | NetworkErr m \<Rightarrow> m | PlainErr m \<Rightarrow> m | other \<Rightarrow> en_message env other))
       (JStr fallback)"

text \<open>A property read of an answer, which throws on \<open>null\<close> and \<open>undefined\<close>.\<close>

definition read_prop :: "json \<Rightarrow> string \<Rightarrow> ('w, js_error, json) eff" where
  "read_prop v k = (case js_prop v k of None \<Rightarrow> eff_throw TypeErr | Some x \<Rightarrow> eff_return x)"

section \<open>Signing in and out\<close>

text \<open>The effects of the login page when it opens.\<close>

definition expiry_shown :: "'w account_handler" where
  "expiry_shown =
     eff_bind (page_read (\<lambda>pg. fst (getAndClearSessionExpired (pg_storage pg)))) (\<lambda>expired.
     eff_bind (update_storage (\<lambda>st. snd (getAndClearSessionExpired st))) (\<lambda>_.
     if expired then show_toast (Info ''login.session_expired_update'') else eff_return ()))"

definition pingCheck :: "'w env \<Rightarrow> 'w account_handler" where
  "pingCheck env =
     eff_catch
       (eff_bind (api (\<lambda>c. ping (en_net env) c)) (\<lambda>resp.
        eff_bind (page_set (\<lambda>pg. pg\<lparr>ap_offline := False\<rparr>)) (\<lambda>_.
        eff_bind (read_prop resp ''needs_setup'') (\<lambda>needs_setup.
        if truthy needs_setup then go_to ''/register'' else eff_return ()))))
       (\<lambda>_. page_set (\<lambda>pg. pg\<lparr>ap_offline := True\<rparr>))"

definition url_token_checked :: "'w env \<Rightarrow> string \<Rightarrow> 'w account_handler" where
  "url_token_checked env urlToken =
     eff_seq (update_storage (setToken_auth urlToken))
       (eff_catch
         (eff_bind (api (\<lambda>c. sessionUsername (en_net env) c urlToken)) (\<lambda>username.
          block [update_storage (setAccount (JObj [(''username'', username), (''admin'', JBool True)])),
                 go_to ''/dashboard'']))
         (\<lambda>_. eff_return ()))"

definition token_checked :: "'w env \<Rightarrow> string \<Rightarrow> 'w account_handler" where
  "token_checked env tok =
     eff_catch (eff_bind (api (\<lambda>c. sessionUsername (en_net env) c tok)) (\<lambda>_. go_to ''/dashboard''))
       (\<lambda>_. eff_return ())"

definition login_opened :: "'w env \<Rightarrow> string option \<Rightarrow> 'w account_handler" where
  "login_opened env urlToken =
     (if given urlToken then url_token_checked env (the urlToken)
      else eff_bind (page_read (\<lambda>pg. getToken (pg_storage pg))) (\<lambda>tok.
           block [if given tok then token_checked env (the tok) else eff_return (),
                  pingCheck env]))"

definition session_of :: "json \<Rightarrow> 'w account_handler" where
  "session_of resp =
     eff_bind (read_prop resp ''token'') (\<lambda>tok.
     eff_bind (update_storage (setToken_auth (js_string tok))) (\<lambda>_.
     eff_bind (read_prop resp ''account'') (\<lambda>account.
     block [update_storage (setAccount account), go_to ''/dashboard''])))"

definition handleLogin :: "'w env \<Rightarrow> string \<Rightarrow> string \<Rightarrow> 'w account_handler" where
  "handleLogin env username password =
     block
       [page_set (\<lambda>pg. pg\<lparr>ap_error := None\<rparr>),
        set_loading True,
        eff_finally
          (eff_catch
            (eff_bind (api (\<lambda>c. authenticate (en_net env) c username password)) session_of)
            (\<lambda>_. page_set (\<lambda>pg. pg\<lparr>ap_error := Some ''login.error_invalid_credentials''\<rparr>)))
          (set_loading False)]"

definition logout_opened :: "'w account_handler" where
  "logout_opened = block [update_storage clearToken, go_to ''/'']"

text \<open>Creating the first account.\<close>

definition register_opened :: "'w env \<Rightarrow> 'w account_handler" where
  "register_opened env =
     eff_catch
       (eff_bind (api (\<lambda>c. ping (en_net env) c)) (\<lambda>resp.
        eff_bind (read_prop resp ''needs_setup'') (\<lambda>needs_setup.
        if truthy needs_setup then page_set (\<lambda>pg. pg\<lparr>ap_ready := True\<rparr>) else go_to ''/'')))
       (\<lambda>_. eff_return ())"

definition form_error :: "string \<Rightarrow> 'w account_handler" where
  "form_error key = page_set (\<lambda>pg. pg\<lparr>ap_error := Some key\<rparr>)"

definition handleRegister :: "'w env \<Rightarrow> user_form \<Rightarrow> 'w account_handler" where
  "handleRegister env form =
     eff_seq (page_set (\<lambda>pg. pg\<lparr>ap_error := None\<rparr>))
       (if js_length (uf_password form) < 8 then form_error ''register.error_password_min_length''
        else if uf_password form \<noteq> uf_password2 form then form_error ''register.error_passwords_mismatch''
        else block
          [set_loading True,
           eff_finally
             (eff_catch
               (eff_bind (api (\<lambda>c. createAccount (en_net env) c (uf_username form) (uf_password form)
                    (uf_email form) (uf_phone form) (uf_realname form) True [] [])) (\<lambda>_.
                eff_bind (api (\<lambda>c. authenticate (en_net env) c (uf_username form) (uf_password form))) session_of))
               (\<lambda>err. show_toast (Failure (message_or env ''register.error_create_failed'' err))))
             (set_loading False)])"

section \<open>Creating an account\<close>

definition load_scopes :: "'w env \<Rightarrow> 'w account_handler" where
  "load_scopes env =
     eff_catch
       (eff_bind (api (\<lambda>c. listNetworks (en_net env) c)) (\<lambda>nets.
        page_set (\<lambda>pg. pg\<lparr>ap_networks :=
          filter (\<lambda>n. js_opt_prop n ''name'' \<noteq> JStr ''home'') (elements (json_or nets (JArr [])))\<rparr>)))
       (\<lambda>_. eff_return ())"

definition toggle_name :: "string \<Rightarrow> string list \<Rightarrow> string list" where
  "toggle_name name prev = (if name \<in> set prev then filter (\<lambda>n. n \<noteq> name) prev else prev @ [name])"

definition toggleNetwork :: "string \<Rightarrow> 'w account_handler" where
  "toggleNetwork name = page_set (\<lambda>pg. pg\<lparr>ap_selected := toggle_name name (ap_selected pg)\<rparr>)"

definition toggleGrant :: "string \<Rightarrow> 'w account_handler" where
  "toggleGrant name = page_set (\<lambda>pg. pg\<lparr>ap_grants := toggle_name name (ap_grants pg)\<rparr>)"



section \<open>Managing accounts\<close>

definition sameNetworks :: "string list \<Rightarrow> string list \<Rightarrow> bool" where
  "sameNetworks a b =
     (if length a \<noteq> length b then False
      else list_all (\<lambda>(n, m). n = m) (zip (sort a) (sort b)))"

definition viewerIsAdmin :: "storage \<Rightarrow> bool" where
  "viewerIsAdmin st = truthy (js_opt_prop (getAccount st) ''admin'')"

definition openEdit :: "account_row \<Rightarrow> 'w account_handler" where
  "openEdit row = page_set (\<lambda>pg. pg\<lparr>ap_grants := ar_grants row, ap_selected := ar_networks row, ap_edit := Some row\<rparr>)"

definition update_error :: "user_form \<Rightarrow> string list \<Rightarrow> string list \<Rightarrow> string option" where
  "update_error form editGrants editNetworks =
     (if uf_password form \<noteq> [] \<and> js_length (uf_password form) < 8 then Some ''users.error_password_min_length''
      else if uf_password form \<noteq> [] \<and> uf_password form \<noteq> uf_password2 form then Some ''users.error_passwords_mismatch''
      else if editGrants \<noteq> [] \<and> editNetworks = [] then Some ''users.error_networks_required''
      else None)"

definition text_field :: "string \<Rightarrow> string \<Rightarrow> json obj \<Rightarrow> json obj" where
  "text_field k v ob = (if v \<noteq> [] then obj_set ob k (JStr v) else ob)"

definition update_fields :: "bool \<Rightarrow> user_form \<Rightarrow> string list \<Rightarrow> string list \<Rightarrow> account_row \<Rightarrow> json obj" where
  "update_fields admin form editGrants editNetworks row =
     (let texts = text_field ''real_name'' (uf_realname form)
                    (text_field ''phone'' (uf_phone form)
                      (text_field ''email'' (uf_email form)
                        (text_field ''password'' (uf_password form) [])));
          nextNetworks = (if editGrants \<noteq> [] then editNetworks else []);
          granted = (if sameNetworks editGrants (ar_grants row) then texts
                     else obj_set texts ''grants'' (str_list editGrants))
      in if \<not> admin then texts
         else if sameNetworks nextNetworks (ar_networks row) then granted
         else obj_set granted ''networks'' (str_list nextNetworks))"

definition handleUpdate :: "'w env \<Rightarrow> user_form \<Rightarrow> account_row \<Rightarrow> 'w account_handler" where
  "handleUpdate env form editDialog =
     eff_bind (page_read (\<lambda>pg. (ap_grants pg, ap_selected pg, viewerIsAdmin (pg_storage pg))))
       (\<lambda>(editGrants, editNetworks, admin).
       case update_error form editGrants editNetworks of
         Some key \<Rightarrow> show_toast (FailureKey key)
       | None \<Rightarrow>
           eff_catch
             (eff_bind (api (\<lambda>c. updateAccount (en_net env) c (ar_username editDialog)
                  (JObj (update_fields admin form editGrants editNetworks editDialog)))) (\<lambda>_.
              block [show_toast (Success ''users.toast_updated''), page_set (\<lambda>pg. pg\<lparr>ap_edit := None\<rparr>), doRefresh]))
             (toast_error env))"

definition handleStatusToggle :: "'w env \<Rightarrow> account_row \<Rightarrow> 'w account_handler" where
  "handleStatusToggle env statusConfirm =
     eff_catch
       (block
         [if ar_disabled statusConfirm
          then eff_seq (api (\<lambda>c. enableAccount (en_net env) c (ar_username statusConfirm)))
                 (show_toast (Success ''users.toast_activated''))
          else eff_seq (api (\<lambda>c. disableAccount (en_net env) c (ar_username statusConfirm)))
                 (show_toast (Success ''users.toast_deactivated'')),
          page_set (\<lambda>pg. pg\<lparr>ap_statusConfirm := None\<rparr>),
          doRefresh])
       (\<lambda>err. block [toast_error env err, page_set (\<lambda>pg. pg\<lparr>ap_statusConfirm := None\<rparr>)])"

definition count_admins :: "'w env \<Rightarrow> 'w account_handler" where
  "count_admins env =
     eff_catch
       (eff_bind (api (\<lambda>c. ping (en_net env) c)) (\<lambda>r.
        eff_bind (read_prop r ''admins'') (\<lambda>admins. page_set (\<lambda>pg. pg\<lparr>ap_adminCount := admins\<rparr>))))
       (\<lambda>_. eff_return ())"

section \<open>Lemmas\<close>

lemma sameNetworks_iff: "sameNetworks a b \<longleftrightarrow> mset a = mset b"
proof
  assume s: "sameNetworks a b"
  then have "length (sort a) = length (sort b)" by (simp add: sameNetworks_def split: if_splits)
  moreover have "sort a ! i = sort b ! i" if "i < length a" for i
  proof -
    have "(sort a ! i, sort b ! i) \<in> set (zip (sort a) (sort b))"
      using that \<open>length (sort a) = length (sort b)\<close> by (auto simp: set_zip)
    then show ?thesis using s by (auto simp: sameNetworks_def list_all_iff split: if_splits)
  qed
  ultimately have "sort a = sort b" by (simp add: list_eq_iff_nth_eq)
  then show "mset a = mset b" by (metis mset_sort)
next
  assume m: "mset a = mset b"
  have "list_all (\<lambda>(x, y). x = y) (zip zs zs)" for zs :: "string list" by (induction zs) auto
  moreover have "sort a = sort b" using m by (intro properties_for_sort) simp_all
  ultimately show "sameNetworks a b"
    using mset_eq_length [OF m] by (simp add: sameNetworks_def)
qed

lemma text_field_other [simp]: "k \<noteq> l \<Longrightarrow> map_of (text_field k v ob) l = map_of ob l"
  by (simp add: text_field_def)

lemma text_field_same: "map_of (text_field k v ob) k = (if v \<noteq> [] then Some (JStr v) else map_of ob k)"
  by (simp add: text_field_def)

lemma toggle_name_twice: "distinct xs \<Longrightarrow> set (toggle_name n (toggle_name n xs)) = set xs \<and> distinct (toggle_name n xs)"
  by (auto simp: toggle_name_def)

lemma wp_read_prop [wp_simps]:
  "wp (read_prop v k) Q s = (case js_prop v k of None \<Rightarrow> Q (Inl TypeErr) s | Some x \<Rightarrow> Q (Inr x) s)"
  by (simp add: read_prop_def wp_simps split: option.split)

lemma wp_update_storage [wp_simps]: "wp (update_storage f) Q s = Q (Inr ()) (s\<lparr>pg_storage := f (pg_storage s)\<rparr>)"
  by (simp add: update_storage_def wp_simps)

lemma wp_go_to [wp_simps]: "wp (go_to route) Q s = Q (Inr ()) (s\<lparr>ap_visited := ap_visited s @ [route]\<rparr>)"
  by (simp add: go_to_def wp_simps)

lemma wp_set_loading [wp_simps]: "wp (set_loading b) Q s = Q (Inr ()) (s\<lparr>ap_loading := b\<rparr>)"
  by (simp add: set_loading_def wp_simps)

text \<open>Taking a session over is all or nothing: an answer with one property has all.\<close>

lemma wp_session_of:
  "wp (session_of resp) Q s =
   (if js_nullish resp then Q (Inl TypeErr) s
    else Q (Inr ()) (s\<lparr>pg_storage := setAccount (js_opt_prop resp ''account'')
                           (setToken_auth (js_string (js_opt_prop resp ''token'')) (pg_storage s)),
                       ap_visited := ap_visited s @ [''/dashboard'']\<rparr>))"
  by (cases resp) (simp_all add: session_of_def wp_simps js_prop_def js_opt_prop_def js_nullish_def)

definition blank_account :: "'w \<Rightarrow> 'w account_page" where
  "blank_account w = \<lparr>pg_net = w, pg_storage = \<lparr>st_local = Map.empty, st_session = Map.empty\<rparr>, pg_client = newClient [],
     pg_log = [], pg_refreshKey = 0, ap_error = None, ap_loading = False, ap_ready = False, ap_offline = False,
     ap_visited = [], ap_grants = [], ap_selected = [], ap_networks = [], ap_edit = None, ap_statusConfirm = None,
     ap_adminCount = JNull\<rparr>"

section \<open>Theorems\<close>

text \<open>Signing in is all or nothing: whatever the server answers, the form is usable again;
  either the token and the account it sent are stored and the dashboard is opened, or the
  error is shown and neither the stored session nor the page changes.\<close>

theorem login_all_or_nothing:
  "wp (handleLogin env username password) (\<lambda>r pg'. r = Inr () \<and> \<not> ap_loading pg' \<and>
     (ap_error pg' = None \<and> ap_visited pg' = ap_visited pg @ [''/dashboard''] \<and>
        (\<exists>resp. pg_storage pg' = setAccount (js_opt_prop resp ''account'')
           (setToken_auth (js_string (js_opt_prop resp ''token'')) (pg_storage pg))) \<or>
      ap_error pg' = Some ''login.error_invalid_credentials'' \<and> ap_visited pg' = ap_visited pg \<and>
        pg_storage pg' = pg_storage pg)) pg"
  unfolding handleLogin_def wp_block wp_seq wp_set wp_set_loading wp_finally wp_catch wp_bind sum.case
  by (rule wp_api) (auto simp: wp_session_of wp_simps split: sum.split)

text \<open>Registering creates the account first and signs in second: a password that is too
  short or not repeated sends nothing; otherwise the account is asked for, as an
  administrator without grants, at most then the session, and the stored session changes
  only when both were answered.\<close>

definition register_requests :: "'w account_page \<Rightarrow> user_form \<Rightarrow> request list" where
  "register_requests pg form =
     (let c = getClient (pg_storage pg) (pg_client pg)
      in [post_request c ''/account/create''
            (JObj [(''username'', JStr (uf_username form)), (''password'', JStr (uf_password form)),
                   (''email'', JStr (uf_email form)), (''phone'', JStr (uf_phone form)),
                   (''real_name'', JStr (uf_realname form)), (''admin'', JBool True),
                   (''grants'', JArr []), (''networks'', JArr [])]),
          post_request c ''/account/authenticate''
            (JObj [(''username'', JStr (uf_username form)), (''password'', JStr (uf_password form))])])"

definition register_ok :: "user_form \<Rightarrow> bool" where
  "register_ok form \<longleftrightarrow> 8 \<le> js_length (uf_password form) \<and> uf_password2 form = uf_password form"

theorem register_protocol:
  assumes "en_net env = recording a"
  shows "wp (handleRegister env form) (\<lambda>r pg'. r = Inr () \<and>
     (\<exists>n. pg_net pg' = pg_net pg @ take n (register_requests pg form) \<and> (n = 0 \<or> register_ok form) \<and>
        (pg_storage pg' = pg_storage pg \<and> ap_visited pg' = ap_visited pg \<or>
         n = 2 \<and> ap_visited pg' = ap_visited pg @ [''/dashboard'']))) pg"
    (is "wp _ ?Q pg")
proof (cases "register_ok form")
  case False
  then show ?thesis
    by (auto simp: handleRegister_def form_error_def wp_simps register_ok_def intro!: exI [of _ 0])
next
  case True
  have n1: "pg_net pg @ [post_request c ''/account/create'' b] = pg_net pg @ take 1 (register_requests pg form)"
    and n2: "pg_net pg @ [post_request c ''/account/create'' b, post_request c ''/account/authenticate'' b'] =
      pg_net pg @ take 2 (register_requests pg form)"
    if "c = getClient (pg_storage pg) (pg_client pg)"
      "b = JObj [(''username'', JStr (uf_username form)), (''password'', JStr (uf_password form)),
             (''email'', JStr (uf_email form)), (''phone'', JStr (uf_phone form)),
             (''real_name'', JStr (uf_realname form)), (''admin'', JBool True),
             (''grants'', str_list []), (''networks'', str_list [])]"
      "b' = JObj [(''username'', JStr (uf_username form)), (''password'', JStr (uf_password form))]" for b b' c
    using that by (simp_all add: register_requests_def Let_def str_list_def)
  show ?thesis
    using True unfolding register_ok_def handleRegister_def
    apply (simp add: wp_block wp_seq wp_set wp_set_loading wp_finally wp_catch wp_bind createAccount_def assms)
    apply (rule wp_recording_postJSON)
    apply (simp add: wp_bind authenticate_def split: sum.split)
    apply (intro conjI allI impI)
     apply (simp add: wp_simps n1 [OF refl refl refl], blast)
    apply (rule wp_recording_postJSON)
    apply (simp add: wp_session_of wp_simps n2 [OF refl refl refl] split: sum.split)
    apply blast
    done
qed

theorem register_protocol_witness:
  "(let env = \<lparr>en_net = recording (\<lambda>_ _. Inl (NetworkErr ''refused'')), en_message = (\<lambda>_. [])\<rparr>;
        form = \<lparr>uf_username = ''ada'', uf_password = ''short'', uf_password2 = ''short'', uf_email = [], uf_phone = [],
                uf_realname = [], uf_admin = False\<rparr>
    in pg_net (snd (handleRegister env form (blank_account [])))) = []"
proof -
  let ?env = "\<lparr>en_net = recording (\<lambda>_ _. Inl (NetworkErr ''refused'')), en_message = (\<lambda>_. [])\<rparr> :: request list env"
  let ?form = "\<lparr>uf_username = ''ada'', uf_password = ''short'', uf_password2 = ''short'', uf_email = [], uf_phone = [],
     uf_realname = [], uf_admin = False\<rparr>"
  have "\<not> register_ok ?form" by (simp add: register_ok_def js_length_def)
  then show ?thesis
    using register_protocol [of ?env "\<lambda>_ _. Inl (NetworkErr ''refused'')" ?form "blank_account []"]
    by (auto simp: wp_def blank_account_def)
qed



text \<open>An edit sends what changed and no more: the kind and the scope of an account are sent
  by an administrator only, and only when the sets differ from the stored ones, whatever
  the order of the clicks; without grants the scope sent is empty; the administrator flag
  is never sent; and a password only when it was typed.\<close>

theorem edit_sends_changes:
  "let sent = map_of (update_fields admin form editGrants editNetworks row);
       scope = (if editGrants \<noteq> [] then editNetworks else [])
   in sent ''grants'' = (if admin \<and> mset editGrants \<noteq> mset (ar_grants row) then Some (str_list editGrants) else None) \<and>
      sent ''networks'' = (if admin \<and> mset scope \<noteq> mset (ar_networks row) then Some (str_list scope) else None) \<and>
      sent ''admin'' = None \<and> sent ''username'' = None \<and>
      sent ''password'' = (if uf_password form \<noteq> [] then Some (JStr (uf_password form)) else None) \<and>
      sent ''email'' = (if uf_email form \<noteq> [] then Some (JStr (uf_email form)) else None)"
  by (simp add: update_fields_def Let_def sameNetworks_iff text_field_same)

text \<open>A link with a token signs the browser out of the session it held: the token of the link is
  stored before it is checked, and stays when the server rejects it.\<close>

theorem url_token_replaces_session:
  assumes "t \<noteq> []"
  shows "wp (login_opened env (Some t)) (\<lambda>r pg'. r = Inr () \<and> getToken (pg_storage pg') = Some t) pg"
  using assms unfolding login_opened_def url_token_checked_def given_def
  apply (simp add: wp_seq wp_update_storage wp_catch wp_bind)
  apply (rule wp_api)
  apply (simp add: wp_simps getToken_def setToken_auth_def setAccount_def TOKEN_KEY_def ACCOUNT_KEY_def split: sum.split)
  done

end
