(* ===== verification/DnsPage.thy ===== *)
theory DnsPage
  imports StoragePage ClientNetwork "HOL-Library.List_Lexorder" "HOL-Library.Char_ord" "HOL-Library.Multiset"
begin

text \<open>
  The name service page: the records of \<^verbatim>\<open>routes/DNSManagement.jsx\<close>, the blocklist providers
  and local entries of \<^verbatim>\<open>routes/dns/BlocklistsTab.jsx\<close>, the allow list of
  \<^verbatim>\<open>routes/dns/AllowListsTab.jsx\<close> and the published services of
  \<^verbatim>\<open>routes/dns/ServicesTab.jsx\<close>.  Each tab is a component with a state of its own.  What the
  server answers has the shape of its types; a field it leaves out is empty.
\<close>

section \<open>Refusal codes\<close>

definition BUILTIN_REFUSAL_CODES :: "string list" where
  "BUILTIN_REFUSAL_CODES = [''127.255.255.0/24'', ''127.0.1.255'', ''127.0.2.255'', ''127.0.0.1'', ''127.0.0.255'']"

definition REFUSAL_CODES_NONE :: string where "REFUSAL_CODES_NONE = ''none''"

definition refusalMode :: "string list \<Rightarrow> string" where
  "refusalMode codes =
     (if length codes = 1 \<and> to_lower (hd codes) = REFUSAL_CODES_NONE then ''off''
      else if codes = [] then ''builtin''
      else if sort codes = sort BUILTIN_REFUSAL_CODES then ''builtin'' else ''custom'')"

text \<open>\<open>text.split(/[\s,]+/).map(trim).filter(Boolean)\<close>: the runs of other characters.\<close>

definition is_separator :: "char \<Rightarrow> bool" where
  "is_separator c \<longleftrightarrow> is_js_space c \<or> c = CHR '',''"

lemma dropWhile_shorter [termination_simp]: "length (dropWhile P s) < Suc (length s)"
  by (simp add: le_imp_less_Suc length_dropWhile_le)

fun split_codes :: "string \<Rightarrow> string list" where
  "split_codes [] = []"
| "split_codes (c # s) =
     (if is_separator c then split_codes s
      else (c # takeWhile (\<lambda>d. \<not> is_separator d) s) # split_codes (dropWhile (\<lambda>d. \<not> is_separator d) s))"

definition formatRemaining :: "int \<Rightarrow> string" where
  "formatRemaining secs =
     (let round60 = (\<lambda>n. (n + 30) div 60) in
      if secs < 60 then int_str secs @ ''s''
      else if secs < 3600 then int_str (round60 secs) @ ''m''
      else (let h = secs div 3600; m = round60 (secs mod 3600)
            in if m \<noteq> 0 then int_str h @ ''h '' @ int_str m @ ''m'' else int_str h @ ''h''))"

section \<open>Providers\<close>

record provider =
  pv_zone :: string
  pv_enabled :: bool
  pv_refusal_codes :: "string list"
  pv_refusal_cooldown :: int

record dnsbl_config =
  bl_enabled :: bool
  bl_providers :: "provider list"
  bl_refusal_cooldown :: int

text \<open>What a provider is sent as, with the codes it is to name.\<close>

definition wire_provider :: "provider \<Rightarrow> string list \<Rightarrow> json" where
  "wire_provider p codes =
     JObj ([(''zone'', JStr (pv_zone p)), (''enabled'', JBool (pv_enabled p))] @
       (if codes \<noteq> [] then [(''refusal_codes'', str_list codes)] else []) @
       (if pv_refusal_cooldown p \<noteq> 0 then [(''refusal_cooldown_secs'', JNum (pv_refusal_cooldown p))] else []))"

definition toWire :: "provider \<Rightarrow> json" where
  "toWire p =
     wire_provider p (if refusalMode (pv_refusal_codes p) = ''builtin'' then [] else pv_refusal_codes p)"

definition DNSBL_SUGGESTIONS :: "(string \<times> string) list" where
  "DNSBL_SUGGESTIONS =
     [(''dbl.spamhaus.org'', ''Spamhaus DBL''), (''multi.surbl.org'', ''SURBL''), (''black.uribl.com'', ''URIBL''),
      (''dbl.nordspam.com'', ''NordSpam DBL''), (''uribl.spameatingmonkey.net'', ''Spam Eating Monkey'')]"

text \<open>The dialog for the refusals of a provider.\<close>

record refusal_dialog =
  rd_zone :: string
  rd_mode :: string
  rd_codes :: string
  rd_cooldown :: string

definition refusal_opened :: "provider \<Rightarrow> refusal_dialog" where
  "refusal_opened p =
     \<lparr>rd_zone = pv_zone p, rd_mode = refusalMode (pv_refusal_codes p),
      rd_codes = (if refusalMode (pv_refusal_codes p) = ''custom'' then join [newline] (pv_refusal_codes p) else []),
      rd_cooldown = int_str (pv_refusal_cooldown p)\<rparr>"

text \<open>
  The field is a single line: the browser strips line breaks from the value it is given,
  and what is typed is an edit of what it shows.
\<close>

definition field_shows :: "string \<Rightarrow> string" where
  "field_shows s = filter (\<lambda>c. c \<noteq> CHR 0x0A \<and> c \<noteq> CHR 0x0D) s"

definition codes_typed :: "(string \<Rightarrow> string) \<Rightarrow> refusal_dialog \<Rightarrow> refusal_dialog" where
  "codes_typed edit d = d\<lparr>rd_codes := edit (field_shows (rd_codes d))\<rparr>"

definition refusal_submit :: "refusal_dialog \<Rightarrow> (string list \<times> int) option" where
  "refusal_submit d =
     (let nxt = (if rd_mode d = ''builtin'' then [] else if rd_mode d = ''off'' then [REFUSAL_CODES_NONE]
                 else split_codes (rd_codes d))
      in case js_number (rd_cooldown d) of
           Some (JNum secs) \<Rightarrow> if secs < 0 then None else Some (nxt, secs)
         | _ \<Rightarrow> None)"

section \<open>The blocklist tab\<close>

record 'w blocklist_page = "'w page" +
  bk_config :: "dnsbl_config option"
  bk_newZone :: string
  bk_editRefusal :: "provider option"
  bk_addEntry :: bool
  bk_removeEntry :: "string option"

type_synonym 'w blocklist_handler = "('w blocklist_page, js_error, unit) eff"

definition bk_providers :: "('w, 'm) blocklist_page_scheme \<Rightarrow> provider list" where
  "bk_providers pg = (case bk_config pg of None \<Rightarrow> [] | Some cfg \<Rightarrow> bl_providers cfg)"

definition bk_enabled :: "('w, 'm) blocklist_page_scheme \<Rightarrow> bool" where
  "bk_enabled pg = (case bk_config pg of None \<Rightarrow> False | Some cfg \<Rightarrow> bl_enabled cfg)"

definition bk_listCooldown :: "('w, 'm) blocklist_page_scheme \<Rightarrow> int" where
  "bk_listCooldown pg = (case bk_config pg of None \<Rightarrow> 0 | Some cfg \<Rightarrow> bl_refusal_cooldown cfg)"

definition save_blocklist :: "'w env \<Rightarrow> bool \<Rightarrow> provider list \<Rightarrow> 'w blocklist_handler" where
  "save_blocklist env nextEnabled nextProviders =
     eff_bind (page_read bk_listCooldown) (\<lambda>listCooldown.
       eff_catch
         (block
           [api (\<lambda>c. setDNSBLConfig (en_net env) c nextEnabled (JArr (map toWire nextProviders)) (Some listCooldown)),
            doRefresh])
         (toast_error env))"


definition addZone :: "'w env \<Rightarrow> string \<Rightarrow> 'w blocklist_handler" where
  "addZone env zone =
     eff_bind (page_read (\<lambda>pg. (bk_enabled pg, bk_providers pg))) (\<lambda>(enabled, providers).
       let z = to_lower (js_trim zone)
       in if z = [] then eff_return ()
          else if list_ex (\<lambda>p. pv_zone p = z) providers then show_toast (FailureKey ''dns.bl.duplicate_zone'')
          else save_blocklist env enabled
                 (providers @ [\<lparr>pv_zone = z, pv_enabled = True, pv_refusal_codes = [], pv_refusal_cooldown = 0\<rparr>]))"

definition zone_submitted :: "'w env \<Rightarrow> 'w blocklist_handler" where
  "zone_submitted env =
     eff_bind (page_read bk_newZone) (\<lambda>zone.
       eff_seq (addZone env zone) (page_set (\<lambda>pg. pg\<lparr>bk_newZone := []\<rparr>)))"



definition saveRefusal :: "'w env \<Rightarrow> string \<Rightarrow> string list \<times> int \<Rightarrow> 'w blocklist_handler" where
  "saveRefusal env zone nxt =
     eff_seq (page_set (\<lambda>pg. pg\<lparr>bk_editRefusal := None\<rparr>))
       (eff_bind (page_read (\<lambda>pg. (bk_enabled pg, bk_providers pg))) (\<lambda>(enabled, providers).
          save_blocklist env enabled
            (map (\<lambda>p. if pv_zone p = zone then p\<lparr>pv_refusal_codes := fst nxt, pv_refusal_cooldown := snd nxt\<rparr> else p)
               providers)))"

definition refusal_submitted :: "'w env \<Rightarrow> refusal_dialog \<Rightarrow> 'w blocklist_handler" where
  "refusal_submitted env d =
     (case refusal_submit d of
        None \<Rightarrow> show_toast (FailureKey ''dns.bl.refusal_cooldown_invalid'')
      | Some nxt \<Rightarrow> saveRefusal env (rd_zone d) nxt)"

definition unconfigured :: "('w, 'm) blocklist_page_scheme \<Rightarrow> (string \<times> string) list" where
  "unconfigured pg = filter (\<lambda>s. \<not> list_ex (\<lambda>p. pv_zone p = fst s) (bk_providers pg)) DNSBL_SUGGESTIONS"

definition add_local_entry :: "'w env \<Rightarrow> string \<Rightarrow> string \<Rightarrow> 'w blocklist_handler" where
  "add_local_entry env entry_name entry_reason =
     eff_catch
       (block
         [api (\<lambda>c. addLocalRBL (en_net env) c (js_trim entry_name) (js_trim entry_reason)),
          show_toast (Success ''dns.bl.entry_added''),
          page_set (\<lambda>pg. pg\<lparr>bk_addEntry := False\<rparr>),
          doRefresh])
       (toast_error env)"

definition remove_local_entry :: "'w env \<Rightarrow> 'w blocklist_handler" where
  "remove_local_entry env =
     eff_bind (page_read bk_removeEntry) (\<lambda>removeEntry.
       case removeEntry of
         None \<Rightarrow> eff_return ()
       | Some name \<Rightarrow>
           eff_seq (page_set (\<lambda>pg. pg\<lparr>bk_removeEntry := None\<rparr>))
             (eff_catch
               (block
                 [api (\<lambda>c. removeLocalRBL (en_net env) c name),
                  show_toast (Success ''dns.bl.entry_removed''),
                  doRefresh])
               (toast_error env)))"

section \<open>The allow list tab\<close>

record 'w allowlist_page = "'w page" +
  al_addEntry :: bool
  al_removeEntry :: "string option"

definition add_allowed :: "'w env \<Rightarrow> string \<Rightarrow> string \<Rightarrow> ('w allowlist_page, js_error, unit) eff" where
  "add_allowed env entry_name entry_reason =
     eff_catch
       (block
         [api (\<lambda>c. addDNSBLAllowlist (en_net env) c (js_trim entry_name) (js_trim entry_reason)),
          show_toast (Success ''dns.al.entry_added''),
          page_set (\<lambda>pg. pg\<lparr>al_addEntry := False\<rparr>),
          doRefresh])
       (toast_error env)"

definition remove_allowed :: "'w env \<Rightarrow> ('w allowlist_page, js_error, unit) eff" where
  "remove_allowed env =
     eff_bind (page_read al_removeEntry) (\<lambda>removeEntry.
       case removeEntry of
         None \<Rightarrow> eff_return ()
       | Some name \<Rightarrow>
           eff_seq (page_set (\<lambda>pg. pg\<lparr>al_removeEntry := None\<rparr>))
             (eff_catch
               (block
                 [api (\<lambda>c. removeDNSBLAllowlist (en_net env) c name),
                  show_toast (Success ''dns.al.entry_removed''),
                  doRefresh])
               (toast_error env)))"

section \<open>The services tab\<close>

record 'w dns_services_page = "'w page" +
  sv_pending :: "bool obj"

definition service_key :: "string \<Rightarrow> string \<Rightarrow> string" where
  "service_key repo name = repo @ ''/'' @ name"

definition service_toggled :: "'w env \<Rightarrow> string \<Rightarrow> string \<Rightarrow> bool \<Rightarrow> ('w dns_services_page, js_error, unit) eff" where
  "service_toggled env repo name published =
     (let pending = (\<lambda>b. page_set (\<lambda>pg. pg\<lparr>sv_pending := obj_set (sv_pending pg) (service_key repo name) b\<rparr>))
      in eff_seq (pending True)
           (eff_finally
             (eff_catch
               (block
                 [api (\<lambda>c. setDNSService (en_net env) c repo name published),
                  show_toast (Success (if published then ''dns.svc.published'' else ''dns.svc.unpublished'')),
                  doRefresh])
               (toast_error env))
             (pending False)))"

section \<open>The records\<close>

definition RECORD_TYPES :: "(int \<times> string) list" where
  "RECORD_TYPES =
     [(0, ''A''), (1, ''AAAA''), (2, ''CNAME''), (3, ''MX''), (4, ''TXT''), (5, ''NS''), (6, ''SOA''), (7, ''SRV''),
      (8, ''PTR''), (9, ''URI''), (10, ''SSHFP''), (11, ''DNAME''), (12, ''ANAME''), (13, ''ZONEMD''), (14, ''TLSA''),
      (15, ''DNSKEY''), (16, ''DS''), (17, ''RRSIG''), (18, ''NSEC''), (19, ''NSEC3''), (20, ''NSEC3PARAM''),
      (21, ''CERT''), (22, ''SVCB''), (23, ''HTTPS'')]"

text \<open>\<open>Object.fromEntries\<close>: of two entries with one key the later counts.\<close>

definition RECORD_TYPE_BY_NAME :: "string \<Rightarrow> int option" where
  "RECORD_TYPE_BY_NAME name = map_of (rev (map (\<lambda>(k, v). (v, k)) RECORD_TYPES)) name"

definition ADD_RECORD_TYPES :: "string list" where
  "ADD_RECORD_TYPES = [''A'', ''AAAA'', ''CNAME'', ''MX'', ''TXT'', ''SRV'', ''PTR'']"

definition record_label :: "int \<Rightarrow> string" where
  "record_label v = (case map_of RECORD_TYPES v of Some l \<Rightarrow> l | None \<Rightarrow> int_str v)"

record dns_record =
  dr_name :: string
  dr_type :: int
  dr_value :: string
  dr_network :: string

record 'w dns_page = "'w page" +
  dn_records :: "dns_record list"
  dn_addDialog :: bool
  dn_changeTLDDialog :: bool
  dn_setupConfirm :: bool
  dn_removeConfirm :: "dns_record option"
  dn_addRecordType :: string
  dn_tldFilter :: string
  dn_removedRecords :: "(string \<times> int) list"

type_synonym 'w dns_handler = "('w dns_page, js_error, unit) eff"

definition availableTlds :: "string list \<Rightarrow> string list" where
  "availableTlds tlds = sort (remdups (filter (\<lambda>s. s \<noteq> []) tlds))"

definition displayedRecords :: "('w, 'm) dns_page_scheme \<Rightarrow> dns_record list" where
  "displayedRecords pg =
     filter (\<lambda>r. \<not> list_ex (\<lambda>(n, ty). n = dr_name r \<and> ty = dr_type r) (dn_removedRecords pg)) (dn_records pg)"

definition records_answered :: "dns_record list \<Rightarrow> 'w dns_handler" where
  "records_answered rs = page_set (\<lambda>pg. pg\<lparr>dn_records := rs\<rparr>)"

definition dns_refresh :: "'w dns_handler" where
  "dns_refresh = eff_seq (page_set (\<lambda>pg. pg\<lparr>dn_removedRecords := []\<rparr>)) doRefresh"

definition record_ttl :: "string \<Rightarrow> int" where
  "record_ttl s = (case parse_int s of Some n \<Rightarrow> if n = 0 then 300 else n | None \<Rightarrow> 300)"

definition handleAddRecord :: "'w env \<Rightarrow> string \<Rightarrow> string \<Rightarrow> string \<Rightarrow> 'w dns_handler" where
  "handleAddRecord env record_name record_value ttl =
     eff_bind (page_read dn_addRecordType) (\<lambda>addRecordType.
       eff_catch
         (block
           [api (\<lambda>c. addDNSRecord (en_net env) c (js_trim record_name) (RECORD_TYPE_BY_NAME addRecordType)
                       (js_trim record_value) (record_ttl ttl)),
            show_toast (Success ''dns.toast_record_added''),
            page_set (\<lambda>pg. pg\<lparr>dn_addDialog := False, dn_addRecordType := []\<rparr>),
            dns_refresh])
         (toast_error env))"

text \<open>The delete button is offered for global records, those without a network, only.\<close>

definition delete_offered :: "bool \<Rightarrow> dns_record \<Rightarrow> bool" where
  "delete_offered admin r \<longleftrightarrow> admin \<and> dr_network r = []"

definition handleRemoveRecord :: "'w env \<Rightarrow> 'w dns_handler" where
  "handleRemoveRecord env =
     eff_bind (page_read dn_removeConfirm) (\<lambda>removeConfirm.
       case removeConfirm of
         None \<Rightarrow> eff_return ()
       | Some r \<Rightarrow>
           eff_seq (page_set (\<lambda>pg. pg\<lparr>dn_removeConfirm := None\<rparr>))
             (eff_catch
               (block
                 [api (\<lambda>c. removeDNSRecord (en_net env) c (dr_name r) (dr_type r)),
                  show_toast (Success ''dns.toast_record_removed''),
                  page_set (\<lambda>pg. pg\<lparr>dn_removedRecords := dn_removedRecords pg @ [(dr_name r, dr_type r)]\<rparr>)])
               (toast_error env)))"

definition handleChangeTLD :: "'w env \<Rightarrow> string \<Rightarrow> 'w dns_handler" where
  "handleChangeTLD env tld =
     eff_catch
       (block
         [api (\<lambda>c. setDNSTLD (en_net env) c (js_trim tld)),
          show_toast (Success ''dns.toast_tld_changed''),
          page_set (\<lambda>pg. pg\<lparr>dn_changeTLDDialog := False\<rparr>),
          dns_refresh])
       (toast_error env)"

definition handleSetup :: "'w env \<Rightarrow> 'w dns_handler" where
  "handleSetup env =
     eff_catch
       (block
         [api (setupDNS (en_net env)),
          show_toast (Success ''dns.toast_setup_complete''),
          page_set (\<lambda>pg. pg\<lparr>dn_setupConfirm := False\<rparr>),
          dns_refresh])
       (\<lambda>err. block [toast_error env err, page_set (\<lambda>pg. pg\<lparr>dn_setupConfirm := False\<rparr>)])"

section \<open>Lemmas\<close>




text \<open>A code is a run of characters without separators.\<close>

definition code_text :: "string \<Rightarrow> bool" where
  "code_text s \<longleftrightarrow> s \<noteq> [] \<and> list_all (\<lambda>c. \<not> is_separator c) s"

lemma split_codes_one: "code_text s \<Longrightarrow> split_codes s = [s]"
  by (cases s) (simp_all add: code_text_def list_all_iff takeWhile_eq_all_conv [THEN iffD2] dropWhile_eq_Nil_conv [THEN iffD2])

lemma split_codes_more:
  assumes "code_text s" "is_separator c"
  shows "split_codes (s @ c # t) = s # split_codes t"
proof (cases s)
  case Nil
  then show ?thesis using assms(1) by (simp add: code_text_def)
next
  case (Cons a s')
  then have "takeWhile (\<lambda>d. \<not> is_separator d) (s' @ c # t) = s'" "dropWhile (\<lambda>d. \<not> is_separator d) (s' @ c # t) = c # t"
    using assms by (auto simp: code_text_def list_all_iff takeWhile_append dropWhile_append)
  then show ?thesis using Cons assms by (simp add: code_text_def)
qed

lemma split_join_codes: "is_separator c \<Longrightarrow> list_all code_text codes \<Longrightarrow> split_codes (join [c] codes) = codes"
  by (induction codes rule: induct_list012) (simp_all add: split_codes_one split_codes_more)

lemma field_shows_join:
  "list_all code_text codes \<Longrightarrow> field_shows (join [newline] codes) = concat codes"
proof (induction codes rule: induct_list012)
  case (3 a b codes)
  then show ?case by (auto simp: field_shows_def code_text_def list_all_iff is_separator_def is_js_space_def newline_def filter_id_conv)
qed (auto simp: field_shows_def code_text_def list_all_iff is_separator_def is_js_space_def filter_id_conv)

lemma code_text_concat: "list_all code_text codes \<Longrightarrow> codes \<noteq> [] \<Longrightarrow> code_text (concat codes)"
  by (induction codes) (auto simp: code_text_def list_all_iff)

lemma newline_separates: "is_separator newline"
  by (simp add: is_separator_def is_js_space_def newline_def)

lemma refusal_opened_custom:
  "refusalMode (pv_refusal_codes p) = ''custom'' \<Longrightarrow> refusal_opened p =
     \<lparr>rd_zone = pv_zone p, rd_mode = ''custom'', rd_codes = join [newline] (pv_refusal_codes p),
      rd_cooldown = int_str (pv_refusal_cooldown p)\<rparr>"
  by (simp add: refusal_opened_def)

lemma refusalMode_cases: "refusalMode codes \<in> {''off'', ''builtin'', ''custom''}"
  by (simp add: refusalMode_def)

section \<open>Theorems\<close>

text \<open>Saving the dialog of a provider as it opened changes nothing: the same mode, the same
  custom codes and the same pause are sent.\<close>

theorem refusal_dialog_roundtrip:
  assumes "list_all code_text (pv_refusal_codes p)" "0 \<le> pv_refusal_cooldown p"
  shows "\<exists>codes. refusal_submit (refusal_opened p) = Some (codes, pv_refusal_cooldown p) \<and>
    refusalMode codes = refusalMode (pv_refusal_codes p) \<and>
    (refusalMode codes = ''custom'' \<longrightarrow> codes = pv_refusal_codes p)"
proof -
  have n: "js_number (int_str (pv_refusal_cooldown p)) = Some (JNum (pv_refusal_cooldown p))"
    using assms(2) by (rule js_number_int_str)
  have off: "refusalMode [REFUSAL_CODES_NONE] = ''off''" "refusalMode [] = ''builtin''" by code_simp+
  consider "refusalMode (pv_refusal_codes p) = ''off''" | "refusalMode (pv_refusal_codes p) = ''builtin''"
    | "refusalMode (pv_refusal_codes p) = ''custom''" using refusalMode_cases [of "pv_refusal_codes p"] by blast
  then show ?thesis
    by cases
      (use assms(2) n off in \<open>simp_all add: refusal_submit_def refusal_opened_def split_join_codes [OF newline_separates assms(1)]\<close>)
qed

theorem refusal_dialog_roundtrip_witness:
  "\<exists>codes. refusal_submit (refusal_opened \<lparr>pv_zone = ''dbl.example'', pv_enabled = True,
     pv_refusal_codes = [''127.0.0.2'', ''127.0.0.3''], pv_refusal_cooldown = 60\<rparr>) = Some (codes, 60)"
  using refusal_dialog_roundtrip [of "\<lparr>pv_zone = ''dbl.example'', pv_enabled = True,
     pv_refusal_codes = [''127.0.0.2'', ''127.0.0.3''], pv_refusal_cooldown = 60\<rparr>"]
  by (auto simp: code_text_def is_separator_def is_js_space_def)

text \<open>Custom codes that are edited are lost when there are several: the field they stand in one per
  line shows a single line, in which they run together, and what is typed after it is sent
  as one code with all of them.\<close>

theorem custom_codes_glued:
  assumes "list_all code_text (pv_refusal_codes p)" "refusalMode (pv_refusal_codes p) = ''custom''"
    and "0 \<le> pv_refusal_cooldown p" "code_text typed"
  shows "refusal_submit (codes_typed (\<lambda>shown. shown @ typed) (refusal_opened p))
    = Some ([concat (pv_refusal_codes p) @ typed], pv_refusal_cooldown p)"
proof -
  have "pv_refusal_codes p \<noteq> []" using assms(2) by (auto simp: refusalMode_def)
  then have "code_text (concat (pv_refusal_codes p) @ typed)"
    using code_text_concat [OF assms(1)] assms(4) by (simp add: code_text_def)
  then show ?thesis
    using assms(3) by (simp add: refusal_opened_custom [OF assms(2)] codes_typed_def field_shows_join [OF assms(1)]
        refusal_submit_def split_codes_one js_number_int_str)
qed

theorem custom_codes_glued_witness:
  "refusal_submit (codes_typed (\<lambda>shown. shown @ ''4'') (refusal_opened \<lparr>pv_zone = ''dbl.example'', pv_enabled = True,
     pv_refusal_codes = [''127.0.0.2'', ''127.0.0.3''], pv_refusal_cooldown = 60\<rparr>)) = Some ([''127.0.0.2127.0.0.34''], 60)"
proof -
  have "refusalMode [''127.0.0.2'', ''127.0.0.3''] = ''custom''" by code_simp
  then show ?thesis
    using custom_codes_glued [of "\<lparr>pv_zone = ''dbl.example'', pv_enabled = True,
      pv_refusal_codes = [''127.0.0.2'', ''127.0.0.3''], pv_refusal_cooldown = 60\<rparr>" "''4''"]
    by (simp add: code_text_def is_separator_def is_js_space_def)
qed

lemma code_text_trim: "code_text s \<Longrightarrow> js_trim s = s"
proof -
  assume s: "code_text s"
  have "dropWhile is_js_space xs = xs" if "set xs \<subseteq> set s" for xs
    using s that by (cases xs) (auto simp: code_text_def list_all_iff is_separator_def)
  from this [of s] this [of "rev s"] show ?thesis by (simp add: js_trim_def)
qed

text \<open>The request that saves the providers as they are meant to be stored.\<close>

definition config_request :: "('w, 'm) page_scheme \<Rightarrow> bool \<Rightarrow> provider list \<Rightarrow> int \<Rightarrow> request" where
  "config_request pg enabled providers cooldown =
     post_request (getClient (pg_storage pg) (pg_client pg)) ''/dns/dnsbl''
       (JObj [(''enabled'', JBool enabled),
              (''providers'', JArr (map (\<lambda>p. wire_provider p (pv_refusal_codes p)) providers)),
              (''refusal_cooldown_secs'', JNum cooldown)])"

text \<open>What the server reports for a stored provider: the codes in effect.\<close>

definition reported :: "(string list \<Rightarrow> string list) \<Rightarrow> provider \<Rightarrow> provider" where
  "reported resolve p = p\<lparr>pv_refusal_codes := resolve (pv_refusal_codes p)\<rparr>"




lemma wp_save_blocklist:
  assumes "en_net env = recording a"
    and "map toWire providers = map (\<lambda>p. wire_provider p (pv_refusal_codes p)) stored"
  shows "wp (save_blocklist env enabled providers)
    (\<lambda>r pg'. r = Inr () \<and> pg_net pg' = pg_net pg @ [config_request pg enabled stored (bk_listCooldown pg)]) pg"
  unfolding save_blocklist_def wp_bind wp_read sum.case wp_catch wp_block wp_seq setDNSBLConfig_def assms
  by (rule wp_recording_ignore_json) (simp add: wp_simps config_request_def split: sum.split)


definition rolodex_codes :: "string list \<Rightarrow> string list" where
  "rolodex_codes cs = (if cs = [] then BUILTIN_REFUSAL_CODES else cs)"

definition sample_providers :: "provider list" where
  "sample_providers =
     [\<lparr>pv_zone = ''multi.surbl.org'', pv_enabled = True, pv_refusal_codes = [], pv_refusal_cooldown = 0\<rparr>,
      \<lparr>pv_zone = ''dbl.example'', pv_enabled = False, pv_refusal_codes = [''none''], pv_refusal_cooldown = 60\<rparr>]"

definition sample_blocklist :: "request list blocklist_page" where
  "sample_blocklist =
     \<lparr>pg_net = [], pg_storage = \<lparr>st_local = Map.empty, st_session = Map.empty\<rparr>, pg_client = newClient [],
      pg_log = [], pg_refreshKey = 0,
      bk_config = Some \<lparr>bl_enabled = True, bl_providers = map (reported rolodex_codes) sample_providers, bl_refusal_cooldown = 0\<rparr>,
      bk_newZone = [], bk_editRefusal = None, bk_addEntry = False, bk_removeEntry = None\<rparr>"


text \<open>Every change on the name service page is reported once: the handler returns whatever
  the server answers; an accepted change shows one success and refreshes the list, a
  refused one shows the error and keeps the form.\<close>

theorem dns_changes_reported:
  "wp (handleAddRecord env name v ttl) (\<lambda>r pg'. r = Inr () \<and>
       (accepted pg pg' \<and> \<not> dn_addDialog pg' \<and> dn_removedRecords pg' = [] \<or>
        refused pg pg' \<and> dn_addDialog pg' = dn_addDialog pg \<and> dn_addRecordType pg' = dn_addRecordType pg)) pg \<and>
   wp (handleChangeTLD env tld) (\<lambda>r pg'. r = Inr () \<and>
       (accepted pg pg' \<and> \<not> dn_changeTLDDialog pg' \<or> refused pg pg' \<and> dn_changeTLDDialog pg' = dn_changeTLDDialog pg)) pg \<and>
   wp (handleSetup env) (\<lambda>r pg'. r = Inr () \<and> \<not> dn_setupConfirm pg' \<and> (accepted pg pg' \<or> refused pg pg')) pg \<and>
   wp (add_local_entry env name v) (\<lambda>r pg'. r = Inr () \<and>
       (accepted bpg pg' \<and> \<not> bk_addEntry pg' \<or> refused bpg pg' \<and> bk_addEntry pg' = bk_addEntry bpg)) bpg \<and>
   wp (add_allowed env name v) (\<lambda>r pg'. r = Inr () \<and>
       (accepted apg pg' \<and> \<not> al_addEntry pg' \<or> refused apg pg' \<and> al_addEntry pg' = al_addEntry apg)) apg \<and>
   wp (service_toggled env repo name v') (\<lambda>r pg'. r = Inr () \<and> (accepted spg pg' \<or> refused spg pg') \<and>
       map_of (sv_pending pg') (service_key repo name) = Some False) spg"
proof (intro conjI)
  show "wp (handleAddRecord env name v ttl) (\<lambda>r pg'. r = Inr () \<and>
       (accepted pg pg' \<and> \<not> dn_addDialog pg' \<and> dn_removedRecords pg' = [] \<or>
        refused pg pg' \<and> dn_addDialog pg' = dn_addDialog pg \<and> dn_addRecordType pg' = dn_addRecordType pg)) pg"
    unfolding handleAddRecord_def wp_bind wp_read sum.case wp_catch wp_block wp_seq
    by (rule wp_api) (simp add: change_simps dns_refresh_def split: sum.split)
  show "wp (handleChangeTLD env tld) (\<lambda>r pg'. r = Inr () \<and>
       (accepted pg pg' \<and> \<not> dn_changeTLDDialog pg' \<or> refused pg pg' \<and> dn_changeTLDDialog pg' = dn_changeTLDDialog pg)) pg"
    unfolding handleChangeTLD_def wp_catch wp_block wp_seq
    by (rule wp_api) (simp add: change_simps dns_refresh_def split: sum.split)
  show "wp (handleSetup env) (\<lambda>r pg'. r = Inr () \<and> \<not> dn_setupConfirm pg' \<and> (accepted pg pg' \<or> refused pg pg')) pg"
    unfolding handleSetup_def wp_catch wp_block wp_seq
    by (rule wp_api) (simp add: change_simps dns_refresh_def split: sum.split)
  show "wp (add_local_entry env name v) (\<lambda>r pg'. r = Inr () \<and>
       (accepted bpg pg' \<and> \<not> bk_addEntry pg' \<or> refused bpg pg' \<and> bk_addEntry pg' = bk_addEntry bpg)) bpg"
    unfolding add_local_entry_def wp_catch wp_block wp_seq by (rule wp_api) (simp add: change_simps split: sum.split)
  show "wp (add_allowed env name v) (\<lambda>r pg'. r = Inr () \<and>
       (accepted apg pg' \<and> \<not> al_addEntry pg' \<or> refused apg pg' \<and> al_addEntry pg' = al_addEntry apg)) apg"
    unfolding add_allowed_def wp_catch wp_block wp_seq by (rule wp_api) (simp add: change_simps split: sum.split)
  show "wp (service_toggled env repo name v') (\<lambda>r pg'. r = Inr () \<and> (accepted spg pg' \<or> refused spg pg') \<and>
       map_of (sv_pending pg') (service_key repo name) = Some False) spg"
    unfolding service_toggled_def Let_def wp_seq wp_set sum.case wp_finally wp_catch wp_block
    by (rule wp_api) (simp add: change_simps split: sum.split)
qed

text \<open>A record is removed by name and type: one request names the record that was confirmed;
  when the server accepts it the record is gone from the table, whatever the next poll
  answers before the table is refreshed, and every record of another name or type stays;
  when it refuses, the table is as it was.\<close>

theorem record_removed:
  assumes "en_net env = recording a" "dn_removeConfirm pg = Some r"
  shows "wp (handleRemoveRecord env) (\<lambda>res pg'. res = Inr () \<and> dn_removeConfirm pg' = None \<and>
      pg_net pg' = pg_net pg @ [post_request (getClient (pg_storage pg) (pg_client pg)) ''/dns/records/remove''
        (JObj [(''name'', JStr (dr_name r)), (''record_type'', JNum (dr_type r))])] \<and>
      (let shown = (\<lambda>p. set (displayedRecords (p\<lparr>dn_records := polled\<rparr>)))
       in (\<exists>t. pg_log pg' = pg_log pg @ [Success t]) \<and>
            shown pg' = shown pg - {s. dr_name s = dr_name r \<and> dr_type s = dr_type r} \<or>
          (\<exists>e. pg_log pg' = pg_log pg @ [Failure e]) \<and> shown pg' = shown pg)) pg"
  unfolding handleRemoveRecord_def wp_bind wp_read sum.case assms option.case wp_seq wp_set wp_catch wp_block
    removeDNSRecord_def
  by (rule wp_recording_ignore_json) (auto simp: wp_simps displayedRecords_def Let_def split: sum.split)

text \<open>So is every record of the same name and type that belongs to a network: the server still has
  it, the table does not show it.\<close>

theorem scoped_record_hidden:
  assumes "dn_removeConfirm pg = Some r" "dr_name s = dr_name r" "dr_type s = dr_type r" "dr_network s \<noteq> dr_network r"
  shows "wp (handleRemoveRecord env) (\<lambda>res pg'.
      (\<exists>e. pg_log pg' = pg_log pg @ [Failure e]) \<or> s \<notin> set (displayedRecords (pg'\<lparr>dn_records := r # s # polled\<rparr>))) pg"
  unfolding handleRemoveRecord_def wp_bind wp_read sum.case assms option.case wp_seq wp_set wp_catch wp_block
  by (rule wp_api) (auto simp: wp_simps displayedRecords_def assms split: sum.split)

definition sample_record :: "string \<Rightarrow> dns_record" where
  "sample_record network = \<lparr>dr_name = ''nas'', dr_type = 0, dr_value = ''10.0.0.2'', dr_network = network\<rparr>"

definition sample_dns_page :: "request list dns_page" where
  "sample_dns_page =
     \<lparr>pg_net = [], pg_storage = \<lparr>st_local = Map.empty, st_session = Map.empty\<rparr>, pg_client = newClient [],
      pg_log = [], pg_refreshKey = 0, dn_records = [sample_record [], sample_record ''office''], dn_addDialog = False,
      dn_changeTLDDialog = False, dn_setupConfirm = False, dn_removeConfirm = Some (sample_record []),
      dn_addRecordType = [], dn_tldFilter = [], dn_removedRecords = []\<rparr>"

theorem record_removed_witness:
  "wp (handleRemoveRecord \<lparr>en_net = recording (\<lambda>_ _. Inl TypeErr), en_message = (\<lambda>_. [])\<rparr>)
     (\<lambda>res pg'. dn_removeConfirm pg' = None \<and> length (pg_net pg') = 1) sample_dns_page"
  by (rule wp_weaken [OF record_removed [where r = "sample_record []" and a = "\<lambda>_ _. Inl TypeErr" and polled = "[]"]])
    (simp_all add: sample_dns_page_def Let_def)

theorem scoped_record_hidden_witness:
  "wp (handleRemoveRecord \<lparr>en_net = recording (\<lambda>_ _. Inl TypeErr), en_message = (\<lambda>_. [])\<rparr>)
     (\<lambda>res pg'. pg_log pg' \<noteq> [] \<or>
       sample_record ''office'' \<notin> set (displayedRecords (pg'\<lparr>dn_records := [sample_record [], sample_record ''office'']\<rparr>))) sample_dns_page"
  by (rule wp_weaken [OF scoped_record_hidden [where r = "sample_record []" and s = "sample_record ''office''" and polled = "[]"]])
    (auto simp: sample_dns_page_def sample_record_def)

text \<open>The names of the record types are read back: every type the server knows has a name of its
  own, by which it is added, and every type the form offers has a number.\<close>

theorem record_type_names:
  "(RECORD_TYPE_BY_NAME name = Some k \<longleftrightarrow> map_of RECORD_TYPES k = Some name) \<and>
   list_all (\<lambda>offered. RECORD_TYPE_BY_NAME offered \<noteq> None) ADD_RECORD_TYPES"
proof -
  let ?swap = "map (\<lambda>(k, v). (v, k)) RECORD_TYPES"
  have d: "distinct (map fst RECORD_TYPES)" "distinct (map fst (rev ?swap))" by code_simp+
  have "map_of (rev ?swap) name = Some k \<longleftrightarrow> (name, k) \<in> set (rev ?swap)"
    using map_of_eq_Some_iff [OF d(2), of name k] by auto
  moreover have "map_of RECORD_TYPES k = Some name \<longleftrightarrow> (k, name) \<in> set RECORD_TYPES"
    using map_of_eq_Some_iff [OF d(1), of k name] by auto
  moreover have "(name, k) \<in> set (rev ?swap) \<longleftrightarrow> (k, name) \<in> set RECORD_TYPES" by auto
  moreover have "list_all (\<lambda>offered. RECORD_TYPE_BY_NAME offered \<noteq> None) ADD_RECORD_TYPES" by code_simp
  ultimately show ?thesis unfolding RECORD_TYPE_BY_NAME_def by blast
qed

text \<open>The minutes of an hour that is nearly over are rounded up to sixty.\<close>

lemma remaining_sixty_minutes: "formatRemaining 7199 = ''1h 60m''"
  by code_simp

text \<open>A list that could not be loaded is overwritten: when the server's answer for the providers
  failed, or is not there yet, adding a zone saves a list of that zone alone, switched off,
  in place of whatever the server has.\<close>

theorem unloaded_list_overwritten:
  assumes "en_net env = recording a" "bk_config pg = None" "code_text zone"
  shows "wp (addZone env zone) (\<lambda>r pg'. r = Inr () \<and> pg_net pg' = pg_net pg @
    [config_request pg False
      [\<lparr>pv_zone = to_lower zone, pv_enabled = True, pv_refusal_codes = [], pv_refusal_cooldown = 0\<rparr>] 0]) pg"
proof -
  have state: "bk_providers pg = []" "bk_enabled pg = False" "bk_listCooldown pg = 0"
    using assms(2) by (simp_all add: bk_providers_def bk_enabled_def bk_listCooldown_def)
  have zone: "js_trim zone = zone" "to_lower zone \<noteq> []"
    using assms(3) code_text_trim by (auto simp: code_text_def to_lower_def)
  let ?new = "[\<lparr>pv_zone = to_lower zone, pv_enabled = True, pv_refusal_codes = [], pv_refusal_cooldown = 0\<rparr>] :: provider list"
  have "map toWire ?new = map (\<lambda>p. wire_provider p (pv_refusal_codes p)) ?new"
    by (simp add: toWire_def wire_provider_def refusalMode_def)
  from wp_save_blocklist [OF assms(1) this, of False pg] show ?thesis
    by (simp add: addZone_def wp_bind wp_read state zone Let_def)
qed

theorem unloaded_list_overwritten_witness:
  "wp (addZone \<lparr>en_net = recording (\<lambda>_ _. Inl TypeErr), en_message = (\<lambda>_. [])\<rparr> ''dbl.example'')
     (\<lambda>r pg'. length (pg_net pg') = 1) (sample_blocklist\<lparr>bk_config := None\<rparr>)"
proof -
  have "code_text ''dbl.example''" by code_simp
  then show ?thesis
    by (intro wp_weaken [OF unloaded_list_overwritten [where a = "\<lambda>_ _. Inl TypeErr"]])
      (simp_all add: sample_blocklist_def)
qed

end
