(* ===== verification/PagesPage.thy ===== *)
theory PagesPage
  imports PageEffects ClientNetwork
begin

text \<open>
  The page of static sites, \<^verbatim>\<open>routes/PagesManagement.jsx\<close>.  While a site is provisioned the
  handler polls for its status; what the operator can do meanwhile is to leave the page,
  \<open>leaves i\<close> saying whether that happens during the wait of round \<open>i\<close>.
\<close>

record page_form =
  fm_name :: string
  fm_domain :: string
  fm_network :: "string option"
  fm_repo_url :: string
  fm_branch :: string
  fm_image :: string
  fm_image_directory :: string
  fm_archive :: "string option"

record 'w pages_page = "'w page" +
  gp_createDialog :: bool
  gp_editDialog :: "string option"
  gp_deleteConfirm :: "string option"
  gp_rebuildConfirm :: "string option"
  gp_uploadDialog :: "string option"
  gp_uploading :: bool
  gp_createSourceType :: string
  gp_provisioning :: bool
  gp_cancelPolling :: bool

type_synonym ('w, 'a) pages_eff = "('w pages_page, js_error, 'a) eff"

section \<open>Polling for the status\<close>

text \<open>\<open>entries.find((p) => p.name === name)\<close>\<close>

fun find_page :: "string \<Rightarrow> json list \<Rightarrow> js_error + json option" where
  "find_page name [] = Inr None"
| "find_page name (p # ps) =
     (case js_prop p ''name'' of
        None \<Rightarrow> Inl TypeErr
      | Some n \<Rightarrow> if n = JStr name then Inr (Some p) else find_page name ps)"

text \<open>The status an answer settles, \<open>None\<close> while there is none or it is pending.\<close>

definition settled_status :: "string \<Rightarrow> json \<Rightarrow> js_error + json option" where
  "settled_status name result =
     (case js_prop result ''entries'' of
        None \<Rightarrow> Inl TypeErr
      | Some entries \<Rightarrow>
          (case find_page name (elements (json_or entries (JArr []))) of
             Inl e \<Rightarrow> Inl e
           | Inr None \<Rightarrow> Inr None
           | Inr (Some found) \<Rightarrow>
               let status = js_opt_prop found ''status''
               in if truthy found \<and> status \<noteq> JStr ''pending'' then Inr (Some status) else Inr None))"

fun poll_status :: "'w env \<Rightarrow> (nat \<Rightarrow> bool) \<Rightarrow> string \<Rightarrow> nat \<Rightarrow> ('w, json) pages_eff" where
  "poll_status env leaves name 0 = eff_return (JStr ''pending'')"
| "poll_status env leaves name (Suc n) =
     eff_bind (page_read gp_cancelPolling) (\<lambda>cancelled.
       if cancelled then eff_return (JStr ''pending'')
       else eff_seq (page_set (\<lambda>pg. pg\<lparr>gp_cancelPolling := gp_cancelPolling pg \<or> leaves (30 - Suc n)\<rparr>))
         (eff_bind (page_read gp_cancelPolling) (\<lambda>cancelled.
            if cancelled then eff_return (JStr ''pending'')
            else eff_bind (api (\<lambda>c. listPages (en_net env) c None None None None None)) (\<lambda>result.
              eff_bind (eff_lift (settled_status name result)) (\<lambda>status.
                case status of Some s \<Rightarrow> eff_return s | None \<Rightarrow> poll_status env leaves name n)))))"

definition pollPageStatus :: "'w env \<Rightarrow> (nat \<Rightarrow> bool) \<Rightarrow> string \<Rightarrow> ('w, json) pages_eff" where
  "pollPageStatus env leaves name = poll_status env leaves name 30"

section \<open>Creating a site\<close>

definition provisioning_started :: "('w, unit) pages_eff" where
  "provisioning_started = page_set (\<lambda>pg. pg\<lparr>gp_provisioning := True, gp_cancelPolling := False\<rparr>)"

text \<open>A site that is fetched from elsewhere: create it, wait for it, report it.\<close>

definition provision ::
  "'w env \<Rightarrow> (nat \<Rightarrow> bool) \<Rightarrow> string \<Rightarrow> (client \<Rightarrow> ('w, js_error, json) eff) \<Rightarrow> ('w, unit) pages_eff"
where
  "provision env leaves name create =
     eff_seq provisioning_started
       (eff_seq (api create)
         (eff_bind (pollPageStatus env leaves name) (\<lambda>finalStatus.
            show_toast (if finalStatus = JStr ''active'' then Success ''pages.toast_provisioned''
                        else FailureKey ''pages.toast_provision_failed''))))"

definition page_created :: "('w, unit) pages_eff" where
  "page_created =
     eff_seq (page_set (\<lambda>pg. pg\<lparr>gp_provisioning := False, gp_createDialog := False, gp_createSourceType := ''archive''\<rparr>))
       doRefresh"

definition create_site :: "'w env \<Rightarrow> (nat \<Rightarrow> bool) \<Rightarrow> page_form \<Rightarrow> string \<Rightarrow> ('w, unit) pages_eff" where
  "create_site env leaves form sourceType =
     (let name = js_trim (fm_name form); domain = js_trim (fm_domain form);
          network = (case fm_network form of Some n \<Rightarrow> n | None \<Rightarrow> []);
          repoURL = js_trim (fm_repo_url form);
          branch = (if js_trim (fm_branch form) \<noteq> [] then js_trim (fm_branch form) else ''main'');
          img = js_trim (fm_image form); imageDirectory = js_trim (fm_image_directory form);
          archive = (\<lambda>c. createPage (en_net env) c name (Some []) (Some []) (Some domain) (Some ''archive'')
                           (Some []) (Some []) (Some network))
      in if sourceType = ''git'' then
           (if repoURL = [] then show_toast (FailureKey ''pages.error_repo_required'')
            else eff_seq
              (provision env leaves name (\<lambda>c. createPage (en_net env) c name (Some repoURL) (Some branch) (Some domain)
                 (Some ''git'') (Some []) (Some []) (Some network)))
              page_created)
         else if sourceType = ''container_image'' then
           (if img = [] then show_toast (Failure (JStr ''Container image is required''))
            else if imageDirectory = [] then show_toast (Failure (JStr ''Image directory is required''))
            else eff_seq
              (provision env leaves name (\<lambda>c. createPage (en_net env) c name (Some []) (Some []) (Some domain)
                 (Some ''container_image'') (Some img) (Some imageDirectory) (Some network)))
              page_created)
         else
           (case fm_archive form of
              Some archiveFile \<Rightarrow>
                eff_seq (page_set (\<lambda>pg. pg\<lparr>gp_provisioning := True\<rparr>))
                  (eff_bind (api archive) (\<lambda>created.
                     case js_prop created ''name'' of
                       None \<Rightarrow> eff_throw TypeErr
                     | Some n \<Rightarrow>
                         eff_seq (eff_bind (api (\<lambda>c. uploadPageArchive (en_net env) c (js_string n) archiveFile))
                                    (\<lambda>_. show_toast (Success ''pages.toast_provisioned'')))
                           page_created))
            | None \<Rightarrow> eff_seq (api archive) (eff_seq (show_toast (Success ''pages.toast_created'')) page_created)))"

definition handleCreatePage :: "'w env \<Rightarrow> (nat \<Rightarrow> bool) \<Rightarrow> page_form \<Rightarrow> ('w, unit) pages_eff" where
  "handleCreatePage env leaves form =
     (if js_trim (fm_name form) = [] then show_toast (FailureKey ''pages.error_name_required'')
      else eff_bind (page_read gp_createSourceType) (\<lambda>sourceType.
        eff_catch (create_site env leaves form sourceType)
          (\<lambda>err. block [toast_error env err, page_set (\<lambda>pg. pg\<lparr>gp_provisioning := False\<rparr>)])))"

section \<open>Changing a site\<close>

text \<open>The fields of the form that exist (the others are \<open>None\<close>) and are filled in.\<close>

definition page_fields ::
  "string option \<Rightarrow> string option \<Rightarrow> string \<Rightarrow> string option \<Rightarrow> string option \<Rightarrow> json obj"
where
  "page_fields repo_url branch domain img image_directory =
     (let field = (\<lambda>k v. case v of None \<Rightarrow> [] | Some s \<Rightarrow> if js_trim s \<noteq> [] then [(k, JStr (js_trim s))] else [])
      in field ''repo_url'' repo_url @ field ''branch'' branch @ field ''domain'' (Some domain) @
         field ''image'' img @ field ''image_directory'' image_directory)"

definition handleUpdatePage :: "'w env \<Rightarrow> string \<Rightarrow> json obj \<Rightarrow> ('w, unit) pages_eff" where
  "handleUpdatePage env name changes =
     eff_catch
       (block
         [eff_bind (api (\<lambda>c. updatePage (en_net env) c name (JObj changes))) (\<lambda>_. eff_return ()),
          show_toast (Success ''pages.toast_updated''),
          page_set (\<lambda>pg. pg\<lparr>gp_editDialog := None\<rparr>),
          doRefresh])
       (toast_error env)"

definition handleDeletePage :: "'w env \<Rightarrow> string \<Rightarrow> ('w, unit) pages_eff" where
  "handleDeletePage env name =
     eff_catch
       (block
         [api (\<lambda>c. removePage (en_net env) c name),
          show_toast (Success ''pages.toast_deleted''),
          page_set (\<lambda>pg. pg\<lparr>gp_deleteConfirm := None\<rparr>),
          doRefresh])
       (\<lambda>err. block [toast_error env err, page_set (\<lambda>pg. pg\<lparr>gp_deleteConfirm := None\<rparr>)])"

definition handleRebuild :: "'w env \<Rightarrow> string \<Rightarrow> ('w, unit) pages_eff" where
  "handleRebuild env name =
     eff_catch
       (block
         [eff_bind (api (\<lambda>c. rebuildPage (en_net env) c name)) (\<lambda>_. eff_return ()),
          show_toast (Success ''pages.toast_rebuilt''),
          page_set (\<lambda>pg. pg\<lparr>gp_rebuildConfirm := None\<rparr>),
          doRefresh])
       (\<lambda>err. block [toast_error env err, page_set (\<lambda>pg. pg\<lparr>gp_rebuildConfirm := None\<rparr>)])"

definition handleUploadPage :: "'w env \<Rightarrow> string \<Rightarrow> string option \<Rightarrow> ('w, unit) pages_eff" where
  "handleUploadPage env name file =
     (case file of
        None \<Rightarrow> show_toast (Failure (JStr ''Please select an archive file''))
      | Some archiveFile \<Rightarrow>
          eff_catch
            (block
              [page_set (\<lambda>pg. pg\<lparr>gp_uploading := True\<rparr>),
               eff_bind (api (\<lambda>c. uploadPageArchive (en_net env) c name archiveFile)) (\<lambda>_. eff_return ()),
               show_toast (Success (''Archive uploaded for \"'' @ name @ ''\"'')),
               page_set (\<lambda>pg. pg\<lparr>gp_uploading := False, gp_uploadDialog := None\<rparr>),
               doRefresh])
            (\<lambda>err. block [toast_error env err, page_set (\<lambda>pg. pg\<lparr>gp_uploading := False\<rparr>)]))"

section \<open>The list\<close>

text \<open>\<open>Pages\<close> of one screen are asked for by what the table shows; changing the order or the
  search goes back to the first.\<close>

definition PAGE_SIZE :: nat where "PAGE_SIZE = 20"

record pages_query =
  pq_page :: nat
  pq_sortKey :: string
  pq_sortDirection :: string
  pq_search :: string

definition pages_listed :: "'w env \<Rightarrow> pages_query \<Rightarrow> client \<Rightarrow> ('w, js_error, json) eff" where
  "pages_listed env q c =
     listPages (en_net env) c (Some (pq_sortKey q)) (Some (pq_sortDirection q)) (Some (int PAGE_SIZE))
       (Some (int (pq_page q * PAGE_SIZE))) (if pq_search q \<noteq> [] then Some (pq_search q) else None)"

definition sort_changed :: "string \<Rightarrow> string \<Rightarrow> pages_query \<Rightarrow> pages_query" where
  "sort_changed key dir q = q\<lparr>pq_sortKey := key, pq_sortDirection := dir, pq_page := 0\<rparr>"

definition list_reset :: "pages_query \<Rightarrow> pages_query" where
  "list_reset q = q\<lparr>pq_sortKey := ''name'', pq_sortDirection := ''asc'', pq_search := [], pq_page := 0\<rparr>"

definition list_searched :: "string \<Rightarrow> pages_query \<Rightarrow> pages_query" where
  "list_searched s q = q\<lparr>pq_search := s, pq_page := 0\<rparr>"

section \<open>Lemmas\<close>









section \<open>Theorems\<close>


definition git_form :: page_form where
  "git_form = \<lparr>fm_name = ''blog'', fm_domain = [], fm_network = None, fm_repo_url = ''https://git.example/blog'',
     fm_branch = [], fm_image = [], fm_image_directory = [], fm_archive = None\<rparr>"

definition sample_pages_page :: "request list pages_page" where
  "sample_pages_page =
     \<lparr>pg_net = [], pg_storage = \<lparr>st_local = Map.empty, st_session = Map.empty\<rparr>, pg_client = newClient [],
      pg_log = [], pg_refreshKey = 0, gp_createDialog = True, gp_editDialog = None, gp_deleteConfirm = None,
      gp_rebuildConfirm = None, gp_uploadDialog = None, gp_uploading = False, gp_createSourceType = ''git'',
      gp_provisioning = False, gp_cancelPolling = False\<rparr>"

definition page_env :: "request list env" where
  "page_env = \<lparr>en_net = recording (\<lambda>_ _. Inr \<lparr>rs_status = 200, rs_chunks = [''{}''], rs_broken = False\<rparr>), en_message = (\<lambda>_. [])\<rparr>"


text \<open>The request that creates the site a form describes, for a source that is fetched.\<close>

definition git_site :: "page_form \<Rightarrow> json" where
  "git_site form =
     create_page_body (js_trim (fm_name form)) (Some (js_trim (fm_repo_url form)))
       (Some (if js_trim (fm_branch form) \<noteq> [] then js_trim (fm_branch form) else ''main''))
       (Some (js_trim (fm_domain form))) (Some ''git'') (Some []) (Some [])
       (Some (case fm_network form of Some n \<Rightarrow> n | None \<Rightarrow> []))"

lemma create_site_git:
  "js_trim (fm_repo_url form) \<noteq> [] \<Longrightarrow> create_site env leaves form ''git''
     = eff_seq (provision env leaves (js_trim (fm_name form)) (\<lambda>c. postJSON (en_net env) c ''/pages/create'' (git_site form)))
         page_created"
  by (simp add: create_site_def Let_def createPage_def git_site_def)

text \<open>Leaving the page while a site is provisioned is reported as a failure: the server has
  accepted the site and is never asked again, and the toast says that provisioning failed.\<close>

theorem leaving_reported_as_failure:
  assumes "en_net env = recording a" "gp_createSourceType pg = ''git''"
    and "js_trim (fm_name form) \<noteq> []" "js_trim (fm_repo_url form) \<noteq> []" "leaves 0"
    and "fst (postJSON (recording a) (getClient (pg_storage pg) (pg_client pg)) ''/pages/create'' (git_site form) (pg_net pg)) = Inr v"
  shows "wp (handleCreatePage env leaves form) (\<lambda>r pg'.
      pg_net pg' = pg_net pg @ [post_request (getClient (pg_storage pg) (pg_client pg)) ''/pages/create'' (git_site form)] \<and>
      pg_log pg' = pg_log pg @ [FailureKey ''pages.toast_provision_failed''] \<and> \<not> gp_createDialog pg') pg"
proof -
  let ?c = "getClient (pg_storage pg) (pg_client pg)"
  let ?sent = "pg_net pg @ [post_request ?c ''/pages/create'' (git_site form)]"
  have call: "postJSON (recording a) ?c ''/pages/create'' (git_site form) (pg_net pg) = (Inr v, ?sent)"
    using assms(6) by (auto simp: postJSON_def recording_post eff_bind_def eff_lift_def split: sum.splits)
  let ?started = "pg\<lparr>gp_provisioning := True, gp_cancelPolling := False\<rparr>"
  have api: "wp (api (\<lambda>c. postJSON (recording a) c ''/pages/create'' (git_site form))) Q ?started
      = Q (Inr v) (?started\<lparr>pg_client := ?c, pg_net := ?sent\<rparr>)" for Q
    using wp_api_exact [of "\<lambda>c. postJSON (recording a) c ''/pages/create'' (git_site form)" ?started "Inr v" ?sent Q] call
    by simp
  have poll: "wp (pollPageStatus env leaves name) Q s = Q (Inr (JStr ''pending'')) (s\<lparr>gp_cancelPolling := True\<rparr>)"
    if "\<not> gp_cancelPolling s" for name Q s
    using that assms(5) by (simp add: pollPageStatus_def numeral_eq_Suc wp_simps)
  show ?thesis
    using assms(3)
    by (simp add: handleCreatePage_def wp_bind wp_read assms(2) create_site_git [OF assms(4)] assms(1) provision_def
        provisioning_started_def wp_catch wp_seq wp_set api)
      (simp add: poll wp_simps page_created_def)
qed

theorem leaving_reported_as_failure_witness:
  "wp (handleCreatePage page_env (\<lambda>_. True) git_form)
     (\<lambda>r pg'. pg_log pg' = [FailureKey ''pages.toast_provision_failed''] \<and> length (pg_net pg') = 1) sample_pages_page"
proof -
  have "parse_json ''{}'' = Some (JObj [])" by code_simp
  then show ?thesis
    by (intro wp_weaken [OF leaving_reported_as_failure [where v = "JObj []"
          and a = "\<lambda>_ _. Inr \<lparr>rs_status = 200, rs_chunks = [''{}''], rs_broken = False\<rparr>"]])
      (simp_all add: page_env_def sample_pages_page_def git_form_def js_trim_def is_js_space_def postJSON_def post_def
        recording_def eff_bind_def eff_lift_def check_status_def response_json_def response_text_def)
qed

text \<open>A field that is emptied in the edit dialog is not sent, so the site keeps what it had, while the
  page reports that it was updated.\<close>

lemma emptied_fields_kept:
  "map_of (page_fields repo_url branch domain img dir) k =
     (let v = (if k = ''repo_url'' then repo_url else if k = ''branch'' then branch
               else if k = ''domain'' then Some domain else if k = ''image'' then img
               else if k = ''image_directory'' then dir else None)
      in case v of None \<Rightarrow> None | Some s \<Rightarrow> if js_trim s = [] then None else Some (JStr (js_trim s)))"
proof -
  let ?field = "\<lambda>k v. case v of None \<Rightarrow> [] | Some s \<Rightarrow> if js_trim s \<noteq> [] then [(k, JStr (js_trim s))] else []"
  let ?kept = "\<lambda>v. case v of None \<Rightarrow> None | Some s \<Rightarrow> if js_trim s = [] then None else Some (JStr (js_trim s))"
  have field: "map_of (?field n v) k = (if k = n then ?kept v else None)" for n v
    by (simp split: option.split)
  have add: "(f ++ g) k = (if g k = None then f k else g k)" for f g :: "string \<Rightarrow> json option"
    by (simp add: map_add_def split: option.split)
  show ?thesis
    unfolding page_fields_def Let_def map_of_append add field
    by (cases "k = ''repo_url''"; cases "k = ''branch''"; cases "k = ''domain''"; cases "k = ''image''"; cases "k = ''image_directory''")
      simp_all
qed

theorem page_changes_reported:
  "wp (handleUpdatePage env name changes) (\<lambda>r pg'. r = Inr () \<and>
       (accepted pg pg' \<and> gp_editDialog pg' = None \<or> refused pg pg' \<and> gp_editDialog pg' = gp_editDialog pg)) pg \<and>
   wp (handleDeletePage env name) (\<lambda>r pg'. r = Inr () \<and> gp_deleteConfirm pg' = None \<and> (accepted pg pg' \<or> refused pg pg')) pg \<and>
   wp (handleRebuild env name) (\<lambda>r pg'. r = Inr () \<and> gp_rebuildConfirm pg' = None \<and> (accepted pg pg' \<or> refused pg pg')) pg \<and>
   wp (handleUploadPage env name (Some file)) (\<lambda>r pg'. r = Inr () \<and> \<not> gp_uploading pg' \<and>
       (accepted pg pg' \<and> gp_uploadDialog pg' = None \<or> refused pg pg' \<and> gp_uploadDialog pg' = gp_uploadDialog pg)) pg"
proof (intro conjI)
  show "wp (handleUpdatePage env name changes) (\<lambda>r pg'. r = Inr () \<and>
       (accepted pg pg' \<and> gp_editDialog pg' = None \<or> refused pg pg' \<and> gp_editDialog pg' = gp_editDialog pg)) pg"
    unfolding handleUpdatePage_def wp_catch wp_block wp_seq wp_bind
    by (rule wp_api) (simp add: change_simps split: sum.split)
  show "wp (handleDeletePage env name) (\<lambda>r pg'. r = Inr () \<and> gp_deleteConfirm pg' = None \<and> (accepted pg pg' \<or> refused pg pg')) pg"
    unfolding handleDeletePage_def wp_catch wp_block wp_seq by (rule wp_api) (simp add: change_simps split: sum.split)
  show "wp (handleRebuild env name) (\<lambda>r pg'. r = Inr () \<and> gp_rebuildConfirm pg' = None \<and> (accepted pg pg' \<or> refused pg pg')) pg"
    unfolding handleRebuild_def wp_catch wp_block wp_seq wp_bind by (rule wp_api) (simp add: change_simps split: sum.split)
  show "wp (handleUploadPage env name (Some file)) (\<lambda>r pg'. r = Inr () \<and> \<not> gp_uploading pg' \<and>
       (accepted pg pg' \<and> gp_uploadDialog pg' = None \<or> refused pg pg' \<and> gp_uploadDialog pg' = gp_uploadDialog pg)) pg"
    unfolding handleUploadPage_def option.case wp_catch wp_block wp_seq wp_bind wp_set sum.case
    by (rule wp_api) (simp add: change_simps split: sum.split)
qed





end
