(* ===== verification/NetworksPage.thy ===== *)
theory NetworksPage
  imports PageEffects ClientNetwork
begin

text \<open>
  The networks page: \<^verbatim>\<open>routes/Networks.jsx\<close> with its dialog of the peers of a network, and
  \<^verbatim>\<open>components/networks/ConnectedPeersPanel.jsx\<close>.  The three are components with a state
  of their own.  A row of a table is what the handlers read of it.
\<close>

section \<open>The networks\<close>

definition DEFAULT_NETWORK :: string where "DEFAULT_NETWORK = ''home''"

record 'w networks_page = "'w page" +
  nw_pending :: "bool obj"
  nw_createOpen :: bool
  nw_newName :: string
  nw_newTld :: string
  nw_removeTarget :: "string option"
  nw_peersTarget :: "string option"

type_synonym 'w networks_handler = "('w networks_page, js_error, unit) eff"

definition toggle_disabled :: "bool \<Rightarrow> string \<Rightarrow> ('w, 'm) networks_page_scheme \<Rightarrow> bool" where
  "toggle_disabled admin name pg \<longleftrightarrow> \<not> admin \<or> obj_get (nw_pending pg) name = Some True"

definition toggleEnabled :: "'w env \<Rightarrow> string \<Rightarrow> bool \<Rightarrow> 'w networks_handler" where
  "toggleEnabled env name enabled =
     (let pending = (\<lambda>b. page_set (\<lambda>pg. pg\<lparr>nw_pending := obj_set (nw_pending pg) name b\<rparr>))
      in eff_seq (pending True)
           (eff_finally
             (eff_catch
               (block
                 [if enabled then api (\<lambda>c. enableNetwork (en_net env) c name)
                  else api (\<lambda>c. disableNetwork (en_net env) c name),
                  show_toast (Success (if enabled then ''networks.toast_enabled'' else ''networks.toast_disabled'')),
                  doRefresh])
               (toast_error env))
             (pending False)))"

definition create_enabled :: "('w, 'm) networks_page_scheme \<Rightarrow> bool" where
  "create_enabled pg \<longleftrightarrow> js_trim (nw_newName pg) \<noteq> []"

definition create_network :: "'w env \<Rightarrow> 'w networks_handler" where
  "create_network env =
     eff_bind (page_read (\<lambda>pg. (nw_newName pg, nw_newTld pg))) (\<lambda>(newName, newTld).
       eff_catch
         (block
           [eff_bind (api (\<lambda>c. createNetwork (en_net env) c (js_trim newName) (Some (js_trim newTld)))) (\<lambda>_. eff_return ()),
            show_toast (Success ''networks.toast_created''),
            page_set (\<lambda>pg. pg\<lparr>nw_createOpen := False, nw_newName := [], nw_newTld := []\<rparr>),
            doRefresh])
         (toast_error env))"

text \<open>The default network has no button to remove it.\<close>

definition remove_offered :: "bool \<Rightarrow> string \<Rightarrow> bool" where
  "remove_offered admin name \<longleftrightarrow> name \<noteq> DEFAULT_NETWORK \<and> admin"

definition remove_clicked :: "bool \<Rightarrow> string \<Rightarrow> 'w networks_handler" where
  "remove_clicked admin name =
     (if remove_offered admin name then page_set (\<lambda>pg. pg\<lparr>nw_removeTarget := Some name\<rparr>) else eff_return ())"

definition remove_network :: "'w env \<Rightarrow> 'w networks_handler" where
  "remove_network env =
     eff_bind (page_read nw_removeTarget) (\<lambda>removeTarget.
       case removeTarget of
         None \<Rightarrow> eff_return ()
       | Some name \<Rightarrow>
           eff_finally
             (eff_catch
               (block
                 [api (\<lambda>c. removeNetwork (en_net env) c name),
                  show_toast (Success ''networks.toast_removed''),
                  doRefresh])
               (toast_error env))
             (page_set (\<lambda>pg. pg\<lparr>nw_removeTarget := None\<rparr>)))"

section \<open>The peers of a network\<close>

record 'w peers_dialog = "'w page" +
  pd_peerName :: string
  pd_peerRolodex :: bool
  pd_generatedConfig :: json

definition addPeer :: "'w env \<Rightarrow> string \<Rightarrow> ('w peers_dialog, js_error, unit) eff" where
  "addPeer env network =
     eff_bind (page_read (\<lambda>pg. (pd_peerName pg, pd_peerRolodex pg))) (\<lambda>(peerName, peerRolodex).
       eff_catch
         (eff_bind (api (\<lambda>c. addNetworkPeer (en_net env) c network (js_trim peerName) None None peerRolodex)) (\<lambda>result.
            case js_prop result ''config'' of
              None \<Rightarrow> eff_throw TypeErr
            | Some config \<Rightarrow>
                block
                  [page_set (\<lambda>pg. pg\<lparr>pd_generatedConfig := json_or config (JStr []), pd_peerName := [], pd_peerRolodex := False\<rparr>),
                   doRefresh,
                   show_toast (Success ''networks.toast_peer_added'')]))
         (toast_error env))"

definition removePeer :: "'w env \<Rightarrow> string \<Rightarrow> string \<Rightarrow> ('w peers_dialog, js_error, unit) eff" where
  "removePeer env network publicKey =
     eff_catch
       (block
         [api (\<lambda>c. removeNetworkPeer (en_net env) c network publicKey),
          doRefresh,
          show_toast (Success ''networks.toast_peer_removed'')])
       (toast_error env)"

text \<open>The configuration is copied without a fallback: where there is no \<open>navigator.clipboard\<close>, the
  click ends in a \<open>TypeError\<close> nobody catches.\<close>

definition copyConfig :: "clipboard \<Rightarrow> ('w peers_dialog, js_error, unit) eff" where
  "copyConfig c =
     (if \<not> cb_api c then eff_throw TypeErr
      else show_toast (if cb_written c then Success ''networks.toast_config_copied'' else FailureKey ''networks.toast_copy_failed''))"

section \<open>The connected peers\<close>

record peer_row =
  pr_network :: string
  pr_public_key :: string
  pr_name :: string

record 'w connected_panel = "'w page" +
  cp_disconnectTarget :: "peer_row option"
  cp_disconnecting :: bool

definition peer_row_id :: "peer_row \<Rightarrow> string" where
  "peer_row_id p = pr_network p @ ''/'' @ pr_public_key p"

definition disconnectPeer :: "'w env \<Rightarrow> ('w connected_panel, js_error, unit) eff" where
  "disconnectPeer env =
     eff_bind (page_read cp_disconnectTarget) (\<lambda>disconnectTarget.
       case disconnectTarget of
         None \<Rightarrow> eff_return ()
       | Some p \<Rightarrow>
           eff_seq (page_set (\<lambda>pg. pg\<lparr>cp_disconnecting := True\<rparr>))
             (eff_finally
               (eff_catch
                 (block
                   [api (\<lambda>c. removeNetworkPeer (en_net env) c (pr_network p) (pr_public_key p)),
                    show_toast (Success ''networks.toast_peer_disconnected''),
                    doRefresh])
                 (toast_error env))
               (page_set (\<lambda>pg. pg\<lparr>cp_disconnecting := False, cp_disconnectTarget := None\<rparr>))))"

text \<open>When an enrollment expires, from the milliseconds left (\<open>None\<close>: never).\<close>

definition expiry_label :: "int option \<Rightarrow> string \<times> int" where
  "expiry_label left =
     (case left of
        None \<Rightarrow> (''networks.expires_never'', 0)
      | Some ms \<Rightarrow>
          let mins = (ms + 30000) div 60000
          in if mins \<le> 0 then (''networks.expires_lapsed'', 0) else (''networks.expires_in'', mins))"

text \<open>
  How long ago a peer was heard of, from its stamp and the clock in milliseconds; \<open>None\<close> is a
  stamp that is missing or no date.  A clock that lags behind shows no negative age.
\<close>

definition formatAgo :: "int option \<Rightarrow> int \<Rightarrow> string option" where
  "formatAgo stamp now =
     (case stamp of
        None \<Rightarrow> None
      | Some t \<Rightarrow>
          let secs = (now - t) div 1000 in
          Some (if secs < 0 then ''0s''
                else if secs < 60 then int_str secs @ ''s''
                else if secs < 3600 then int_str (secs div 60) @ ''m''
                else if secs < 86400 then int_str (secs div 3600) @ ''h''
                else int_str (secs div 86400) @ ''d''))"

definition handshake_label :: "int option \<Rightarrow> int \<Rightarrow> string \<times> string" where
  "handshake_label stamp now =
     (case formatAgo stamp now of
        Some ago \<Rightarrow> (''networks.handshake_ago'', ago)
      | None \<Rightarrow> (''networks.handshake_never'', []))"

section \<open>Theorems\<close>

text \<open>On a page loaded over plain HTTP, without \<open>navigator.clipboard\<close>, the button that copies
  the configuration of a new device does nothing and says nothing, although the copy used by
  the other pages would succeed.\<close>

theorem config_not_copied:
  assumes "\<not> cb_api c"
  shows "wp (copyConfig c) (\<lambda>r pd'. r = Inl TypeErr \<and> pd' = pd) pd \<and>
    (cb_exec c = Some True \<longrightarrow> copyToClipboard c = Inr () \<and> text_copied c)"
  using assms by (simp add: copyConfig_def wp_simps copyToClipboard_def text_copied_def)

theorem config_not_copied_witness:
  "wp (copyConfig \<lparr>cb_api = False, cb_secure = False, cb_written = False, cb_exec = Some True\<rparr>) (\<lambda>r pd'. pg_log pd' = [])
     \<lparr>pg_net = (), pg_storage = \<lparr>st_local = Map.empty, st_session = Map.empty\<rparr>, pg_client = newClient [], pg_log = [],
      pg_refreshKey = 0, pd_peerName = [], pd_peerRolodex = False, pd_generatedConfig = JStr ''x''\<rparr>"
  by (rule wp_weaken [OF conjunct1 [OF config_not_copied]]) simp_all

text \<open>The rows of the table of connected peers have keys of their own, one device being enrolled on
  two networks included.\<close>

theorem peer_rows_keyed:
  assumes "CHR ''/'' \<notin> set (pr_network p)" "CHR ''/'' \<notin> set (pr_network q)"
  shows "peer_row_id p = peer_row_id q \<longleftrightarrow> pr_network p = pr_network q \<and> pr_public_key p = pr_public_key q"
  using assms by (auto simp: peer_row_id_def cut_unique)

theorem peer_rows_keyed_witness:
  "peer_row_id \<lparr>pr_network = ''office'', pr_public_key = ''a/b='', pr_name = []\<rparr> \<noteq>
   peer_row_id \<lparr>pr_network = ''lab'', pr_public_key = ''a/b='', pr_name = []\<rparr>"
  using peer_rows_keyed [of "\<lparr>pr_network = ''office'', pr_public_key = ''a/b='', pr_name = []\<rparr>"
      "\<lparr>pr_network = ''lab'', pr_public_key = ''a/b='', pr_name = []\<rparr>"] by simp

text \<open>Every change of the networks and their peers is reported once, whatever the server answers:
  the switch is enabled again, the questions whether to remove or to disconnect are closed,
  and a form that was refused keeps what was typed.\<close>

theorem network_changes_reported:
  "wp (toggleEnabled env name enabled) (\<lambda>r pg'. r = Inr () \<and> (accepted pg pg' \<or> refused pg pg') \<and>
       (toggle_disabled True name pg' \<longleftrightarrow> False)) pg \<and>
   wp (create_network env) (\<lambda>r pg'. r = Inr () \<and>
       (accepted pg pg' \<and> \<not> nw_createOpen pg' \<and> nw_newName pg' = [] \<or>
        refused pg pg' \<and> nw_createOpen pg' = nw_createOpen pg \<and> nw_newName pg' = nw_newName pg \<and> nw_newTld pg' = nw_newTld pg)) pg \<and>
   wp (remove_network env) (\<lambda>r pg'. r = Inr () \<and> nw_removeTarget pg' = None \<and>
       (nw_removeTarget pg = None \<or> accepted pg pg' \<or> refused pg pg')) pg \<and>
   wp (addPeer env network) (\<lambda>r pd'. r = Inr () \<and>
       (accepted pd pd' \<and> pd_peerName pd' = [] \<or>
        refused pd pd' \<and> pd_peerName pd' = pd_peerName pd \<and> pd_generatedConfig pd' = pd_generatedConfig pd)) pd \<and>
   wp (removePeer env network key) (\<lambda>r pd'. r = Inr () \<and> (accepted pd pd' \<or> refused pd pd')) pd \<and>
   wp (disconnectPeer env) (\<lambda>r cp'. r = Inr () \<and> cp_disconnectTarget cp' = None \<and>
       (cp_disconnectTarget cp = None \<or> \<not> cp_disconnecting cp' \<and> (accepted cp cp' \<or> refused cp cp'))) cp"
proof (intro conjI)
  show "wp (toggleEnabled env name enabled) (\<lambda>r pg'. r = Inr () \<and> (accepted pg pg' \<or> refused pg pg') \<and>
       (toggle_disabled True name pg' \<longleftrightarrow> False)) pg"
    unfolding toggleEnabled_def Let_def wp_seq wp_set sum.case wp_finally wp_catch wp_block
    by (cases enabled; simp; intro wp_api)
      (auto simp: change_simps toggle_disabled_def obj_get_def split: sum.split)
  show "wp (create_network env) (\<lambda>r pg'. r = Inr () \<and>
       (accepted pg pg' \<and> \<not> nw_createOpen pg' \<and> nw_newName pg' = [] \<or>
        refused pg pg' \<and> nw_createOpen pg' = nw_createOpen pg \<and> nw_newName pg' = nw_newName pg \<and> nw_newTld pg' = nw_newTld pg)) pg"
    unfolding create_network_def wp_bind wp_read sum.case prod.case wp_catch wp_block wp_seq
    by (rule wp_api) (simp add: change_simps split: sum.split)
  show "wp (remove_network env) (\<lambda>r pg'. r = Inr () \<and> nw_removeTarget pg' = None \<and>
       (nw_removeTarget pg = None \<or> accepted pg pg' \<or> refused pg pg')) pg"
    unfolding remove_network_def wp_bind wp_read sum.case
    by (cases "nw_removeTarget pg"; simp add: wp_return wp_finally wp_catch wp_seq; rule wp_api)
      (simp add: change_simps split: sum.split)
  show "wp (addPeer env network) (\<lambda>r pd'. r = Inr () \<and>
       (accepted pd pd' \<and> pd_peerName pd' = [] \<or>
        refused pd pd' \<and> pd_peerName pd' = pd_peerName pd \<and> pd_generatedConfig pd' = pd_generatedConfig pd)) pd"
    unfolding addPeer_def wp_bind wp_read sum.case prod.case wp_catch
    by (rule wp_api) (simp add: change_simps split: sum.split option.split)
  show "wp (removePeer env network key) (\<lambda>r pd'. r = Inr () \<and> (accepted pd pd' \<or> refused pd pd')) pd"
    unfolding removePeer_def wp_catch wp_block wp_seq by (rule wp_api) (simp add: change_simps split: sum.split)
  show "wp (disconnectPeer env) (\<lambda>r cp'. r = Inr () \<and> cp_disconnectTarget cp' = None \<and>
       (cp_disconnectTarget cp = None \<or> \<not> cp_disconnecting cp' \<and> (accepted cp cp' \<or> refused cp cp'))) cp"
    unfolding disconnectPeer_def wp_bind wp_read sum.case
    by (cases "cp_disconnectTarget cp"; simp add: wp_return wp_seq wp_set wp_finally wp_catch; rule wp_api)
      (simp add: change_simps split: sum.split)
qed

text \<open>The default network is never removed: clicking and confirming sends a request exactly for
  the network clicked on, when an administrator clicked and it is not the default one.\<close>

theorem default_network_stays:
  assumes "en_net env = recording a" "nw_removeTarget pg = None"
  shows "wp (block [remove_clicked admin name, remove_network env]) (\<lambda>r pg'. r = Inr () \<and> nw_removeTarget pg' = None \<and>
    pg_net pg' = pg_net pg @
      (if admin \<and> name \<noteq> DEFAULT_NETWORK
       then [post_request (getClient (pg_storage pg) (pg_client pg)) ''/networks/remove'' (JObj [(''name'', JStr name)])]
       else [])) pg"
proof (cases "remove_offered admin name")
  case True
  then have "admin" "name \<noteq> DEFAULT_NETWORK" by (simp_all add: remove_offered_def)
  then show ?thesis
    by (simp add: remove_clicked_def remove_offered_def wp_seq wp_set remove_network_def wp_bind wp_read wp_finally wp_catch removeNetwork_def
        assms(1))
      (rule wp_recording_ignore_json; auto simp: wp_simps split: sum.split)
next
  case False
  then show ?thesis using assms(2) by (auto simp: remove_clicked_def remove_network_def wp_simps remove_offered_def)
qed

theorem default_network_stays_witness:
  "wp (block [remove_clicked True ''home'', remove_network \<lparr>en_net = recording (\<lambda>_ _. Inl TypeErr), en_message = (\<lambda>_. [])\<rparr>])
     (\<lambda>r pg'. pg_net pg' = [])
     \<lparr>pg_net = [], pg_storage = \<lparr>st_local = Map.empty, st_session = Map.empty\<rparr>, pg_client = newClient [], pg_log = [],
      pg_refreshKey = 0, nw_pending = [], nw_createOpen = False, nw_newName = [], nw_newTld = [],
      nw_removeTarget = None, nw_peersTarget = None\<rparr>"
  by (rule wp_weaken [OF default_network_stays [where a = "\<lambda>_ _. Inl TypeErr"]]) (simp_all add: DEFAULT_NETWORK_def)

end
