(* ===== verification/ObjectsPage.thy ===== *)
theory ObjectsPage
  imports PageEffects ClientNetwork
begin

text \<open>
  Object storage: the shared panel \<^verbatim>\<open>routes/objects/ObjectStoragePanel.jsx\<close> with its tabs of
  addresses, users, grants and published links.  A partition belongs to a network; the
  selection is kept in the address bar.  The tabs stay mounted when another partition is
  selected, so the network is an argument of their handlers.
\<close>

section \<open>The panel\<close>

record partition =
  pt_network :: string
  pt_running :: bool
  pt_names :: "json list"

definition GRANT_GFEH :: string where "GRANT_GFEH = ''gfeh''"

text \<open>The account fetched now counts, or else the one stored at login.\<close>

record grantee =
  ge_admin :: bool
  ge_grants :: "string list"

definition canManage :: "grantee option \<Rightarrow> grantee option \<Rightarrow> bool" where
  "canManage me account =
     (case (case me of Some g \<Rightarrow> Some g | None \<Rightarrow> account) of
        None \<Rightarrow> False
      | Some g \<Rightarrow> ge_admin g \<or> GRANT_GFEH \<in> set (ge_grants g))"


definition selected_network :: "string option \<Rightarrow> partition list \<Rightarrow> string" where
  "selected_network param partitions =
     (if given param then the param
      else (case partitions of [] \<Rightarrow> [] | p # _ \<Rightarrow> pt_network p))"

definition shown_partition :: "string option \<Rightarrow> partition list \<Rightarrow> partition option" where
  "shown_partition param partitions = find (\<lambda>p. pt_network p = selected_network param partitions) partitions"

text \<open>The address bar: \<open>URLSearchParams.set\<close> keeps every other key.\<close>

definition setParam :: "string \<Rightarrow> string \<Rightarrow> search_params \<Rightarrow> search_params" where
  "setParam key value prev = params_set prev key value"

text \<open>\<open>formatBytes\<close> of the panel: the division stops at the largest unit.\<close>

fun scale_units :: "int \<Rightarrow> nat \<Rightarrow> nat" where
  "scale_units bytes 0 = 0"
| "scale_units bytes (Suc left) = (if 1024 \<le> bytes then Suc (scale_units (bytes div 1024) left) else 0)"

definition object_units :: "string list" where
  "object_units = [''B'', ''KB'', ''MB'', ''GB'', ''TB'']"

definition to_fixed1 :: "int \<Rightarrow> int \<Rightarrow> string" where
  "to_fixed1 n d = (let t = (2 * 10 * n + d) div (2 * d) in int_str (t div 10) @ ''.'' @ int_str (t mod 10))"

definition formatBytes_objects :: "int \<Rightarrow> string" where
  "formatBytes_objects bytes =
     (let u = scale_units bytes 4; d = 1024 ^ u
      in (if bytes mod d = 0 then int_str (bytes div d) else to_fixed1 bytes d) @ '' '' @ object_units ! u)"

section \<open>The addresses\<close>

datatype overview =
    NoPartition
  | NoNames string
  | Names "json list"

definition overview_of :: "partition option \<Rightarrow> overview" where
  "overview_of p =
     (case p of
        None \<Rightarrow> NoPartition
      | Some pt \<Rightarrow>
          if pt_names pt = []
          then NoNames (if pt_running pt then ''objects.no_names'' else ''objects.stopped_no_names'')
          else Names (pt_names pt))"

text \<open>An address is a link, and has no port, exactly when the ingress serves it.\<close>

definition address_link :: "json \<Rightarrow> string option" where
  "address_link row =
     (if truthy (js_opt_prop row ''http'') then Some (''https://'' @ js_string (js_opt_prop row ''fqdn'')) else None)"

section \<open>The users\<close>

record 'w users_tab = "'w page" +
  ut_addOpen :: bool
  ut_selectedAccount :: string
  ut_removeTarget :: "string option"
  ut_busy :: bool
  ut_panelRefresh :: nat

text \<open>The accounts to choose from; an answer that is no list, or none at all, is an empty list.\<close>

definition accounts_listed :: "js_error + json \<Rightarrow> json list" where
  "accounts_listed answer =
     (case answer of
        Inl _ \<Rightarrow> []
      | Inr r \<Rightarrow> (case js_opt_prop r ''entries'' of JArr xs \<Rightarrow> xs | _ \<Rightarrow> []))"

definition account_names :: "js_error + json \<Rightarrow> string list" where
  "account_names answer = map (\<lambda>a. js_string (js_opt_prop a ''username'')) (accounts_listed answer)"

definition candidates :: "string list \<Rightarrow> string list \<Rightarrow> string list" where
  "candidates accounts principals = filter (\<lambda>a. \<not> list_ex (\<lambda>p. p = a) principals) accounts"

definition add_user_usable :: "bool \<Rightarrow> string list \<Rightarrow> bool" where
  "add_user_usable can cs \<longleftrightarrow> can \<and> cs \<noteq> []"

definition users_refresh :: "('w users_tab, js_error, unit) eff" where
  "users_refresh = eff_seq doRefresh (page_set (\<lambda>pg. pg\<lparr>ut_panelRefresh := ut_panelRefresh pg + 1\<rparr>))"

definition add_principal :: "'w env \<Rightarrow> string \<Rightarrow> ('w users_tab, js_error, unit) eff" where
  "add_principal env network =
     eff_bind (page_read ut_selectedAccount) (\<lambda>selectedAccount.
       if selectedAccount = [] then eff_return ()
       else eff_seq (page_set (\<lambda>pg. pg\<lparr>ut_busy := True\<rparr>))
         (eff_finally
           (eff_catch
             (block
               [eff_bind (api (\<lambda>c. addGfehPrincipal (en_net env) c network selectedAccount)) (\<lambda>_. eff_return ()),
                show_toast (Success ''objects.toast_user_added''),
                page_set (\<lambda>pg. pg\<lparr>ut_addOpen := False, ut_selectedAccount := []\<rparr>),
                users_refresh])
             (toast_error env))
           (page_set (\<lambda>pg. pg\<lparr>ut_busy := False\<rparr>))))"

definition remove_principal :: "'w env \<Rightarrow> string \<Rightarrow> string \<Rightarrow> ('w users_tab, js_error, unit) eff" where
  "remove_principal env network name =
     eff_seq (page_set (\<lambda>pg. pg\<lparr>ut_busy := True\<rparr>))
       (eff_finally
         (eff_catch
           (block
             [api (\<lambda>c. removeGfehPrincipal (en_net env) c network name),
              show_toast (Success ''objects.toast_user_removed''),
              page_set (\<lambda>pg. pg\<lparr>ut_removeTarget := None\<rparr>),
              users_refresh])
           (toast_error env))
         (page_set (\<lambda>pg. pg\<lparr>ut_busy := False\<rparr>)))"

section \<open>The grants\<close>

definition PERMISSIONS :: "string list" where
  "PERMISSIONS = [''read'', ''list'', ''create'', ''write'', ''delete'', ''meta-read'', ''meta-write'', ''share'',
     ''admin-acl'', ''create-subuser'', ''read-audit'', ''federate'', ''publish-http'', ''publish-ipfs'', ''snapshot'', ''quota'']"

record 'w grants_tab = "'w page" +
  gr_principal :: string
  gr_addOpen :: bool
  gr_perms :: "string list"
  gr_revokeTarget :: "int option"
  gr_busy :: bool

definition principal_chosen :: "string \<Rightarrow> ('w grants_tab, js_error, unit) eff" where
  "principal_chosen p = page_set (\<lambda>pg. pg\<lparr>gr_principal := p\<rparr>)"

definition toggle_perm :: "string \<Rightarrow> string list \<Rightarrow> string list" where
  "toggle_perm perm current = (if perm \<in> set current then filter (\<lambda>p. p \<noteq> perm) current else current @ [perm])"

definition togglePerm :: "string \<Rightarrow> ('w grants_tab, js_error, unit) eff" where
  "togglePerm perm = page_set (\<lambda>pg. pg\<lparr>gr_perms := toggle_perm perm (gr_perms pg)\<rparr>)"

definition grant_dialog_changed :: "bool \<Rightarrow> ('w grants_tab, js_error, unit) eff" where
  "grant_dialog_changed shown = page_set (\<lambda>pg. pg\<lparr>gr_addOpen := shown\<rparr>)"

text \<open>\<open>v.length\<close>\<close>

definition json_length :: "json \<Rightarrow> js_error + json" where
  "json_length v =
     (case v of
        JArr xs \<Rightarrow> Inr (JNum (int (length xs)))
      | JStr s \<Rightarrow> Inr (JNum (int (js_length s)))
      | _ \<Rightarrow> (case js_prop v ''length'' of None \<Rightarrow> Inl TypeErr | Some n \<Rightarrow> Inr n))"

text \<open>Whether a grant came back smaller (or larger) than it was asked for.\<close>

definition clamped :: "json \<Rightarrow> string list \<Rightarrow> js_error + bool" where
  "clamped granted perms =
     (case js_prop granted ''perm'' of
        None \<Rightarrow> Inl TypeErr
      | Some perm \<Rightarrow> (case json_length perm of Inl e \<Rightarrow> Inl e | Inr n \<Rightarrow> Inr (n \<noteq> JNum (int (length perms)))))"

definition add_grant :: "'w env \<Rightarrow> string \<Rightarrow> string \<Rightarrow> bool \<Rightarrow> ('w grants_tab, js_error, unit) eff" where
  "add_grant env network path_field inheritable =
     (let path = js_trim path_field in
      eff_bind (page_read (\<lambda>pg. (gr_principal pg, gr_perms pg))) (\<lambda>(principal, perms).
        if path = [] \<or> perms = [] then eff_return ()
        else eff_seq (page_set (\<lambda>pg. pg\<lparr>gr_busy := True\<rparr>))
          (eff_finally
            (eff_catch
              (eff_bind (api (\<lambda>c. addGfehGrant (en_net env) c network principal path perms inheritable)) (\<lambda>granted.
                eff_bind (eff_lift (clamped granted perms)) (\<lambda>c.
                  block
                    [show_toast (if c then Warning ''objects.grant_clamped'' else Success ''objects.toast_grant_added''),
                     page_set (\<lambda>pg. pg\<lparr>gr_addOpen := False, gr_perms := []\<rparr>),
                     doRefresh])))
              (toast_error env))
            (page_set (\<lambda>pg. pg\<lparr>gr_busy := False\<rparr>)))))"

definition revoke_grant :: "'w env \<Rightarrow> string \<Rightarrow> int \<Rightarrow> ('w grants_tab, js_error, unit) eff" where
  "revoke_grant env network grant_id =
     eff_seq (page_set (\<lambda>pg. pg\<lparr>gr_busy := True\<rparr>))
       (eff_finally
         (eff_catch
           (block
             [api (\<lambda>c. revokeGfehGrant (en_net env) c network grant_id),
              show_toast (Success ''objects.toast_grant_revoked''),
              page_set (\<lambda>pg. pg\<lparr>gr_revokeTarget := None\<rparr>),
              doRefresh])
           (toast_error env))
         (page_set (\<lambda>pg. pg\<lparr>gr_busy := False\<rparr>)))"

section \<open>The links\<close>

record 'w links_tab = "'w page" +
  lt_withdrawTarget :: "string option"
  lt_busy :: bool

datatype link_cell = TokenOnly | PlainUrl string | Anchor string

definition link_cell_of :: "string \<Rightarrow> bool \<Rightarrow> link_cell" where
  "link_cell_of url enabled = (if url = [] then TokenOnly else if \<not> enabled then PlainUrl url else Anchor url)"

definition copy_link :: "clipboard \<Rightarrow> ('w links_tab, js_error, unit) eff" where
  "copy_link c =
     eff_catch
       (eff_seq (eff_lift (copyToClipboard c)) (show_toast (Success ''dashboard.copied_label'')))
       (\<lambda>_. show_toast (FailureKey ''networks.toast_copy_failed''))"

definition anyPubliclyListed :: "(string \<times> bool) list \<Rightarrow> bool" where
  "anyPubliclyListed exposures = list_ex (\<lambda>(url, enabled). enabled \<and> url \<noteq> []) exposures"

definition withdraw_link :: "'w env \<Rightarrow> string \<Rightarrow> string \<Rightarrow> ('w links_tab, js_error, unit) eff" where
  "withdraw_link env network tok =
     eff_seq (page_set (\<lambda>pg. pg\<lparr>lt_busy := True\<rparr>))
       (eff_finally
         (eff_catch
           (block
             [api (\<lambda>c. withdrawGfehExposure (en_net env) c network tok),
              show_toast (Success ''objects.toast_link_withdrawn''),
              page_set (\<lambda>pg. pg\<lparr>lt_withdrawTarget := None\<rparr>),
              doRefresh])
           (toast_error env))
         (page_set (\<lambda>pg. pg\<lparr>lt_busy := False\<rparr>)))"

section \<open>The server's guards\<close>

text \<open>
  Of the backend: the guards of the routes the tabs use, \<^verbatim>\<open>account/grants.go\<close> and
  \<^verbatim>\<open>svc/systemcontroller/controller_auth.go\<close>, for a request with a valid session.
\<close>

definition HasGrant :: "grantee \<Rightarrow> string \<Rightarrow> bool" where
  "HasGrant a name \<longleftrightarrow> ge_admin a \<or> name \<in> set (ge_grants a)"

definition Restricted :: "grantee \<Rightarrow> bool" where
  "Restricted a \<longleftrightarrow> \<not> ge_admin a \<and> ge_grants a \<noteq> []"

definition grantRoutes :: "(string \<times> string) list" where
  "grantRoutes =
     [(''GET /networks/peers'', ''wireguard''), (''POST /networks/peers/add'', ''wireguard''),
      (''POST /networks/peers/refresh'', ''wireguard''),
      (''GET /gfeh'', ''gfeh''), (''GET /gfeh/principals'', ''gfeh''), (''POST /gfeh/principals/add'', ''gfeh''),
      (''POST /gfeh/principals/remove'', ''gfeh''), (''GET /gfeh/grants'', ''gfeh''), (''POST /gfeh/grants/add'', ''gfeh''),
      (''POST /gfeh/grants/revoke'', ''gfeh''), (''GET /gfeh/exposures'', ''gfeh''),
      (''POST /gfeh/exposures/withdraw'', ''gfeh'')]"

definition grantCommonRoutes :: "string list" where
  "grantCommonRoutes =
     [''POST /account/authenticate'', ''GET /account/me'', ''GET /networks'', ''GET /dns/services'', ''GET /tls/ca.crt'',
      ''GET /status/ping'']"

definition grantAllows :: "grantee \<Rightarrow> string \<Rightarrow> string \<Rightarrow> bool" where
  "grantAllows a meth path =
     (let route = meth @ '' '' @ path
      in if route \<in> set grantCommonRoutes then True
         else (case map_of grantRoutes route of None \<Rightarrow> False | Some needed \<Rightarrow> HasGrant a needed))"

definition grantAllowlist :: "grantee \<Rightarrow> string \<Rightarrow> string \<Rightarrow> bool" where
  "grantAllowlist a meth path \<longleftrightarrow> \<not> Restricted a \<or> grantAllows a meth path"

definition requireObjectStorage :: "grantee \<Rightarrow> bool" where
  "requireObjectStorage a \<longleftrightarrow> HasGrant a GRANT_GFEH"

text \<open>The requests behind the buttons of the tabs.\<close>

definition object_mutations :: "string list" where
  "object_mutations = [''/gfeh/principals/add'', ''/gfeh/principals/remove'', ''/gfeh/grants/add'', ''/gfeh/grants/revoke'',
     ''/gfeh/exposures/withdraw'']"

section \<open>Theorems\<close>

text \<open>C36: the buttons are shown for exactly the accounts the server admits: decided on an account,
  read again or stored at login, managing a partition is offered if and only if every request
  the buttons send for that account passes both guards of the server, and if it is not, all
  of them are refused.\<close>

theorem buttons_match_server:
  "list_all (\<lambda>path. (grantAllowlist g ''POST'' path \<and> requireObjectStorage g) = canManage (Some g) stored) object_mutations \<and>
   list_all (\<lambda>path. (grantAllowlist g ''POST'' path \<and> requireObjectStorage g) = canManage None (Some g)) object_mutations"
proof -
  have routes: "list_all (\<lambda>path. (''POST'' @ '' '' @ path) \<notin> set grantCommonRoutes \<and>
      map_of grantRoutes (''POST'' @ '' '' @ path) = Some ''gfeh'') object_mutations" by code_simp
  then have "grantAllows g ''POST'' path = HasGrant g ''gfeh''" if "path \<in> set object_mutations" for path
    using that by (simp add: grantAllows_def list_all_iff)
  then show ?thesis
    by (auto simp: list_all_iff grantAllowlist_def requireObjectStorage_def canManage_def HasGrant_def GRANT_GFEH_def)
qed

text \<open>But an account that manages a partition by its grant cannot add users to it on this page: the
  list of accounts to choose from is a request the server refuses it, so nobody is offered.\<close>

theorem grantee_offered_nobody:
  assumes "\<not> ge_admin me" "GRANT_GFEH \<in> set (ge_grants me)"
    and "grantAllowlist me ''GET'' ''/account'' \<or> answer = Inl refusal"
  shows "canManage (Some me) stored \<and> \<not> add_user_usable (canManage (Some me) stored) (candidates (account_names answer) principals)"
proof -
  have "(''GET'' @ '' '' @ ''/account'') \<notin> set grantCommonRoutes" "map_of grantRoutes (''GET'' @ '' '' @ ''/account'') = None"
    by code_simp+
  then have "\<not> grantAllowlist me ''GET'' ''/account''"
    using assms by (auto simp: grantAllowlist_def Restricted_def grantAllows_def)
  then show ?thesis
    using assms by (auto simp: canManage_def candidates_def account_names_def accounts_listed_def add_user_usable_def)
qed

theorem grantee_offered_nobody_witness:
  "\<not> add_user_usable (canManage (Some \<lparr>ge_admin = False, ge_grants = [''gfeh'']\<rparr>) None)
     (candidates (account_names (Inl TypeErr)) [''bob''])"
  using grantee_offered_nobody [where me = "\<lparr>ge_admin = False, ge_grants = [''gfeh'']\<rparr>" and answer = "Inl TypeErr" and refusal = TypeErr
      and stored = None and principals = "[''bob'']"]
  by (simp add: GRANT_GFEH_def canManage_def)



text \<open>The permissions ticked are a set: in any order of clicks no permission is ticked twice, and
  one is ticked if and only if it was clicked an odd number of times.\<close>

theorem perms_are_toggled:
  "distinct (foldr toggle_perm clicks []) \<and>
   (perm \<in> set (foldr toggle_perm clicks []) \<longleftrightarrow> odd (count_list clicks perm))"
  by (induction clicks) (auto simp: toggle_perm_def)

definition grant_request :: "('w, 'm) page_scheme \<Rightarrow> string \<Rightarrow> string \<Rightarrow> string \<Rightarrow> string list \<Rightarrow> bool \<Rightarrow> request" where
  "grant_request pg network princ path perm inheritable =
     post_request (getClient (pg_storage pg) (pg_client pg)) ''/gfeh/grants/add''
       (JObj [(''network'', JStr network), (''principal'', JStr princ), (''path'', JStr path),
              (''perm'', str_list perm), (''inheritable'', JBool inheritable)])"

text \<open>What adding a grant does, by the form and the answer.\<close>

lemma add_grant_outcome:
  assumes "en_net env = recording a"
  shows "wp (add_grant env network path_field inheritable) (\<lambda>r pg'. r = Inr () \<and>
    (if js_trim path_field = [] \<or> gr_perms pg = [] then pg' = pg
     else pg_net pg' = pg_net pg @ [grant_request pg network (gr_principal pg) (js_trim path_field) (gr_perms pg) inheritable] \<and>
       \<not> gr_busy pg' \<and>
       ((\<exists>e. pg_log pg' = pg_log pg @ [Failure e]) \<and> gr_perms pg' = gr_perms pg \<and> gr_addOpen pg' = gr_addOpen pg \<or>
        (\<exists>granted b. clamped granted (gr_perms pg) = Inr b \<and> gr_perms pg' = [] \<and> \<not> gr_addOpen pg' \<and>
          pg_log pg' = pg_log pg @ [if b then Warning ''objects.grant_clamped'' else Success ''objects.toast_grant_added''])))) pg"
proof (cases "js_trim path_field = [] \<or> gr_perms pg = []")
  case True
  then show ?thesis by (auto simp: add_grant_def Let_def wp_simps)
next
  case False
  let ?R = "\<lambda>r pg'. r = Inr () \<and>
      pg_net pg' = pg_net pg @ [grant_request pg network (gr_principal pg) (js_trim path_field) (gr_perms pg) inheritable] \<and>
      \<not> gr_busy pg' \<and>
      ((\<exists>e. pg_log pg' = pg_log pg @ [Failure e]) \<and> gr_perms pg' = gr_perms pg \<and> gr_addOpen pg' = gr_addOpen pg \<or>
       (\<exists>granted b. clamped granted (gr_perms pg) = Inr b \<and> gr_perms pg' = [] \<and> \<not> gr_addOpen pg' \<and>
         pg_log pg' = pg_log pg @ [if b then Warning ''objects.grant_clamped'' else Success ''objects.toast_grant_added'']))"
  have "wp (add_grant env network path_field inheritable) ?R pg"
    unfolding add_grant_def Let_def wp_bind wp_read sum.case prod.case if_not_P [OF False] wp_seq wp_set wp_finally wp_catch
      addGfehGrant_def assms
  proof (rule wp_recording_postJSON, goal_cases)
    case (1 r c)
    then show ?case
    proof (cases r)
      case (Inr granted)
      show ?thesis
      proof (cases "clamped granted (gr_perms pg)")
        case (Inl e)
        then show ?thesis by (simp add: 1 Inr wp_simps grant_request_def)
      next
        case clamp: (Inr b)
        then show ?thesis by (cases b) (simp_all add: 1 Inr wp_simps grant_request_def, blast+)
      qed
    qed (simp add: 1 wp_simps grant_request_def)
  qed
  then show ?thesis using False by simp
qed


definition witness_tab :: "request list grants_tab" where
  "witness_tab = \<lparr>pg_net = [], pg_storage = \<lparr>st_local = Map.empty, st_session = Map.empty\<rparr>, pg_client = newClient [], pg_log = [],
      pg_refreshKey = 0, gr_principal = ''alice'', gr_addOpen = True, gr_perms = [''read''], gr_revokeTarget = None, gr_busy = False\<rparr>"


text \<open>The user chosen stays chosen when another partition is selected, so the grant is asked for in a
  partition that user may not belong to.\<close>

theorem user_kept_across_partitions:
  assumes "en_net env = recording a" "js_trim path_field \<noteq> []" "gr_perms pg \<noteq> []"
    and "shown_partition param ps = Some p2"
  shows "wp (block [principal_chosen user, add_grant env (selected_network param ps) path_field inheritable])
    (\<lambda>r pg'. pg_net pg' = pg_net pg @
      [grant_request pg (pt_network p2) user (js_trim path_field) (gr_perms pg) inheritable]) pg"
proof -
  have "pt_network p2 = selected_network param ps"
    using assms(4) by (auto simp: shown_partition_def find_Some_iff)
  then show ?thesis
    unfolding wp_block wp_seq principal_chosen_def wp_set sum.case
    by (intro wp_weaken [OF add_grant_outcome [OF assms(1)]])
      (use assms(2,3) in \<open>auto simp: grant_request_def split: if_splits\<close>)
qed

theorem user_kept_across_partitions_witness:
  "wp (block [principal_chosen ''alice'', add_grant \<lparr>en_net = recording (\<lambda>_ _. Inl TypeErr), en_message = (\<lambda>_. [])\<rparr>
        (selected_network (Some ''lab'') [\<lparr>pt_network = ''lab'', pt_running = True, pt_names = []\<rparr>]) ''/'' True])
     (\<lambda>r pg'. pg_net pg' = pg_net witness_tab @ [grant_request witness_tab ''lab'' ''alice'' ''/'' [''read''] True]) witness_tab"
  using user_kept_across_partitions [of "\<lparr>en_net = recording (\<lambda>_ _. Inl TypeErr), en_message = (\<lambda>_. [])\<rparr>"
      "\<lambda>_ _. Inl TypeErr" "''/''" witness_tab "Some ''lab''" "[\<lparr>pt_network = ''lab'', pt_running = True, pt_names = []\<rparr>]"
      "\<lparr>pt_network = ''lab'', pt_running = True, pt_names = []\<rparr>" "''alice''" True]
  by (simp add: js_trim_def is_js_space_def shown_partition_def selected_network_def given_def witness_tab_def)

lemma find_sound: "find P xs = Some q \<Longrightarrow> q \<in> set xs \<and> P q"
  by (induction xs) (auto split: if_splits)

text \<open>Which partition is worked on: one that is shown is the one selected; without a selection it
  is the first; and a link to a network without a partition shows none.\<close>

theorem selected_partition:
  "(case shown_partition param (p # ps) of
      Some q \<Rightarrow> q \<in> set (p # ps) \<and> pt_network q = selected_network param (p # ps)
    | None \<Rightarrow> given param \<and> the param \<notin> pt_network ` set (p # ps)) \<and>
   shown_partition None (p # ps) = Some p"
proof
  show "case shown_partition param (p # ps) of
      Some q \<Rightarrow> q \<in> set (p # ps) \<and> pt_network q = selected_network param (p # ps)
    | None \<Rightarrow> given param \<and> the param \<notin> pt_network ` set (p # ps)"
  proof (cases "shown_partition param (p # ps)")
    case None
    then have absent: "\<forall>q\<in>set (p # ps). pt_network q \<noteq> selected_network param (p # ps)"
      by (auto simp: shown_partition_def find_None_iff simp del: find.simps)
    then have "given param" by (auto simp: selected_network_def split: if_splits)
    with absent None show ?thesis by (auto simp: selected_network_def)
  next
    case (Some q)
    with find_sound [OF this [unfolded shown_partition_def]] show ?thesis by simp
  qed
  show "shown_partition None (p # ps) = Some p"
    by (simp add: shown_partition_def selected_network_def given_def)
qed

text \<open>Copying a link says what happened.\<close>

lemma copy_link_truthful:
  "wp (copy_link c) (\<lambda>r lt'. r = Inr () \<and>
     pg_log lt' = pg_log lt @ [if text_copied c then Success ''dashboard.copied_label'' else FailureKey ''networks.toast_copy_failed'']) lt"
  by (simp add: copy_link_def wp_simps copyToClipboard_def text_copied_def split: option.split)

text \<open>The notice that files are public stands exactly when a link of the table can be clicked.\<close>

theorem listed_iff_clickable:
  "anyPubliclyListed exposures \<longleftrightarrow> list_ex (\<lambda>(url, enabled). link_cell_of url enabled = Anchor url) exposures"
  by (induction exposures) (auto simp: anyPubliclyListed_def link_cell_of_def)

text \<open>A size is shown in the largest unit it fills: below a kibibyte plainly, and from a
  mebibyte on never with a number under one or, short of tebibytes, of 1024 and more.\<close>

theorem size_unit_fits:
  assumes "0 < bytes"
  shows "let u = scale_units bytes left in
    1024 ^ u \<le> bytes \<and> u \<le> left \<and> (u < left \<longrightarrow> bytes < 1024 ^ Suc u)"
  using assms
proof (induction left arbitrary: bytes)
  case (Suc left)
  show ?case
  proof (cases "1024 \<le> bytes")
    case True
    then have "0 < bytes div 1024" by (simp add: pos_imp_zdiv_pos_iff)
    from Suc.IH [OF this] show ?thesis
      using True by (auto simp: Let_def)
  qed (use Suc.prems in \<open>simp add: Let_def\<close>)
qed (simp add: Let_def)

theorem size_unit_fits_witness: "1024 ^ scale_units 5000 4 \<le> (5000 :: int)"
  using size_unit_fits [of 5000 4] by (simp add: Let_def)

text \<open>Every change made on the tabs is reported once.\<close>

theorem object_changes_reported:
  "wp (remove_principal env network name) (\<lambda>r u'. r = Inr () \<and> \<not> ut_busy u' \<and>
       (accepted ut u' \<and> ut_removeTarget u' = None \<and> ut_panelRefresh u' = ut_panelRefresh ut + 1 \<or>
        refused ut u' \<and> ut_removeTarget u' = ut_removeTarget ut)) ut \<and>
   wp (add_principal env network) (\<lambda>r u'. r = Inr () \<and> (ut_selectedAccount ut = [] \<or> \<not> ut_busy u' \<and>
       (accepted ut u' \<and> \<not> ut_addOpen u' \<or> refused ut u' \<and> ut_selectedAccount u' = ut_selectedAccount ut))) ut \<and>
   wp (revoke_grant env network k) (\<lambda>r g'. r = Inr () \<and> \<not> gr_busy g' \<and>
       (accepted gt g' \<and> gr_revokeTarget g' = None \<or> refused gt g' \<and> gr_revokeTarget g' = gr_revokeTarget gt)) gt \<and>
   wp (withdraw_link env network tok) (\<lambda>r l'. r = Inr () \<and> \<not> lt_busy l' \<and>
       (accepted lt l' \<and> lt_withdrawTarget l' = None \<or> refused lt l' \<and> lt_withdrawTarget l' = lt_withdrawTarget lt)) lt"
proof (intro conjI)
  show "wp (remove_principal env network name) (\<lambda>r u'. r = Inr () \<and> \<not> ut_busy u' \<and>
       (accepted ut u' \<and> ut_removeTarget u' = None \<and> ut_panelRefresh u' = ut_panelRefresh ut + 1 \<or>
        refused ut u' \<and> ut_removeTarget u' = ut_removeTarget ut)) ut"
    unfolding remove_principal_def wp_block wp_seq wp_set sum.case wp_finally wp_catch
    by (rule wp_api) (simp add: change_simps users_refresh_def split: sum.split)
  show "wp (add_principal env network) (\<lambda>r u'. r = Inr () \<and> (ut_selectedAccount ut = [] \<or> \<not> ut_busy u' \<and>
       (accepted ut u' \<and> \<not> ut_addOpen u' \<or> refused ut u' \<and> ut_selectedAccount u' = ut_selectedAccount ut))) ut"
  proof (cases "ut_selectedAccount ut = []")
    case False
    then show ?thesis
      unfolding add_principal_def wp_bind wp_read sum.case if_not_P [OF False] wp_block wp_seq wp_set wp_finally wp_catch
      by (intro wp_api) (simp add: change_simps users_refresh_def split: sum.split)
  qed (simp add: add_principal_def wp_simps)
  show "wp (revoke_grant env network k) (\<lambda>r g'. r = Inr () \<and> \<not> gr_busy g' \<and>
       (accepted gt g' \<and> gr_revokeTarget g' = None \<or> refused gt g' \<and> gr_revokeTarget g' = gr_revokeTarget gt)) gt"
    unfolding revoke_grant_def wp_block wp_seq wp_set sum.case wp_finally wp_catch
    by (rule wp_api) (simp add: change_simps split: sum.split)
  show "wp (withdraw_link env network tok) (\<lambda>r l'. r = Inr () \<and> \<not> lt_busy l' \<and>
       (accepted lt l' \<and> lt_withdrawTarget l' = None \<or> refused lt l' \<and> lt_withdrawTarget l' = lt_withdrawTarget lt)) lt"
    unfolding withdraw_link_def wp_block wp_seq wp_set sum.case wp_finally wp_catch
    by (rule wp_api) (simp add: change_simps split: sum.split)
qed

end
