(* ===== verification/HomePage.thy ===== *)
theory HomePage
  imports ClientAccount ClientPackage PageEffects QueryString
begin

text \<open>
  The first screen and the frame around all screens: \<^verbatim>\<open>routes/DashboardHome.jsx\<close> with its panel
  of services, the banner of upgrades and the copy button; \<^verbatim>\<open>components/layout/Dashboard.jsx\<close>; and
  \<^verbatim>\<open>routes/MonitoringDashboard.jsx\<close>, which decides what the charts are drawn from.
\<close>

section \<open>Package identifiers\<close>

record package_id =
  pi_repo :: string
  pi_name :: string
  pi_version :: string

definition parsePackageIdentifier :: "string \<Rightarrow> package_id option" where
  "parsePackageIdentifier ident =
     (if ident = [] then None
      else case last_index_of_char CHR ''@'' ident of
        None \<Rightarrow> None
      | Some atIdx \<Rightarrow>
          let before = take atIdx ident; version = drop (Suc atIdx) ident in
          (case index_of_char CHR ''/'' before of
             None \<Rightarrow> None
           | Some slashIdx \<Rightarrow>
               Some \<lparr>pi_repo = take slashIdx before, pi_name = drop (Suc slashIdx) before, pi_version = version\<rparr>))"

section \<open>The panel of services\<close>

text \<open>The notes of a package that are addresses to open, in the order they are listed.\<close>

definition https_note :: "json \<Rightarrow> string \<times> json \<Rightarrow> (string \<times> string) list" where
  "https_note info note =
     (let (label, value) = note in
      if js_opt_prop (js_opt_prop info ''note_types'') label \<noteq> JStr ''url'' then []
      else (case value of
              JStr s \<Rightarrow> if starts_with ''https://'' s then [(label, s)] else []
            | _ \<Rightarrow> []))"

definition httpsNotes :: "json \<Rightarrow> (string \<times> string) list" where
  "httpsNotes info =
     (if \<not> truthy info \<or> \<not> truthy (js_opt_prop info ''notes'') then []
      else concat (map (https_note info) (own_fields (js_opt_prop info ''notes''))))"

definition service_query :: "string \<Rightarrow> string" where
  "service_query packageIdentifier = ''search='' @ encodeURIComponent packageIdentifier"

definition serviceLink :: "string \<Rightarrow> string" where
  "serviceLink packageIdentifier = ''/dashboard/system?'' @ service_query packageIdentifier"

text \<open>
  The notes are fetched by an effect that runs whenever the list of services was polled: once
  for every package, remembered in a ref.  \<open>ns_asked\<close> are the requests sent, \<open>ns_pending\<close> those
  not answered yet.
\<close>

record notes_state =
  ns_fetched :: "string list"
  ns_asked :: "(string \<times> package_id) list"
  ns_pending :: "string list"
  ns_notes :: "json obj"

definition notes_start :: notes_state where
  "notes_start = \<lparr>ns_fetched = [], ns_asked = [], ns_pending = [], ns_notes = []\<rparr>"

definition fetch_notes :: "string \<Rightarrow> notes_state \<Rightarrow> notes_state" where
  "fetch_notes ident s =
     (if ident = [] \<or> ident \<in> set (ns_fetched s) then s
      else let s' = s\<lparr>ns_fetched := ns_fetched s @ [ident]\<rparr> in
        (case parsePackageIdentifier ident of
           None \<Rightarrow> s'
         | Some parsed \<Rightarrow> s'\<lparr>ns_asked := ns_asked s @ [(ident, parsed)], ns_pending := ns_pending s @ [ident]\<rparr>))"

definition notes_answered :: "string \<Rightarrow> js_error + json \<Rightarrow> notes_state \<Rightarrow> notes_state" where
  "notes_answered ident answer s =
     (case answer of
        Inl _ \<Rightarrow> s
      | Inr info \<Rightarrow>
          (case js_prop info ''notes'' of
             None \<Rightarrow> s
           | Some notes \<Rightarrow>
               if truthy notes \<and> js_keys notes \<noteq> [] then s\<lparr>ns_notes := obj_set (ns_notes s) ident info\<rparr> else s))"

datatype notes_event =
    RootsPolled "string list"
  | InfoAnswered string "js_error + json"

definition notes_step :: "notes_state \<Rightarrow> notes_event \<Rightarrow> notes_state" where
  "notes_step s e =
     (case e of
        RootsPolled idents \<Rightarrow> fold fetch_notes idents s
      | InfoAnswered ident answer \<Rightarrow>
          if ident \<in> set (ns_pending s) then notes_answered ident answer (s\<lparr>ns_pending := remove1 ident (ns_pending s)\<rparr>) else s)"

definition notes_run :: "notes_event list \<Rightarrow> notes_state" where
  "notes_run es = foldl notes_step notes_start es"

definition service_rows :: "string list \<Rightarrow> json obj \<Rightarrow> (string \<times> (string \<times> string) list) list" where
  "service_rows roots notesMap =
     filter (\<lambda>(_, links). links \<noteq> [])
       (map (\<lambda>ident. (ident, httpsNotes (case obj_get notesMap ident of None \<Rightarrow> JUndefined | Some info \<Rightarrow> info))) roots)"

section \<open>The banner of upgrades\<close>

text \<open>What the ping says of upgrades; \<open>hm_lastDismissed\<close> is the ref.\<close>

record upgrades =
  up_available :: int
  up_dismissed :: bool

record 'w home_page = "'w page" +
  hm_dismissing :: bool
  hm_lastDismissed :: "int option"

definition showUpgradeBanner :: "upgrades option \<Rightarrow> ('w, 'm) home_page_scheme \<Rightarrow> bool" where
  "showUpgradeBanner status pg \<longleftrightarrow>
     (case status of
        None \<Rightarrow> False
      | Some p \<Rightarrow> up_available p > 0 \<and> \<not> up_dismissed p \<and> hm_lastDismissed pg \<noteq> Some (up_available p))"

definition handleDismiss :: "'w env \<Rightarrow> upgrades \<Rightarrow> ('w home_page, js_error, unit) eff" where
  "handleDismiss env status =
     eff_seq (page_set (\<lambda>pg. pg\<lparr>hm_dismissing := True\<rparr>))
       (eff_finally
         (eff_catch
           (block
             [api (\<lambda>c. dismissUpgrades (en_net env) c),
              page_set (\<lambda>pg. pg\<lparr>hm_lastDismissed := Some (up_available status)\<rparr>)])
           (\<lambda>_. eff_return ()))
         (page_set (\<lambda>pg. pg\<lparr>hm_dismissing := False\<rparr>)))"

text \<open>The copy button: whether it shows the tick.  A \<open>writeText\<close> that fails, or a copy that
  throws, shows nothing.\<close>

definition handleCopy :: "clipboard \<Rightarrow> bool" where
  "handleCopy c = (if cb_api c \<and> cb_secure c then cb_written c else cb_exec c \<noteq> None)"

section \<open>The frame\<close>

record nav_item =
  nv_to :: string
  nv_key :: string
  nv_adminOnly :: bool

definition nav :: "string \<Rightarrow> string \<Rightarrow> bool \<Rightarrow> nav_item" where
  "nav path key adminOnly = \<lparr>nv_to = ''/dashboard'' @ path, nv_key = ''nav.'' @ key, nv_adminOnly = adminOnly\<rparr>"

definition NAV_KEYS :: "nav_item list" where
  "NAV_KEYS =
     [nav [] ''home'' False, nav ''/storage'' ''storage'' False, nav ''/objects'' ''objects'' False,
      nav ''/users'' ''users'' False, nav ''/system'' ''services'' False, nav ''/packages'' ''packages'' False,
      nav ''/pages'' ''pages'' False, nav ''/dns'' ''dns'' False, nav ''/networks'' ''networks'' True,
      nav ''/monitoring'' ''monitoring'' False, nav ''/log'' ''audit_log'' True, nav ''/settings'' ''settings'' True]"

definition nav_shown :: "bool \<Rightarrow> nav_item list" where
  "nav_shown admin = filter (\<lambda>i. \<not> nv_adminOnly i \<or> admin) NAV_KEYS"

text \<open>The state of the connection, and whether the warning stands above the page.\<close>

datatype connection = Blank | LoadingPing | Offline | Online

definition connection_of :: "string option \<Rightarrow> bool \<Rightarrow> connection" where
  "connection_of status loading =
     (case status of
        None \<Rightarrow> if loading then LoadingPing else Blank
      | Some status \<Rightarrow> if status \<noteq> ''ok'' then Offline else Online)"

section \<open>The monitoring screen\<close>

datatype charts = SystemCharts "string list" | DNSCharts | ControllerCharts

record monitoring_tab =
  mt_value :: string
  mt_label :: string
  mt_grafanaUID :: string
  mt_Charts :: "charts option"

definition TABS :: "monitoring_tab list" where
  "TABS =
     [\<lparr>mt_value = ''system'', mt_label = ''System'', mt_grafanaUID = ''town-os-overview'', mt_Charts = None\<rparr>,
      \<lparr>mt_value = ''dns'', mt_label = ''DNS'', mt_grafanaUID = ''town-os-dns'', mt_Charts = Some DNSCharts\<rparr>,
      \<lparr>mt_value = ''controller'', mt_label = ''Controller'', mt_grafanaUID = ''town-os-controller'', mt_Charts = Some ControllerCharts\<rparr>]"

definition activeTab :: "string option \<Rightarrow> string" where
  "activeTab requested =
     (case requested of
        None \<Rightarrow> ''system''
      | Some v \<Rightarrow> if list_ex (\<lambda>t. mt_value t = v) TABS then v else ''system'')"

definition active_tab :: "string option \<Rightarrow> monitoring_tab" where
  "active_tab requested = (case find (\<lambda>t. mt_value t = activeTab requested) TABS of None \<Rightarrow> TABS ! 0 | Some t \<Rightarrow> t)"

record monitoring_status =
  ms_backend :: string
  ms_status :: string
  ms_prometheus :: bool
  ms_node_exporter :: bool
  ms_grafana :: bool
  ms_disk_devices :: "string list"

definition monitoring_backend :: "monitoring_status option \<Rightarrow> string" where
  "monitoring_backend status =
     (case status of None \<Rightarrow> ''uplot'' | Some s \<Rightarrow> if ms_backend s = [] then ''uplot'' else ms_backend s)"

definition allRunning :: "monitoring_status option \<Rightarrow> bool" where
  "allRunning status =
     (case status of
        None \<Rightarrow> False
      | Some s \<Rightarrow>
          let coreRunning = ms_prometheus s \<and> ms_node_exporter s
          in if monitoring_backend status = ''grafana'' then coreRunning \<and> ms_grafana s else coreRunning)"

definition grafanaURL :: "string \<Rightarrow> string \<Rightarrow> string" where
  "grafanaURL monitoringBase uid = monitoringBase @ ''/d/'' @ uid @ ''/'' @ uid @ ''?kiosk&theme=light&refresh=30s''"

datatype monitoring_body =
    NotConfigured
  | StartingUp string
  | Frame string
  | Charts charts

text \<open>A status of null or without a backend is drawn by the built-in charts.\<close>

definition renderBody :: "string \<Rightarrow> monitoring_status option \<Rightarrow> bool \<Rightarrow> string option \<Rightarrow> monitoring_body" where
  "renderBody monitoringBase status loading requested =
     (let tab = active_tab requested; backend = monitoring_backend status in
      if (case status of None \<Rightarrow> False | Some s \<Rightarrow> ms_status s = ''disabled'') then NotConfigured
      else if \<not> allRunning status then
        StartingUp
          (if loading then ''Checking monitoring status...''
           else if backend = ''grafana''
           then ''Monitoring services are starting up. The dashboard will appear once all services are running.''
           else ''Monitoring services are starting up. Charts will appear once Prometheus is running.'')
      else if backend = ''grafana'' then Frame (grafanaURL monitoringBase (mt_grafanaUID tab))
      else Charts (case mt_Charts tab of
                     Some c \<Rightarrow> c
                   | None \<Rightarrow> SystemCharts (case status of None \<Rightarrow> [] | Some s \<Rightarrow> ms_disk_devices s)))"

section \<open>Theorems\<close>

text \<open>A package identifier is read at its first slash and its last at sign: it is read as a
  repository, a name and a version exactly if it is these three joined, the repository has no
  slash and the version no at sign.  The name may have both, as those of dependencies do.\<close>

theorem package_identifier_exact:
  "parsePackageIdentifier ident = Some p \<longleftrightarrow>
   ident = pi_repo p @ ''/'' @ pi_name p @ ''@'' @ pi_version p \<and>
   CHR ''/'' \<notin> set (pi_repo p) \<and> CHR ''@'' \<notin> set (pi_version p)"
  (is "?lhs \<longleftrightarrow> ?rhs")
proof
  assume r: ?rhs
  have "last_index_of_char CHR ''@'' ((pi_repo p @ ''/'' @ pi_name p) @ CHR ''@'' # pi_version p)
      = Some (length (pi_repo p @ ''/'' @ pi_name p))"
    using r by (intro last_index_of_char_fresh) simp
  moreover have "index_of_char CHR ''/'' (pi_repo p @ CHR ''/'' # pi_name p) = Some (length (pi_repo p))"
    using r by (intro index_of_char_fresh) simp
  moreover have "ident = (pi_repo p @ ''/'' @ pi_name p) @ CHR ''@'' # pi_version p" using r by simp
  ultimately show ?lhs
    by (simp add: parsePackageIdentifier_def)
next
  assume l: ?lhs
  then obtain i where i: "last_index_of_char CHR ''@'' ident = Some i"
    by (auto simp: parsePackageIdentifier_def split: if_splits option.splits)
  with l obtain j where j: "index_of_char CHR ''/'' (take i ident) = Some j"
    by (auto simp: parsePackageIdentifier_def Let_def split: if_splits option.splits)
  have p: "p = \<lparr>pi_repo = take j (take i ident), pi_name = drop (Suc j) (take i ident), pi_version = drop (Suc i) ident\<rparr>"
    using l i j by (simp add: parsePackageIdentifier_def Let_def split: if_splits)
  have "ident = take i ident @ CHR ''@'' # drop (Suc i) ident" "CHR ''@'' \<notin> set (drop (Suc i) ident)"
    using last_index_of_char_Some [OF i] by auto
  moreover have "take i ident = take j (take i ident) @ CHR ''/'' # drop (Suc j) (take i ident)"
    "CHR ''/'' \<notin> set (take j (take i ident))"
    using index_of_char_Some [OF j] by auto
  ultimately show ?rhs unfolding p package_id.simps
    by (metis append.assoc append_Cons append_Nil)
qed

text \<open>The link to a service is read back by the services screen as a search for that service.\<close>

theorem service_link_roundtrip:
  "cut_at CHR ''?'' (serviceLink ident) = (''/dashboard/system'', service_query ident) \<and>
   parse_query (service_query ident) = Some [(''search'', ident)]"
proof
  show "cut_at CHR ''?'' (serviceLink ident) = (''/dashboard/system'', service_query ident)"
    by (simp add: serviceLink_def cut_at_def)
  have "encodeURIComponent ''search'' = ''search''" by code_simp
  then show "parse_query (service_query ident) = Some [(''search'', ident)]"
    using uri.parse_pairs [of "[(''search'', ident)]"] by (simp add: service_query_def)
qed


text \<open>What holds of the notes after any run of polls and answers.\<close>

definition notes_ok :: "notes_event list \<Rightarrow> notes_state \<Rightarrow> bool" where
  "notes_ok es s \<longleftrightarrow>
     distinct (map fst (ns_asked s)) \<and> fst ` set (ns_asked s) \<subseteq> set (ns_fetched s) \<and>
     set (ns_pending s) \<subseteq> set (ns_fetched s) \<and> distinct (ns_pending s) \<and>
     (\<forall>(ident, p) \<in> set (ns_asked s). parsePackageIdentifier ident = Some p) \<and>
     (\<forall>ident info. obj_get (ns_notes s) ident = Some info \<longrightarrow> InfoAnswered ident (Inr info) \<in> set es)"

lemma notes_ok_fetch: "notes_ok es s \<Longrightarrow> notes_ok es (fetch_notes ident s)"
  by (auto simp: notes_ok_def fetch_notes_def Let_def split: option.split)

lemma notes_ok_fetch_all: "notes_ok es s \<Longrightarrow> notes_ok es (fold fetch_notes idents s)"
  by (induction idents arbitrary: s) (auto simp: notes_ok_fetch)

lemma notes_ok_mono: "notes_ok es s \<Longrightarrow> set es \<subseteq> set es' \<Longrightarrow> notes_ok es' s"
  unfolding notes_ok_def by blast

lemma notes_ok_pending: "notes_ok es s \<Longrightarrow> notes_ok es (s\<lparr>ns_pending := remove1 ident (ns_pending s)\<rparr>)"
  by (auto simp: notes_ok_def dest: notin_set_remove1)

lemma notes_ok_answer: "notes_ok es s \<Longrightarrow> InfoAnswered ident answer \<in> set es \<Longrightarrow> notes_ok es (notes_answered ident answer s)"
  by (auto simp: notes_ok_def notes_answered_def obj_get_def split: sum.split option.split if_splits)

lemma notes_ok_step: "notes_ok es s \<Longrightarrow> e \<in> set es \<Longrightarrow> notes_ok es (notes_step s e)"
  by (auto simp: notes_step_def notes_ok_fetch_all notes_ok_answer notes_ok_pending split: notes_event.split)

lemma notes_ok_run: "notes_ok es (notes_run es)"
proof -
  have run: "set es' \<subseteq> set es \<Longrightarrow> notes_ok es s \<Longrightarrow> notes_ok es (foldl notes_step s es')" for es' s
    by (induction es' arbitrary: s) (auto simp: notes_ok_step)
  have "notes_ok es notes_start" by (simp add: notes_ok_def notes_start_def obj_get_def)
  from run [OF subset_refl this] show ?thesis by (simp add: notes_run_def)
qed



text \<open>A request for the notes that failed once is never repeated: from then on the service has
  no row, however often the list is polled and whatever would be answered, until the screen
  is opened anew.\<close>

theorem failed_notes_not_retried:
  assumes "ident \<in> set (ns_pending (notes_run es))" "obj_get (ns_notes (notes_run es)) ident = None"
  shows "ident \<notin> fst ` set (service_rows roots (ns_notes (notes_run (es @ InfoAnswered ident (Inl err) # later))))"
proof -
  let ?gone = "\<lambda>s. ident \<in> set (ns_fetched s) \<and> ident \<notin> set (ns_pending s) \<and> obj_get (ns_notes s) ident = None"
  have fetch: "?gone s \<Longrightarrow> ?gone (fetch_notes i s)" for i s
    by (auto simp: fetch_notes_def Let_def split: option.split)
  have fetches: "?gone s \<Longrightarrow> ?gone (fold fetch_notes is s)" for "is" s
    by (induction "is" arbitrary: s) (use fetch in auto)
  have answered: "?gone s \<Longrightarrow> i \<noteq> ident \<Longrightarrow> ?gone (notes_answered i answer (s\<lparr>ns_pending := remove1 i (ns_pending s)\<rparr>))" for i s answer
    by (auto simp: notes_answered_def obj_get_def dest: notin_set_remove1 split: sum.split option.split)
  have step: "?gone s \<Longrightarrow> ?gone (notes_step s e)" for s e
  proof (cases e)
    case (InfoAnswered i answer)
    assume "?gone s"
    then show ?thesis using answered [of s i answer] by (auto simp: InfoAnswered notes_step_def)
  qed (use fetches in \<open>auto simp: notes_step_def\<close>)
  have run: "?gone s \<Longrightarrow> ?gone (foldl notes_step s es')" for es' s
    by (induction es' arbitrary: s) (use step in auto)
  have "?gone (notes_run (es @ [InfoAnswered ident (Inl err)]))"
    using assms notes_ok_run [of es]
    by (auto simp: notes_run_def notes_step_def notes_answered_def notes_ok_def)
  from run [OF this, of later] have "obj_get (ns_notes (notes_run (es @ InfoAnswered ident (Inl err) # later))) ident = None"
    by (simp add: notes_run_def)
  then show ?thesis by (auto simp: service_rows_def httpsNotes_def)
qed

theorem failed_notes_not_retried_witness:
  "''core/gitea@1.0'' \<notin> fst ` set (service_rows [''core/gitea@1.0'']
     (ns_notes (notes_run [RootsPolled [''core/gitea@1.0''], InfoAnswered ''core/gitea@1.0'' (Inl TypeErr), RootsPolled [''core/gitea@1.0''],
       InfoAnswered ''core/gitea@1.0'' (Inr (JObj []))])))"
proof -
  have "notes_run [RootsPolled [''core/gitea@1.0'']] =
      \<lparr>ns_fetched = [''core/gitea@1.0''], ns_asked = [(''core/gitea@1.0'', \<lparr>pi_repo = ''core'', pi_name = ''gitea'', pi_version = ''1.0''\<rparr>)],
       ns_pending = [''core/gitea@1.0''], ns_notes = []\<rparr>" by code_simp
  then show ?thesis
    using failed_notes_not_retried [of "''core/gitea@1.0''" "[RootsPolled [''core/gitea@1.0'']]" "[''core/gitea@1.0'']" TypeErr
        "[RootsPolled [''core/gitea@1.0''], InfoAnswered ''core/gitea@1.0'' (Inr (JObj []))]"]
    by (simp add: obj_get_def)
qed

text \<open>Dismissing the banner sends one request.  If it is accepted the banner is gone and stays so
  for as many upgrades as were dismissed, even if they are others and the server says they
  were not dismissed; another number of upgrades shows it again.  If it is refused nothing
  changes, and nothing is said.\<close>

theorem dismissed_by_count:
  assumes "en_net env = recording a"
  shows "wp (handleDismiss env p) (\<lambda>r pg'. r = Inr () \<and> \<not> hm_dismissing pg' \<and> pg_log pg' = pg_log pg \<and>
     pg_net pg' = pg_net pg @ [post_request (getClient (pg_storage pg) (pg_client pg)) ''/packages/upgrades/dismiss'' (JObj [])] \<and>
     (hm_lastDismissed pg' = hm_lastDismissed pg \<or>
      (\<forall>q. showUpgradeBanner (Some q) pg' \<longleftrightarrow>
         up_available q > 0 \<and> \<not> up_dismissed q \<and> up_available q \<noteq> up_available p))) pg"
  unfolding handleDismiss_def wp_seq wp_set sum.case wp_finally wp_catch wp_block dismissUpgrades_def assms
  by (rule wp_recording_ignore) (auto simp: wp_simps showUpgradeBanner_def split: sum.split)

theorem dismissed_by_count_witness:
  "wp (handleDismiss \<lparr>en_net = recording (\<lambda>_ _. Inl TypeErr), en_message = (\<lambda>_. [])\<rparr> \<lparr>up_available = 2, up_dismissed = False\<rparr>)
     (\<lambda>r pg'. length (pg_net pg') = 1)
     \<lparr>pg_net = [], pg_storage = \<lparr>st_local = Map.empty, st_session = Map.empty\<rparr>, pg_client = newClient [], pg_log = [],
      pg_refreshKey = 0, hm_dismissing = False, hm_lastDismissed = None\<rparr>"
  by (rule wp_weaken [OF dismissed_by_count [where a = "\<lambda>_ _. Inl TypeErr"]]) simp_all

text \<open>The button of the first screen shows its tick although nothing was copied exactly when the
  browser declines the copy without throwing; the copy of the library reports it.\<close>

theorem copied_without_copy:
  "((handleCopy c \<and> \<not> text_copied c) = (\<not> (cb_api c \<and> cb_secure c) \<and> cb_exec c = Some False)) \<and>
   (copyToClipboard c = Inr ()) = text_copied c"
  by (auto simp: handleCopy_def text_copied_def copyToClipboard_def split: option.splits)

text \<open>The monitoring screen draws what its heading says: whatever the address asks for, the tab
  highlighted is one of the three, its charts or its dashboard are the ones drawn once
  everything needed runs, and an unknown tab is the first.\<close>

theorem monitoring_tab_drawn:
  "let tab = active_tab requested in
     tab \<in> set TABS \<and> mt_value tab = activeTab requested \<and>
     (renderBody base status loading requested = NotConfigured \<or>
      (\<not> allRunning status \<and> (\<exists>t. renderBody base status loading requested = StartingUp t)) \<or>
      (allRunning status \<and> renderBody base status loading requested =
        (if monitoring_backend status = ''grafana'' then Frame (grafanaURL base (mt_grafanaUID tab))
         else Charts (if mt_value tab = ''system'' then SystemCharts (case status of None \<Rightarrow> [] | Some s \<Rightarrow> ms_disk_devices s)
                      else if mt_value tab = ''dns'' then DNSCharts else ControllerCharts))))"
proof -
  have tabs: "requested = Some ''dns'' \<or> requested = Some ''controller'' \<or> activeTab requested = ''system''"
    by (auto simp: activeTab_def TABS_def split: option.split)
  then have "active_tab requested \<in> set TABS \<and> mt_value (active_tab requested) = activeTab requested \<and>
      mt_Charts (active_tab requested) = (if activeTab requested = ''system'' then None
        else if activeTab requested = ''dns'' then Some DNSCharts else Some ControllerCharts)"
    by (auto simp: active_tab_def TABS_def activeTab_def)
  then show ?thesis
    by (auto simp: Let_def renderBody_def)
qed

end
