(* ===== verification/AuditPage.thy ===== *)
theory AuditPage
  imports PageEffects
begin

text \<open>
  The audit log: \<^verbatim>\<open>routes/AuditLog.jsx\<close>, the tree a recorded request is shown as
  (\<^verbatim>\<open>lib/json-tree.jsx\<close>) and the line it is summarised in (\<^verbatim>\<open>lib/audit-format.js\<close>).
\<close>

section \<open>The error of an entry\<close>

record error_detail =
  ed_status :: "nat option"
  ed_message :: string

text \<open>What \<open>.\<close> of a regular expression does not match.\<close>

definition line_breaks :: "string list" where
  "line_breaks = [[CHR 0x0A], [CHR 0x0D], [CHR 0xE2, CHR 0x80, CHR 0xA8], [CHR 0xE2, CHR 0x80, CHR 0xA9]]"

definition one_line :: "string \<Rightarrow> bool" where
  "one_line s \<longleftrightarrow> \<not> list_ex (\<lambda>b. str_includes b s) line_breaks"

text \<open>\<open>/^code=(\d+),\s*message=(.+)$/\<close>\<close>

definition echo_match :: "string \<Rightarrow> (string \<times> string) option" where
  "echo_match raw =
     (if \<not> starts_with ''code='' raw then None
      else
        let (ds, r) = take_digits (drop 5 raw); r' = dropWhile is_js_space (drop 1 r) in
        if ds = [] \<or> \<not> starts_with '','' r \<or> \<not> starts_with ''message='' r' then None
        else let m = drop 8 r' in if m = [] \<or> \<not> one_line m then None else Some (ds, m))"

definition parseErrorDetail :: "string \<Rightarrow> string \<Rightarrow> error_detail" where
  "parseErrorDetail raw fallback =
     (if raw = [] then \<lparr>ed_status = None, ed_message = fallback\<rparr>
      else case echo_match raw of
        Some (code, message) \<Rightarrow> \<lparr>ed_status = Some (digits_val 0 code), ed_message = message\<rparr>
      | None \<Rightarrow> \<lparr>ed_status = None, ed_message = raw\<rparr>)"

section \<open>The request as a line\<close>

definition detail_field :: "string \<times> json \<Rightarrow> string" where
  "detail_field kv =
     (let (k, v) = kv in
      k @ ''='' @ (case v of JObj _ \<Rightarrow> stringify v | JArr _ \<Rightarrow> stringify v | _ \<Rightarrow> js_string v))"

definition formatDetail :: "string \<Rightarrow> string" where
  "formatDetail detail =
     (if detail = [] then ''-''
      else case parse_json detail of
        None \<Rightarrow> detail
      | Some obj \<Rightarrow> if js_nullish obj then detail else join '', '' (map detail_field (own_fields obj)))"

section \<open>The request as a tree\<close>

text \<open>
  \<open>sort\<close> without a comparison orders strings by their UTF-16 code units.  On UTF-8 bytes that
  is the order of the bytes, except that the characters of four bytes, which are surrogates
  there, come before U+E000 (the lead bytes EE and EF).
\<close>

definition unit_weight :: "char \<Rightarrow> nat" where
  "unit_weight c = (if c = CHR 0xEE \<or> c = CHR 0xEF then of_char c + 256 else of_char c)"

fun str_before :: "string \<Rightarrow> string \<Rightarrow> bool" where
  "str_before [] t = True"
| "str_before (c # s) [] = False"
| "str_before (c # s) (d # t) = (if c = d then str_before s t else unit_weight c < unit_weight d)"

datatype leaf = NullLeaf | BoolLeaf string | NumberLeaf string | QuotedLeaf string

text \<open>A line, or a fold with what stands beside it when it is closed.\<close>

datatype tree_view = Line string leaf | Fold string string "tree_view list"

fun view_label :: "tree_view \<Rightarrow> string" where
  "view_label (Line l _) = l"
| "view_label (Fold l _ _) = l"

lemma json_elem_size [termination_simp]:
  "(i, x) \<in> set (zip [0..<length xs] xs) \<Longrightarrow> size x < Suc (size_list size xs)"
  by (rule json_list_size) (rule set_zip_rightD)

fun JsonNode :: "string \<Rightarrow> json \<Rightarrow> tree_view" where
  "JsonNode label JNull = Line label NullLeaf"
| "JsonNode label (JObj kvs) =
     Fold label (''{'' @ nat_str (length kvs) @ ''}'')
       (sort_by (\<lambda>a b. str_before (view_label a) (view_label b)) (map (\<lambda>(k, v). JsonNode k v) kvs))"
| "JsonNode label (JArr xs) =
     Fold label (''['' @ nat_str (length xs) @ '']'')
       (map (\<lambda>(i, x). JsonNode (nat_str i) x) (zip [0..<length xs] xs))"
| "JsonNode label (JBool b) = Line label (BoolLeaf (js_string (JBool b)))"
| "JsonNode label (JNum i) = Line label (NumberLeaf (js_string (JNum i)))"
| "JsonNode label (JFrac m e) = Line label (NumberLeaf (js_string (JFrac m e)))"
| "JsonNode label (JStr s) = Line label (QuotedLeaf s)"
| "JsonNode label JUndefined = Line label (QuotedLeaf ''undefined'')"



section \<open>The page\<close>

text \<open>A row of the log, as far as the handlers read it.\<close>

record audit_row =
  ar_detail :: string
  ar_action :: string
  ar_path :: string
  ar_error :: string
  ar_account :: string

record audit_page =
  au_page :: int
  au_sortKey :: string
  au_sortDirection :: string
  au_search :: string
  au_detailOpen :: bool
  au_detailData :: string
  au_detailAction :: string
  au_errorOpen :: bool
  au_errorRow :: "audit_row option"
  au_journalUnit :: "string option"
  au_journalTimestamp :: "string option"

definition audit_query :: "audit_page \<Rightarrow> json" where
  "audit_query s =
     JObj [(''limit'', JNum 20), (''offset'', JNum (au_page s * 20)), (''sort_by'', JStr (au_sortKey s)),
           (''sort_order'', JStr (au_sortDirection s)),
           (''search'', if au_search s = [] then JUndefined else JStr (au_search s))]"

definition handleSortChange :: "string \<Rightarrow> string \<Rightarrow> audit_page \<Rightarrow> audit_page" where
  "handleSortChange key direction s = s\<lparr>au_sortKey := key, au_sortDirection := direction, au_page := 0\<rparr>"

definition audit_reset :: "audit_page \<Rightarrow> audit_page" where
  "audit_reset s = s\<lparr>au_sortKey := ''id'', au_sortDirection := ''desc'', au_search := [], au_page := 0\<rparr>"

definition audit_searched :: "string \<Rightarrow> audit_page \<Rightarrow> audit_page" where
  "audit_searched q s = s\<lparr>au_search := q, au_page := 0\<rparr>"

definition openDetail :: "audit_row \<Rightarrow> audit_page \<Rightarrow> audit_page" where
  "openDetail row s =
     s\<lparr>au_detailData := ar_detail row,
       au_detailAction := (if ar_action row \<noteq> [] then ar_action row else ar_path row), au_detailOpen := True\<rparr>"

definition error_clicked :: "audit_row \<Rightarrow> audit_page \<Rightarrow> audit_page" where
  "error_clicked row s = s\<lparr>au_errorRow := Some row, au_errorOpen := True\<rparr>"

text \<open>The heading of the error dialog names the request; \<open>unnamed\<close> is the translated fallback.\<close>

definition error_heading :: "string \<Rightarrow> audit_row \<Rightarrow> string" where
  "error_heading unnamed row =
     (if ar_action row \<noteq> [] then ar_action row else if ar_path row \<noteq> [] then ar_path row else unnamed)"

text \<open>The journal is closed at once and opened again in a microtask, so that it reloads even when it
  was open at another time.\<close>

definition openJournal :: "string \<Rightarrow> audit_page \<Rightarrow> audit_page" where
  "openJournal timestamp s = s\<lparr>au_journalUnit := None, au_journalTimestamp := Some timestamp\<rparr>"

definition journal_microtask :: "audit_page \<Rightarrow> audit_page" where
  "journal_microtask s = s\<lparr>au_journalUnit := Some ''__system__''\<rparr>"

section \<open>Theorems\<close>

text \<open>An error as the server's framework writes it is taken apart into its status and its
  message, whatever the message is but for its being empty or of several lines: then the
  text is shown as it stands.\<close>

theorem echo_error_roundtrip:
  "parseErrorDetail (''code='' @ nat_str n @ '', message='' @ m) fallback =
   (if m \<noteq> [] \<and> one_line m then \<lparr>ed_status = Some n, ed_message = m\<rparr>
    else \<lparr>ed_status = None, ed_message = ''code='' @ nat_str n @ '', message='' @ m\<rparr>)"
proof -
  have digits: "take_digits (nat_str n @ '', message='' @ m) = (nat_str n, '', message='' @ m)"
    using nat_str_digits by (intro take_digits_append) (simp_all add: is_digit_def)
  have "echo_match (''code='' @ nat_str n @ '', message='' @ m) = (if m \<noteq> [] \<and> one_line m then Some (nat_str n, m) else None)"
    using digits by (simp add: echo_match_def is_js_space_def)
  then show ?thesis by (simp add: parseErrorDetail_def digits_val_nat_str)
qed




lemma label_JsonNode [simp]: "view_label (JsonNode l v) = l"
  by (cases v) simp_all










end
