(* ===== verification/ServiceTree.thy ===== *)
theory ServiceTree
  imports JsBase
begin

text \<open>
  The tree of services on the system page: \<^verbatim>\<open>components/system/PackageServiceTree.jsx\<close>, what it
  shows for a forest of units, and what the menu of a row offers.
\<close>

section \<open>The tree\<close>

record unit_info =
  ui_package_identifier :: string
  ui_Name :: string
  ui_ActiveState :: string
  ui_nc_failed :: bool
  ui_nc_active :: bool

datatype service_node = ServiceNode unit_info "service_node list"

fun node_unit :: "service_node \<Rightarrow> unit_info" where "node_unit (ServiceNode u _) = u"
fun node_units :: "service_node \<Rightarrow> service_node list" where "node_units (ServiceNode _ cs) = cs"

fun countDescendants_units :: "service_node \<Rightarrow> nat" where
  "countDescendants_units (ServiceNode _ cs) = (if cs = [] then 0 else length cs + sum_list (map countDescendants_units cs))"

type_synonym expanded = "bool obj"

definition is_expanded :: "expanded \<Rightarrow> string \<Rightarrow> bool" where
  "is_expanded expanded k \<longleftrightarrow> obj_get expanded k = Some True"

definition tree_toggle :: "string \<Rightarrow> expanded \<Rightarrow> expanded" where
  "tree_toggle k expanded = obj_set expanded k (obj_get expanded k \<noteq> Some True)"

text \<open>The rows from top to bottom, each with its depth.\<close>

fun TreeRow :: "expanded \<Rightarrow> nat \<Rightarrow> service_node \<Rightarrow> (service_node \<times> nat) list" where
  "TreeRow expanded depth (ServiceNode u cs) =
     (ServiceNode u cs, depth) #
     (if cs \<noteq> [] \<and> is_expanded expanded (ui_package_identifier u)
      then concat (map (TreeRow expanded (Suc depth)) cs) else [])"

definition PackageServiceTree :: "expanded \<Rightarrow> service_node list \<Rightarrow> (service_node \<times> nat) list" where
  "PackageServiceTree expanded roots = concat (map (TreeRow expanded 0) roots)"

section \<open>A row\<close>

datatype badge_variant = Default | Destructive | Secondary

definition statusBadge :: "string \<Rightarrow> unit_info \<Rightarrow> badge_variant \<times> string" where
  "statusBadge failedLabel u =
     (if ui_ActiveState u = ''active'' then Default else if ui_ActiveState u = ''failed'' then Destructive else Secondary,
      if ui_nc_failed u then failedLabel else ui_ActiveState u)"

text \<open>
  What an item of the menu does.  The page passes the callbacks for the journals to
  administrators only: \<open>logs\<close> says whether they are there.
\<close>

datatype menu_item = Cascade string | UnitAction string | ServiceLogs | GroupLogs | NetworkLogs

definition tree_action :: "nat \<Rightarrow> string \<Rightarrow> menu_item" where
  "tree_action depth act = (if depth = 0 then Cascade act else UnitAction act)"

definition row_menu :: "bool \<Rightarrow> service_node \<Rightarrow> nat \<Rightarrow> menu_item list" where
  "row_menu logs node depth =
     [tree_action depth ''start''] @
     (if ui_Name (node_unit node) \<noteq> ''town-os-systemcontroller.service'' then [tree_action depth ''stop''] else []) @
     [tree_action depth ''restart''] @
     (if logs then [ServiceLogs] else []) @
     (if depth = 0 \<and> node_units node \<noteq> [] \<and> logs then [GroupLogs] else []) @
     (if ui_nc_active (node_unit node) \<and> logs then [NetworkLogs] else [])"

section \<open>Theorems\<close>

text \<open>All nodes of a tree.\<close>

fun tree_units :: "service_node \<Rightarrow> service_node list" where
  "tree_units (ServiceNode u cs) = ServiceNode u cs # concat (map tree_units cs)"

lemma length_tree_units: "length (tree_units n) = Suc (countDescendants_units n)"
proof (induction n)
  case (ServiceNode u cs)
  have "sum_list (map (\<lambda>c. length (tree_units c)) cs) = length cs + sum_list (map countDescendants_units cs)"
    using ServiceNode by (induction cs) auto
  then show ?case by (auto simp: length_concat comp_def)
qed

lemma rows_all_expanded:
  "list_all (\<lambda>m. node_units m = [] \<or> is_expanded ex (ui_package_identifier (node_unit m))) (tree_units n) \<Longrightarrow>
   map fst (TreeRow ex depth n) = tree_units n"
proof (induction n arbitrary: depth)
  case (ServiceNode u cs)
  have "map fst (concat (map (TreeRow ex (Suc depth)) cs)) = concat (map tree_units cs)"
    using ServiceNode by (auto simp: map_concat comp_def list_all_iff intro!: arg_cong [of _ _ concat])
  then show ?case using ServiceNode.prems by auto
qed

lemma rows_sub: "set (map fst (TreeRow ex depth n)) \<subseteq> set (tree_units n)"
  by (induction n arbitrary: depth) fastforce

text \<open>The rows of a tree: one that is not expanded is its root alone; however the rows are
  expanded only nodes of the tree are shown; and when every row with dependencies is
  expanded the whole tree is, in order, which is as many rows below the root as its count of
  dependencies says.\<close>

theorem service_rows_complete:
  "(\<not> is_expanded ex (ui_package_identifier (node_unit n)) \<longrightarrow> TreeRow ex depth n = [(n, depth)]) \<and>
   set (map fst (TreeRow ex depth n)) \<subseteq> set (tree_units n) \<and>
   (list_all (\<lambda>m. node_units m = [] \<or> is_expanded ex (ui_package_identifier (node_unit m))) (tree_units n) \<longrightarrow>
     map fst (TreeRow ex depth n) = tree_units n \<and> length (TreeRow ex depth n) = Suc (countDescendants_units n))"
proof (intro conjI impI)
  show "TreeRow ex depth n = [(n, depth)]" if "\<not> is_expanded ex (ui_package_identifier (node_unit n))"
    using that by (cases n) simp
  show "set (map fst (TreeRow ex depth n)) \<subseteq> set (tree_units n)" by (rule rows_sub)
  show all: "map fst (TreeRow ex depth n) = tree_units n"
    if "list_all (\<lambda>m. node_units m = [] \<or> is_expanded ex (ui_package_identifier (node_unit m))) (tree_units n)"
    using that by (rule rows_all_expanded)
  show "length (TreeRow ex depth n) = Suc (countDescendants_units n)"
    if "list_all (\<lambda>m. node_units m = [] \<or> is_expanded ex (ui_package_identifier (node_unit m))) (tree_units n)"
    using all [OF that] length_tree_units [of n] by (metis length_map)
qed

theorem service_rows_complete_witness:
  "length (TreeRow [(''a'', True)] 0 (ServiceNode \<lparr>ui_package_identifier = ''a'', ui_Name = ''a'', ui_ActiveState = ''active'', ui_nc_failed = False, ui_nc_active = False\<rparr>
     [ServiceNode \<lparr>ui_package_identifier = ''b'', ui_Name = ''b'', ui_ActiveState = ''failed'', ui_nc_failed = False, ui_nc_active = False\<rparr> []])) = 2"
  using service_rows_complete [of "[(''a'', True)]" "ServiceNode \<lparr>ui_package_identifier = ''a'', ui_Name = ''a'', ui_ActiveState = ''active'', ui_nc_failed = False, ui_nc_active = False\<rparr>
     [ServiceNode \<lparr>ui_package_identifier = ''b'', ui_Name = ''b'', ui_ActiveState = ''failed'', ui_nc_failed = False, ui_nc_active = False\<rparr> []]" 0]
  by (simp add: is_expanded_def obj_get_def)

text \<open>Clicking a row changes that row alone, and clicking it again undoes it.\<close>

lemma toggle_one:
  "is_expanded (tree_toggle k ex) l = (if l = k then \<not> is_expanded ex k else is_expanded ex l)"
  by (auto simp: is_expanded_def tree_toggle_def obj_get_def)

text \<open>The menu of a row: the controller's own unit can be restarted but not stopped, journals are
  offered to administrators only, and what is done reaches the whole tree exactly from a root.\<close>

theorem row_menu_safe:
  "(ui_Name (node_unit n) = ''town-os-systemcontroller.service'' \<longrightarrow>
      Cascade ''stop'' \<notin> set (row_menu logs n depth) \<and> UnitAction ''stop'' \<notin> set (row_menu logs n depth)) \<and>
   (set (row_menu logs n depth) \<inter> {ServiceLogs, GroupLogs, NetworkLogs} \<noteq> {} \<longrightarrow> logs) \<and>
   ((\<exists>act. Cascade act \<in> set (row_menu logs n depth)) \<longleftrightarrow> depth = 0)"
  by (auto simp: row_menu_def tree_action_def)

theorem row_menu_safe_witness:
  "Cascade ''stop'' \<notin> set (row_menu True (ServiceNode \<lparr>ui_package_identifier = ''c'', ui_Name = ''town-os-systemcontroller.service'',
     ui_ActiveState = ''active'', ui_nc_failed = False, ui_nc_active = False\<rparr> []) 0)"
  using row_menu_safe [of "ServiceNode \<lparr>ui_package_identifier = ''c'', ui_Name = ''town-os-systemcontroller.service'',
     ui_ActiveState = ''active'', ui_nc_failed = False, ui_nc_active = False\<rparr> []" True 0] by simp

end
