(* ===== verification/PackageInfo.thy ===== *)
theory PackageInfo
  imports InstallQuestions
begin

text \<open>
  What the dialog of an installed package shows of its answers and notes,
  \<^verbatim>\<open>components/packages/PackageInfoDialog.jsx\<close>.
\<close>

section \<open>The dialog\<close>






definition copy_secret :: "clipboard \<Rightarrow> ('w page, js_error, bool) eff" where
  "copy_secret c =
     eff_catch
       (eff_bind (eff_lift (copyToClipboard c)) (\<lambda>_.
         eff_seq (show_toast (Success ''package_info.secret_copied'')) (eff_return True)))
       (\<lambda>_. eff_seq (show_toast (FailureKey ''package_info.secret_copy_failed'')) (eff_return False))"

datatype note_display = NoteLink string string | NoteText string

definition note_display_of :: "json \<Rightarrow> string \<Rightarrow> note_display" where
  "note_display_of noteType v =
     (if noteType = JStr ''url'' then NoteLink v v
      else if noteType = JStr ''email'' then NoteLink (''mailto:'' @ v) v
      else if noteType = JStr ''phone'' then NoteLink (''tel:'' @ v) v
      else NoteText v)"

definition no_config :: "json \<Rightarrow> json \<Rightarrow> bool" where
  "no_config questions notes \<longleftrightarrow>
     (\<not> truthy questions \<or> js_keys questions = []) \<and> (\<not> truthy notes \<or> js_keys notes = [])"

section \<open>Theorems\<close>





end
