(* ===== verification/Spec2Isabelle.thy ===== *)
theory Spec2Isabelle
  imports ApiContract BootStepper LogFormat ChartData InstallQuestions Journal DataTable SettingsPage
    VolumeTree StoragePage AccountPages DnsPage PagesPage NetworksPage ObjectsPage HomePage AuditPage ServiceTree
    PackageInfo
begin

text \<open>
  Verification development for the Town OS user interface, the JavaScript under
  \<^verbatim>\<open>ui/src\<close>: a React application that talks to the system controller of the box over
  HTTP.  The theories translate the code function by function; a definition has the name of
  the function, method or handler it models wherever HOL allows it, and the manifest
  names the lines.

  Conventions (\<^verbatim>\<open>JsBase\<close>, \<^verbatim>\<open>JsJson\<close>).  A string is the bytes of its UTF-8 encoding, a
  dictionary an association list in the order \<open>Object.keys\<close> reports, a value of unknown shape
  a term of type \<open>json\<close>, with decimal fractions kept exactly.  An asynchronous function is a
  state transformer \<open>('w, 'e, 'a) eff\<close> over an arbitrary world that ends in an error (the
  rejection) or a value; the network \<open>'w net\<close> may answer every request in any way and may
  depend on all that happened before.  Every \<open>throw\<close>, every \<open>catch\<close> and every early return of
  the source is a branch.

  The program's parts and the theories that model them:

  \<^item> \<^verbatim>\<open>HttpCore\<close>, \<^verbatim>\<open>ClientAccount\<close>, \<^verbatim>\<open>ClientStorage\<close>, \<^verbatim>\<open>ClientPackage\<close>, \<^verbatim>\<open>ClientNetwork\<close>,
    \<^verbatim>\<open>ClientUnit\<close>: the API client of \<^verbatim>\<open>api/\<close>, its four request primitives and one definition
    per method.  \<^verbatim>\<open>QueryString\<close> reads queries as the server does.  \<^verbatim>\<open>ApiContract\<close> proves
    that every method makes one request with the token it holds and reports every status
    but 200 as an \<open>ApiError\<close>, and that what it sends is read back.
  \<^item> \<^verbatim>\<open>SseStream\<close>: the line reader of event streams, \<open>readProgressStream\<close> (\<^verbatim>\<open>api/progress.js\<close>);
    what a stream says does not depend on how the network cuts it into chunks.
  \<^item> \<^verbatim>\<open>BootClient\<close>, \<^verbatim>\<open>BootStepper\<close>: the observation of a boot that reconnects until the
    successor controller is up (\<^verbatim>\<open>api/client-boot.js\<close>), and the stepper that shows it.
  \<^item> \<^verbatim>\<open>Session\<close>: tokens in web storage (\<^verbatim>\<open>lib/auth.js\<close>), the client singleton, the guard
    that suspends the session poll (\<^verbatim>\<open>lib/session-guard.js\<close>, with the interface \<open>suspension\<close> as
    a locale), \<open>usePolling\<close> as a step relation and \<open>useRequireAuth\<close> as the events it reacts to.
  \<^item> \<^verbatim>\<open>PageEffects\<close>: what the route components share, the effects handlers are made of, and a
    weakest precondition calculus (\<open>wp_simps\<close>) by which all handlers are run symbolically.
  \<^item> \<^verbatim>\<open>InstallFlow\<close>, \<^verbatim>\<open>InstallQuestions\<close>: the package page, every way to start an install up to
    the request, and the dialog of questions with the OAuth device flow.
    \<^verbatim>\<open>PackageInfo\<close>: the dialog that shows the answers of an installed package, credentials masked.
  \<^item> \<^verbatim>\<open>RefreshFlow\<close>: the system page; restarting the services is a state machine whose
    events are those of the page and those of the session poll, so that its theorems are
    about the two components together.
    \<^verbatim>\<open>ServiceTree\<close>: the tree of units it shows.
  \<^item> \<^verbatim>\<open>Journal\<close>: the journal viewer with its two hooks.  \<^verbatim>\<open>LogFormat\<close>: the formatting of a line.
  \<^item> \<^verbatim>\<open>DataTable\<close>: the table every page uses.
  \<^item> \<^verbatim>\<open>Monitoring\<close>, \<^verbatim>\<open>ChartData\<close>: the queries of the dashboards; the panels, and how the answers of
    Prometheus become named, aligned series and a chart.
  \<^item> \<^verbatim>\<open>StoragePage\<close>, \<^verbatim>\<open>VolumeTree\<close>: the storage page and its quotas; the forest of package
    volumes built from the server's flat list.
  \<^item> \<^verbatim>\<open>AccountPages\<close>: signing in and out, registering, creating and editing accounts.
  \<^item> \<^verbatim>\<open>SettingsPage\<close>: the settings, each number shown in a unit that divides it; the language,
    which goes through to the provider of \<^verbatim>\<open>I18n\<close>; the wait for the monitoring backend.
  \<^item> \<^verbatim>\<open>DnsPage\<close>: the name service, with the refusal codes of blocklist providers.
    \<^verbatim>\<open>PagesPage\<close>: static sites, from the form to the end of the poll for their status.
    \<^verbatim>\<open>NetworksPage\<close>: networks, their peers and the devices connected.
  \<^item> \<^verbatim>\<open>ObjectsPage\<close>: object storage, its users, grants and links, together with the guards of the
    backend (\<^verbatim>\<open>account/grants.go\<close>, \<^verbatim>\<open>controller_auth.go\<close>) that its requests meet.
  \<^item> \<^verbatim>\<open>HomePage\<close>: the first screen, the frame around all screens and the choice of dashboard.
    \<^verbatim>\<open>AuditPage\<close>: the audit log and the tree a recorded request is shown as.
  \<^item> \<^verbatim>\<open>I18n\<close>: the choice of the language and the translation of a message.

  How to read the theorems.  Handlers: \<open>wp h Q pg\<close> says that \<open>h\<close>, started on the page \<open>pg\<close>,
  ends and \<open>Q\<close> holds of its result and the page it leaves, whatever the server answers; a
  network \<open>recording a\<close> keeps the requests, so a theorem can say which were sent.  Loops that
  the code may run forever have fuel: the observation of a boot is proved to need at most
  \<open>maxEnvelopeMs / baseBackoffMs + 2\<close> rounds, the probe for the restarted interface at most 61, the wait for the monitoring backend 21,
  the poll for the status of a site 30, the OAuth loop as many as the server's polls until it answers (\<open>oauth_completes\<close>; a flow
  that stays pending polls forever, and the safety theorems hold for every fuel), and the
  forest of volumes as many levels as its longest key has characters.

  Some theorems state what the code does where a comment or its purpose says otherwise:
  \<open>late_manifest_misplaced\<close> and \<open>move_up_effect\<close> (\<^verbatim>\<open>InstallFlow\<close>), \<open>oauth_survives_reopening\<close>
  (\<^verbatim>\<open>InstallQuestions\<close>), \<open>late_ping_restarts\<close> (\<^verbatim>\<open>RefreshFlow\<close>), \<open>follow_overlap_duplicates\<close>,
  \<open>load_more_drops_times\<close> and \<open>reopened_query_not_applied\<close> (\<^verbatim>\<open>Journal\<close>),
  \<open>client_keeps_token_after_logout\<close> (\<^verbatim>\<open>Session\<close>), \<open>url_token_replaces_session\<close> (\<^verbatim>\<open>AccountPages\<close>),
  \<open>unset_limits_lowered\<close> (\<^verbatim>\<open>SettingsPage\<close>), \<open>unloaded_list_overwritten\<close>, \<open>custom_codes_glued\<close>,
  \<open>scoped_record_hidden\<close> and \<open>remaining_sixty_minutes\<close> (\<^verbatim>\<open>DnsPage\<close>), \<open>leaving_reported_as_failure\<close> and
  \<open>emptied_fields_kept\<close> (\<^verbatim>\<open>PagesPage\<close>), \<open>config_not_copied\<close> (\<^verbatim>\<open>NetworksPage\<close>), \<open>fresh_grant_unseen\<close>,
  \<open>grantee_offered_nobody\<close> and \<open>user_kept_across_partitions\<close> (\<^verbatim>\<open>ObjectsPage\<close>), \<open>failed_notes_not_retried\<close>,
  \<open>dismissed_by_count\<close> and \<open>copied_without_copy\<close> (\<^verbatim>\<open>HomePage\<close>), \<open>chart_back_late\<close> and
  \<open>monitoring_bases_differ\<close> (\<^verbatim>\<open>ChartData\<close>),
  \<open>translate_dollar\<close> (\<^verbatim>\<open>I18n\<close>), \<open>observe_envelope_from_start\<close> (\<^verbatim>\<open>BootClient\<close>),
  \<open>progress_stream_cut_short\<close> (\<^verbatim>\<open>SseStream\<close>), \<open>explicit_token_overridden\<close> and
  \<open>uploadPageArchive_differs\<close> (\<^verbatim>\<open>ApiContract\<close>).

  Not modelled.  The Go backend, a program of its own, but for what the interface is judged
  against: \<open>repository_Move\<close> and the guards in \<^verbatim>\<open>ObjectsPage\<close>.  Markup, styling and the vendored
  components of \<^verbatim>\<open>components/ui\<close>, and the dialogs that are markup over the state of the pages.
  The message catalogs, which are data and a parameter of \<open>translate\<close>.  The drawing of charts,
  which is the library uPlot.  \<open>formatBytes\<close> of \<^verbatim>\<open>lib/utils.js\<close>, whose result depends on how
  \<open>Math.log\<close> rounds, and the offsets of time zones, which \<open>Intl\<close> computes.  What belongs to the
  browser is a parameter or an event: \<open>fetch\<close>, clocks, timers, the file picker, the clipboard,
  the parsing of addresses and \<open>localeCompare\<close>.
\<close>

section \<open>Properties that span components\<close>

text \<open>C25: the readers of event streams see the stream and not its chunks: two responses whose
  bodies join to the same text, and that both break off or both do not, are read with
  the same result by \<open>readProgressStream\<close>, by the journal replays and by the boot
  observation.\<close>

theorem stream_chunks_irrelevant:
  assumes "concat (rs_chunks a) = concat (rs_chunks b)" "rs_broken a = rs_broken b"
  shows "readProgressStream a = readProgressStream b \<and> replay_stream a = replay_stream b \<and>
    read_boot_stream a = read_boot_stream b"
  unfolding readProgressStream_def replay_stream_def read_boot_stream_def
    run_chunks_cong [OF assms(1)] assms(2)
  by simp

theorem stream_chunks_irrelevant_witness:
  "readProgressStream \<lparr>rs_status = 200, rs_chunks = [''data: {\"st'', ''ep\":\"a\"}'', [newline]], rs_broken = False\<rparr>
   = readProgressStream \<lparr>rs_status = 200, rs_chunks = [''data: {\"step\":\"a\"}'' @ [newline]], rs_broken = False\<rparr>"
  using stream_chunks_irrelevant
    [of "\<lparr>rs_status = 200, rs_chunks = [''data: {\"st'', ''ep\":\"a\"}'', [newline]], rs_broken = False\<rparr>"
        "\<lparr>rs_status = 200, rs_chunks = [''data: {\"step\":\"a\"}'' @ [newline]], rs_broken = False\<rparr>"]
  by simp

end
